theory Spec2Isabelle
  imports Complex_Main
begin

section \<open>Values, data frames and errors\<close>

text \<open>
  The program is a pandas/SQLAlchemy pipeline. A data frame is modelled row-major: the
  ordered column names and, for each record, the cells aligned with the columns. A cell
  is a missing value (pandas' NaN/None sentinel, \<open>NoneV\<close>), a number or a string.
  Floats are the finite rationals (a superset of the finite doubles) plus the two
  infinities and NaN, so that \<open>float(score) >= 40\<close> compares as in Python.
\<close>

datatype pyfloat = Fin rat | PInf | NInf | NaN

datatype cell = NoneV | Num pyfloat | Str string

datatype error =
    FileNotFoundError
  | ParserError
  | KeyError string
  | ValueError
  | DatabaseError

record frame =
  columns :: "string list"
  rows :: "cell list list"

text \<open>A frame is rectangular and its column labels are unique (pandas' reader
  de-duplicates the labels of a header).\<close>

definition wf_frame :: "frame \<Rightarrow> bool" where
  "wf_frame df \<longleftrightarrow>
     distinct (columns df) \<and> (\<forall>r \<in> set (rows df). length r = length (columns df))"

fun index_of :: "'a list \<Rightarrow> 'a \<Rightarrow> nat option" where
  "index_of [] x = None"
| "index_of (y # ys) x = (if y = x then Some 0 else map_option Suc (index_of ys x))"

definition cell_at :: "cell list \<Rightarrow> nat \<Rightarrow> cell" where
  "cell_at r j = (if j < length r then r ! j else NoneV)"

definition named_cell :: "string list \<Rightarrow> cell list \<Rightarrow> string \<Rightarrow> cell" where
  "named_cell cols r c = (case index_of cols c of Some j \<Rightarrow> cell_at r j | None \<Rightarrow> NoneV)"

text \<open>\<open>pd.isna\<close> / \<open>Series.isnull\<close>: true of None and of the float NaN.\<close>

fun pd_isna :: "cell \<Rightarrow> bool" where
  "pd_isna NoneV = True"
| "pd_isna (Num NaN) = True"
| "pd_isna _ = False"

text \<open>Applying a fallible function to every element stops at the first exception.\<close>

fun apply_all :: "('a \<Rightarrow> error + 'b) \<Rightarrow> 'a list \<Rightarrow> error + 'b list" where
  "apply_all f [] = Inr []"
| "apply_all f (x # xs) =
     (case f x of
        Inl e \<Rightarrow> Inl e
      | Inr y \<Rightarrow> (case apply_all f xs of Inl e \<Rightarrow> Inl e | Inr ys \<Rightarrow> Inr (y # ys)))"

section \<open>Transformations (etl\_processor.py, lines 11--55)\<close>

subsection \<open>transform\_student\_assessment\<close>

text \<open>\<open>x >= 40\<close> on a Python float: false for NaN.\<close>

fun ge40 :: "pyfloat \<Rightarrow> bool" where
  "ge40 (Fin q) = (40 \<le> q)"
| "ge40 PInf = True"
| "ge40 NInf = False"
| "ge40 NaN = False"

text \<open>
  \<open>classify_score\<close>: None for a missing score, otherwise \<open>"Pass" if float(score) >= 40
  else "Fail"\<close>. Python's builtin \<open>float\<close> on a string is a parameter (\<open>py_float\<close>,
  None when it raises ValueError); on a number it is the number itself.
\<close>

definition classify_score :: "(string \<Rightarrow> pyfloat option) \<Rightarrow> cell \<Rightarrow> error + cell" where
  "classify_score py_float score =
     (if pd_isna score then Inr NoneV
      else (case score of
              Num x \<Rightarrow> Inr (Str (if ge40 x then ''Pass'' else ''Fail''))
            | Str s \<Rightarrow> (case py_float s of
                          None \<Rightarrow> Inl ValueError
                        | Some x \<Rightarrow> Inr (Str (if ge40 x then ''Pass'' else ''Fail'')))
            | NoneV \<Rightarrow> Inr NoneV))"

text \<open>\<open>df[c] = values\<close>: overwrite the column where it exists, append it otherwise.\<close>

definition set_column :: "frame \<Rightarrow> string \<Rightarrow> cell list \<Rightarrow> frame" where
  "set_column df c vs =
     (case index_of (columns df) c of
        Some j \<Rightarrow> df\<lparr>rows := map (\<lambda>(r, v). r[j := v]) (zip (rows df) vs)\<rparr>
      | None \<Rightarrow> df\<lparr>columns := columns df @ [c],
                   rows := map (\<lambda>(r, v). r @ [v]) (zip (rows df) vs)\<rparr>)"

definition transform_student_assessment ::
  "(string \<Rightarrow> pyfloat option) \<Rightarrow> frame \<Rightarrow> error + frame" where
  "transform_student_assessment py_float df =
     (case index_of (columns df) ''score'' of
        None \<Rightarrow> Inl (KeyError ''score'')
      | Some j \<Rightarrow>
          (case apply_all (classify_score py_float) (map (\<lambda>r. cell_at r j) (rows df)) of
             Inl e \<Rightarrow> Inl e
           | Inr res \<Rightarrow> Inr (set_column df ''assessment_result'' res)))"

subsection \<open>transform\_generic\<close>

definition transform_generic :: "frame \<Rightarrow> error + frame" where
  "transform_generic df = Inr df"

subsection \<open>transform\_assessments\<close>

text \<open>
  The dtype of a column follows from its cells: a column that holds a string is of
  dtype \<open>object\<close>, a column of numbers and missing values is numeric.
\<close>

definition column_cells :: "frame \<Rightarrow> string \<Rightarrow> cell list" where
  "column_cells df c = map (\<lambda>r. named_cell (columns df) r c) (rows df)"

fun is_text :: "cell \<Rightarrow> bool" where
  "is_text (Str s) = True"
| "is_text _ = False"

definition object_dtype :: "frame \<Rightarrow> string \<Rightarrow> bool" where
  "object_dtype df c \<longleftrightarrow> list_ex is_text (column_cells df c)"

text \<open>
  When both frames have rows, \<open>pd.merge\<close> refuses with ValueError a key that is a text
  column on one side and a numeric column on the other.
\<close>

definition same_key_dtypes :: "frame \<Rightarrow> frame \<Rightarrow> string list \<Rightarrow> bool" where
  "same_key_dtypes left right on \<longleftrightarrow>
     rows left = [] \<or> rows right = []
       \<or> list_all (\<lambda>k. object_dtype left k = object_dtype right k) on"

text \<open>The key of a row: its cells in the key columns, where every missing value (None
  or NaN) is the same key value, as \<open>pd.merge\<close> matches missing keys with each other.\<close>

definition merge_key :: "string list \<Rightarrow> string list \<Rightarrow> cell list \<Rightarrow> cell list" where
  "merge_key cols on r =
     map (\<lambda>k. if pd_isna (named_cell cols r k) then NoneV else named_cell cols r k) on"

text \<open>
  \<open>pd.merge(left, right, on=keys, how="left")\<close>: every left row, in order, is joined
  with each right row that has the same key; a left row without a match is kept once
  with missing values for the right columns. The key columns appear once; a non-key
  label present on both sides gets the suffixes \<open>_x\<close> and \<open>_y\<close>. A key that is not a
  column of both frames raises KeyError.
\<close>

definition pd_merge_left :: "frame \<Rightarrow> frame \<Rightarrow> string list \<Rightarrow> error + frame" where
  "pd_merge_left left right on =
     (case find (\<lambda>k. k \<notin> set (columns left) \<or> k \<notin> set (columns right)) on of
        Some k \<Rightarrow> Inl (KeyError k)
      | None \<Rightarrow>
          if \<not> same_key_dtypes left right on then Inl ValueError
          else
          (let rcols = filter (\<lambda>c. c \<notin> set on) (columns right);
               lname = (\<lambda>c. if c \<in> set rcols then c @ ''_x'' else c);
               rname = (\<lambda>c. if c \<in> set (columns left) then c @ ''_y'' else c);
               joined = (\<lambda>l.
                  (let ms = filter (\<lambda>r. merge_key (columns right) on r
                                           = merge_key (columns left) on l) (rows right)
                   in if ms = [] then [l @ map (\<lambda>c. NoneV) rcols]
                      else map (\<lambda>r. l @ map (named_cell (columns right) r) rcols) ms))
           in Inr \<lparr>columns = map lname (columns left) @ map rname rcols,
                   rows = concat (map joined (rows left))\<rparr>))"

text \<open>\<open>df[labels]\<close>: the listed columns in the listed order; KeyError for a label
  that is not a column.\<close>

definition select_columns :: "frame \<Rightarrow> string list \<Rightarrow> error + frame" where
  "select_columns df cs =
     (case apply_all (\<lambda>c. case index_of (columns df) c of
                             None \<Rightarrow> Inl (KeyError c)
                           | Some j \<Rightarrow> Inr j) cs of
        Inl e \<Rightarrow> Inl e
      | Inr js \<Rightarrow> Inr \<lparr>columns = cs, rows = map (\<lambda>r. map (cell_at r) js) (rows df)\<rparr>)"

definition merge_keys :: "string list" where
  "merge_keys = [''code_module'', ''code_presentation'']"

definition transform_assessments :: "frame \<Rightarrow> frame \<Rightarrow> error + frame" where
  "transform_assessments df courses_df =
     (case pd_merge_left df courses_df merge_keys of
        Inl e \<Rightarrow> Inl e
      | Inr df_merged \<Rightarrow>
          (case index_of (columns df_merged) ''assessment_type'' of
             None \<Rightarrow> Inl (KeyError ''assessment_type'')
           | Some jt \<Rightarrow>
          (case index_of (columns df_merged) ''date'' of
             None \<Rightarrow> Inl (KeyError ''date'')
           | Some jd \<Rightarrow>
          (case index_of (columns df_merged) ''module_presentation_length'' of
             None \<Rightarrow> Inl (KeyError ''module_presentation_length'')
           | Some jl \<Rightarrow>
               select_columns
                 (df_merged\<lparr>rows :=
                    map (\<lambda>r. if cell_at r jt = Str ''Exam'' \<and> pd_isna (cell_at r jd)
                              then r[jd := cell_at r jl] else r)
                        (rows df_merged)\<rparr>)
                 (columns df)))))"

section \<open>Chunked source reader (pandas \<open>read_csv\<close>)\<close>

text \<open>
  A source file is its header and its records, each record being the list of its raw
  field texts. The reader turns a field into a cell: a field that is one of the
  \<open>na_values\<close> given by the caller, or one of pandas' default missing-value tokens,
  becomes the missing value while the record is parsed; in a column all of whose
  remaining fields are numeric the fields become numbers, otherwise they stay strings.
  The recognition of a number is pandas' own and is a parameter (\<open>to_numeric\<close>).

  When the first record has more fields than the header, pandas takes its surplus
  leading fields as the row labels (the index) of the frame, in every record; the
  columns are the fields after them. The index is not among the columns of the frame
  and is not written by \<open>to_sql(index=False)\<close>. A record with fewer fields than
  expected is padded with missing values; a record with more fields than the header and
  the row labels together makes the parser raise. The labels of a header are taken to
  be distinct (pandas renames a repeated label), so that they are the columns.
\<close>

record csv_file =
  header :: "string list"
  records :: "string list list"

definition default_na_values :: "string list" where
  "default_na_values =
     ['''', ''#N/A'', ''#N/A N/A'', ''#NA'', ''-1.#IND'', ''-1.#QNAN'', ''-NaN'', ''-nan'',
      ''1.#IND'', ''1.#QNAN'', ''<NA>'', ''N/A'', ''NA'', ''NULL'', ''NaN'', ''None'',
      ''n/a'', ''nan'', ''null'']"

definition raw_field :: "string list \<Rightarrow> nat \<Rightarrow> string" where
  "raw_field rec j = (if j < length rec then rec ! j else '''')"

definition is_na :: "string list \<Rightarrow> string \<Rightarrow> bool" where
  "is_na na_values s \<longleftrightarrow> s \<in> set na_values \<or> s \<in> set default_na_values"

definition numeric_column ::
  "(string \<Rightarrow> pyfloat option) \<Rightarrow> string list \<Rightarrow> string list list \<Rightarrow> nat \<Rightarrow> bool" where
  "numeric_column to_numeric na_values recs j \<longleftrightarrow>
     (\<forall>rec \<in> set recs.
        is_na na_values (raw_field rec j) \<or> to_numeric (raw_field rec j) \<noteq> None)"

definition parse_field ::
  "(string \<Rightarrow> pyfloat option) \<Rightarrow> string list \<Rightarrow> string list list \<Rightarrow> string list \<Rightarrow> nat
     \<Rightarrow> cell" where
  "parse_field to_numeric na_values recs rec j =
     (if is_na na_values (raw_field rec j) then NoneV
      else if numeric_column to_numeric na_values recs j
        then (case to_numeric (raw_field rec j) of
                Some x \<Rightarrow> Num x
              | None \<Rightarrow> Str (raw_field rec j))
        else Str (raw_field rec j))"

text \<open>The number of leading fields that are row labels.\<close>

definition implicit_index :: "csv_file \<Rightarrow> nat" where
  "implicit_index f =
     (case records f of [] \<Rightarrow> 0 | rec # rest \<Rightarrow> length rec - length (header f))"

definition parse_chunk ::
  "(string \<Rightarrow> pyfloat option) \<Rightarrow> string list \<Rightarrow> string list \<Rightarrow> nat \<Rightarrow> string list list
     \<Rightarrow> error + frame" where
  "parse_chunk to_numeric na_values hdr lead recs =
     (if \<exists>rec \<in> set recs. lead + length hdr < length rec then Inl ParserError
      else Inr \<lparr>columns = hdr,
                rows = map (\<lambda>rec. map (\<lambda>j. parse_field to_numeric na_values recs rec (lead + j))
                                   [0..<length hdr]) recs\<rparr>)"

text \<open>\<open>pd.read_csv(path)\<close>: the whole file as one frame.\<close>

definition read_csv ::
  "(string \<Rightarrow> pyfloat option) \<Rightarrow> string list \<Rightarrow> csv_file \<Rightarrow> error + frame" where
  "read_csv to_numeric na_values f =
     parse_chunk to_numeric na_values (header f) (implicit_index f) (records f)"

function chunks_of :: "nat \<Rightarrow> 'a list \<Rightarrow> 'a list list" where
  "chunks_of n xs = (if n = 0 \<or> xs = [] then [] else take n xs # chunks_of n (drop n xs))"
  by pat_completeness auto
termination
  by (relation "measure (\<lambda>(n, xs). length xs)") auto

declare chunks_of.simps [simp del]

text \<open>The records of each chunk: \<open>chunksize\<close> records at a time, the last chunk
  shorter; a file with a header and no record gives a single empty chunk.\<close>

definition csv_chunks :: "nat \<Rightarrow> csv_file \<Rightarrow> string list list list" where
  "csv_chunks n f = (if records f = [] then [[]] else chunks_of n (records f))"

text \<open>
  \<open>pd.read_csv(path, chunksize=n, iterator=True, na_values=...)\<close>: a chunk size below 1
  raises ValueError at once; otherwise the chunks are produced one at a time, and a
  chunk that cannot be parsed raises when the iteration reaches it (an \<open>Inl\<close> element).
\<close>

definition read_csv_chunks ::
  "(string \<Rightarrow> pyfloat option) \<Rightarrow> string list \<Rightarrow> csv_file \<Rightarrow> int
     \<Rightarrow> error + (error + frame) list" where
  "read_csv_chunks to_numeric na_values f chunksize =
     (if chunksize < 1 then Inl ValueError
      else Inr (map (parse_chunk to_numeric na_values (header f) (implicit_index f))
                    (csv_chunks (nat chunksize) f)))"

section \<open>File system\<close>

text \<open>A data source is a directory of named files; \<open>os.path.join(data_path, filename)\<close>
  is the pair of the directory and the file name.\<close>

type_synonym directory = "(string \<times> csv_file) list"
type_synonym filesystem = "string \<rightharpoonup> directory"
type_synonym filepath = "string \<times> string"

definition os_path_join :: "string \<Rightarrow> string \<Rightarrow> filepath" where
  "os_path_join data_path filename = (data_path, filename)"

definition open_file :: "filesystem \<Rightarrow> filepath \<Rightarrow> csv_file option" where
  "open_file fs p = (case fs (fst p) of None \<Rightarrow> None | Some dir \<Rightarrow> map_of dir (snd p))"

definition os_path_exists :: "filesystem \<Rightarrow> filepath \<Rightarrow> bool" where
  "os_path_exists fs p \<longleftrightarrow> open_file fs p \<noteq> None"

definition endswith :: "string \<Rightarrow> string \<Rightarrow> bool" where
  "endswith s suffix \<longleftrightarrow>
     length suffix \<le> length s \<and> drop (length s - length suffix) s = suffix"

section \<open>Database and checkpoint store\<close>

text \<open>
  The destination store: each existing table with its stored rows (a row is the list of
  its named cells), and the checkpoint table \<open>etl_log\<close> (absent until it is created),
  which holds for a table name the index of its last committed chunk.
\<close>

type_synonym db_row = "(string \<times> cell) list"

record database =
  tables :: "string \<rightharpoonup> db_row list"
  etl_log :: "(string \<rightharpoonup> nat) option"

definition stored_rows :: "database \<Rightarrow> string \<Rightarrow> db_row list" where
  "stored_rows db t = (case tables db t of None \<Rightarrow> [] | Some rs \<Rightarrow> rs)"

definition log_entries :: "database \<Rightarrow> (string \<rightharpoonup> nat)" where
  "log_entries db = (case etl_log db of None \<Rightarrow> Map.empty | Some m \<Rightarrow> m)"

definition last_committed :: "database \<Rightarrow> string \<Rightarrow> nat" where
  "last_committed db t = (case log_entries db t of None \<Rightarrow> 0 | Some k \<Rightarrow> k)"

definition named_rows :: "frame \<Rightarrow> db_row list" where
  "named_rows df = map (zip (columns df)) (rows df)"

text \<open>
  A database operation can fail (constraint violation, lost connection, ...). The
  failure of the write of one chunk is given from outside: the insertion fails after
  some rows have already been inserted, or the update of the checkpoint fails.
\<close>

datatype write_fault = FailAfterRows nat | FailLogUpdate

text \<open>\<open>df.to_sql(table_name, con=connection, if_exists="append", index=False)\<close>:
  creates the table when it does not exist and inserts the rows one after the other.\<close>

definition to_sql ::
  "write_fault option \<Rightarrow> string \<Rightarrow> frame \<Rightarrow> database \<Rightarrow> database \<times> (error + unit)" where
  "to_sql fault table_name df connection =
     (case fault of
        Some (FailAfterRows j) \<Rightarrow>
          (connection\<lparr>tables := (tables connection)
              (table_name \<mapsto> stored_rows connection table_name @ take j (named_rows df))\<rparr>,
           Inl DatabaseError)
      | _ \<Rightarrow>
          (connection\<lparr>tables := (tables connection)
              (table_name \<mapsto> stored_rows connection table_name @ named_rows df)\<rparr>,
           Inr ()))"

text \<open>Modelled from the spec: \<open>db_utils.setup_etl_log_table\<close> (db\_utils.py is not among
  the sources) creates the backing structure of the checkpoint store when it is absent.\<close>

definition setup_etl_log_table :: "database \<Rightarrow> database" where
  "setup_etl_log_table db =
     (case etl_log db of None \<Rightarrow> db\<lparr>etl_log := Some Map.empty\<rparr> | Some m \<Rightarrow> db)"

text \<open>Modelled from the spec: \<open>db_utils.get_last_processed_chunk\<close> (\<open>lastCommitted\<close>;
  db\_utils.py is not among the sources) returns 0 if no checkpoint exists for the
  table, never fails, and creates the backing structure on first use.\<close>

definition get_last_processed_chunk :: "string \<Rightarrow> database \<Rightarrow> database \<times> nat" where
  "get_last_processed_chunk table_name db =
     (setup_etl_log_table db, last_committed db table_name)"

text \<open>Modelled from the spec: \<open>db_utils.update_etl_log\<close> (\<open>recordCommit\<close>; db\_utils.py
  is not among the sources) sets the stored checkpoint of the table to the batch index,
  on the connection of the enclosing transaction.\<close>

definition update_etl_log ::
  "write_fault option \<Rightarrow> string \<Rightarrow> nat \<Rightarrow> database \<Rightarrow> database \<times> (error + unit)" where
  "update_etl_log fault table_name chunk_index connection =
     (case fault of
        Some FailLogUpdate \<Rightarrow> (connection, Inl DatabaseError)
      | _ \<Rightarrow>
          (connection\<lparr>etl_log :=
              Some ((log_entries connection)(table_name \<mapsto> chunk_index))\<rparr>,
           Inr ()))"

text \<open>Modelled from the spec: \<open>db_utils.clear_etl_logs\<close> (\<open>clearAll\<close>; db\_utils.py is
  not among the sources) removes every checkpoint record.\<close>

definition clear_etl_logs :: "database \<Rightarrow> database" where
  "clear_etl_logs db = db\<lparr>etl_log := Some Map.empty\<rparr>"

text \<open>\<open>with engine.begin() as connection: body\<close>: the body works on the connection;
  the transaction is committed when the body returns and rolled back when it raises.\<close>

definition engine_begin ::
  "(database \<Rightarrow> database \<times> (error + 'a)) \<Rightarrow> database \<Rightarrow> database \<times> (error + 'a)" where
  "engine_begin body engine =
     (case body engine of
        (connection, Inl e) \<Rightarrow> (engine, Inl e)
      | (connection, Inr x) \<Rightarrow> (connection, Inr x))"

text \<open>Lines 207--211 of \<open>process_csv_to_db\<close>: the load of one transformed chunk and
  the update of the log, inside one transaction.\<close>

definition commit_chunk ::
  "write_fault option \<Rightarrow> string \<Rightarrow> nat \<Rightarrow> frame \<Rightarrow> database \<Rightarrow> database \<times> (error + unit)" where
  "commit_chunk fault table_name current_chunk_index transformed_chunk engine =
     engine_begin
       (\<lambda>connection.
          case to_sql fault table_name transformed_chunk connection of
            (c, Inl e) \<Rightarrow> (c, Inl e)
          | (c, Inr u) \<Rightarrow> update_etl_log fault table_name current_chunk_index c)
       engine"

definition table_exists :: "database \<Rightarrow> string \<Rightarrow> bool" where
  "table_exists db t \<longleftrightarrow>
     (if t = ''etl_log'' then etl_log db \<noteq> None else tables db t \<noteq> None)"

definition data_tables :: "string list" where
  "data_tables = [''courses'', ''vle'', ''studentInfo'', ''studentRegistration'',
                  ''assessments'', ''studentAssessment'', ''studentVle'']"

definition clear_data_tables :: "database \<Rightarrow> database" where
  "clear_data_tables engine =
     (let db1 = fold (\<lambda>table_name db.
                        if table_exists db table_name
                        then db\<lparr>tables := (tables db)(table_name \<mapsto> [])\<rparr>
                        else db)
                     data_tables engine
      in if table_exists db1 ''etl_log'' then clear_etl_logs db1 else db1)"

section \<open>Table load (\<open>process_csv_to_db\<close>)\<close>

text \<open>
  What lies outside the program: Python's \<open>float\<close> on a string, pandas' recognition of
  numeric fields, and the failures of the database, given for each table and chunk
  index.
\<close>

record externals =
  py_float :: "string \<Rightarrow> pyfloat option"
  to_numeric :: "string \<Rightarrow> pyfloat option"
  db_fault :: "string \<Rightarrow> nat \<Rightarrow> write_fault option"

text \<open>
  The calls and messages of a run, in the order in which they happen: the start of a
  table load, the message for a missing file, the read of the checkpoint, the call of
  the transformation on a chunk, the entry into the transaction of a chunk, its
  successful commit, the completion message, the failure message; for a run, the
  rejection of the source, the reset, the missing course file and the end of the run.
\<close>

datatype event =
    Started string
  | FileMissing string
  | CheckpointRead string
  | TransformCall string nat
  | CommitCall string nat
  | Committed string nat
  | Completed string
  | Failed string error
  | SourceInvalid string
  | ResetCall
  | CoursesMissing string
  | SourceDone string

definition missing_values :: "string list" where
  "missing_values = [''?'', '''']"

text \<open>
  The loop over \<open>enumerate(reader)\<close>, lines 192--211. \<open>i\<close> is the position in the
  enumeration; an exception (a chunk that cannot be read, a transformation or a
  transaction that raises) leaves the loop with the database as it then is.
\<close>

fun process_chunks ::
  "externals \<Rightarrow> string \<Rightarrow> (frame \<Rightarrow> error + frame) \<Rightarrow> nat \<Rightarrow> nat \<Rightarrow> (error + frame) list
     \<Rightarrow> database \<Rightarrow> database \<times> event list \<times> (error + unit)" where
  "process_chunks ext table_name transform_func start_chunk i [] engine =
     (engine, [], Inr ())"
| "process_chunks ext table_name transform_func start_chunk i (Inl e # reader) engine =
     (engine, [], Inl e)"
| "process_chunks ext table_name transform_func start_chunk i (Inr chunk # reader) engine =
     (if i + 1 \<le> start_chunk
      then process_chunks ext table_name transform_func start_chunk (i + 1) reader engine
      else
        (case transform_func chunk of
           Inl e \<Rightarrow> (engine, [TransformCall table_name (i + 1)], Inl e)
         | Inr transformed_chunk \<Rightarrow>
             (case commit_chunk (db_fault ext table_name (i + 1)) table_name (i + 1)
                     transformed_chunk engine of
                (db, Inl e) \<Rightarrow>
                  (db, [TransformCall table_name (i + 1), CommitCall table_name (i + 1)], Inl e)
              | (db, Inr u) \<Rightarrow>
                  (case process_chunks ext table_name transform_func start_chunk (i + 1)
                          reader db of
                     (db', evs, r) \<Rightarrow>
                       (db', TransformCall table_name (i + 1) # CommitCall table_name (i + 1)
                               # Committed table_name (i + 1) # evs, r)))))"

text \<open>
  \<open>process_csv_to_db\<close>, lines 163--219. The result \<open>Inr ()\<close> is a normal return,
  \<open>Inl e\<close> would be an exception that leaves the function.
\<close>

definition process_csv_to_db ::
  "externals \<Rightarrow> filesystem \<Rightarrow> filepath \<Rightarrow> string \<Rightarrow> database \<Rightarrow> int
     \<Rightarrow> (frame \<Rightarrow> error + frame) \<Rightarrow> database \<times> event list \<times> (error + unit)" where
  "process_csv_to_db ext fs filepath table_name engine batch_size transform_func =
     (case open_file fs filepath of
        None \<Rightarrow> (engine, [Started table_name, FileMissing table_name], Inr ())
      | Some f \<Rightarrow>
          (case get_last_processed_chunk table_name engine of
             (db, start_chunk) \<Rightarrow>
               (case (case read_csv_chunks (to_numeric ext) missing_values f batch_size of
                        Inl e \<Rightarrow> (db, [], Inl e)
                      | Inr reader \<Rightarrow>
                          process_chunks ext table_name transform_func start_chunk 0 reader db) of
                  (db', evs, Inl e) \<Rightarrow>
                    (db', Started table_name # CheckpointRead table_name # evs
                            @ [Failed table_name e], Inr ())
                | (db', evs, Inr u) \<Rightarrow>
                    (db', Started table_name # CheckpointRead table_name # evs
                            @ [Completed table_name], Inr ()))))"

section \<open>Run orchestration (\<open>run_full_etl\<close>, \<open>run_multi_source_etl\<close>)\<close>

record summary =
  path :: string
  files :: "(string \<times> nat \<times> nat) list"
  total_records :: nat
  is_valid :: bool
  errors :: "string list"

text \<open>\<open>get_data_source_summary\<close>, lines 127--157: the source is invalid only when the
  folder does not exist; a file that cannot be read is recorded as an error.\<close>

definition get_data_source_summary :: "externals \<Rightarrow> filesystem \<Rightarrow> string \<Rightarrow> summary" where
  "get_data_source_summary ext fs data_path =
     (case fs data_path of
        None \<Rightarrow> \<lparr>path = data_path, files = [], total_records = 0, is_valid = False,
                  errors = [data_path]\<rparr>
      | Some dir \<Rightarrow>
          fold (\<lambda>(name, f) s.
                  case read_csv (to_numeric ext) [] f of
                    Inl e \<Rightarrow> s\<lparr>errors := errors s @ [name]\<rparr>
                  | Inr df \<Rightarrow>
                      s\<lparr>files := files s @ [(name, length (rows df), length (columns df))],
                        total_records := total_records s + length (rows df)\<rparr>)
               (filter (\<lambda>(name, f). endswith name ''.csv'') dir)
               \<lparr>path = data_path, files = [], total_records = 0, is_valid = True,
                errors = []\<rparr>)"

text \<open>The two settings of \<open>config["etl_settings"]\<close> that the run reads.\<close>

record config =
  etl_batch_size :: int
  etl_data_path :: string

definition execution_order :: "string list" where
  "execution_order = [''courses'', ''vle'', ''studentInfo'', ''studentRegistration'',
                      ''assessments'', ''studentAssessment'', ''studentVle'']"

definition etl_plan ::
  "externals \<Rightarrow> frame \<Rightarrow> string \<rightharpoonup> (frame \<Rightarrow> error + frame)" where
  "etl_plan ext courses_df =
     [''courses'' \<mapsto> transform_generic,
      ''vle'' \<mapsto> transform_generic,
      ''studentInfo'' \<mapsto> transform_generic,
      ''studentRegistration'' \<mapsto> transform_generic,
      ''assessments'' \<mapsto> (\<lambda>df. transform_assessments df courses_df),
      ''studentAssessment'' \<mapsto> transform_student_assessment (py_float ext),
      ''studentVle'' \<mapsto> transform_generic]"

text \<open>The loop over \<open>available_tables\<close>, lines 306--313.\<close>

fun process_tables ::
  "externals \<Rightarrow> filesystem \<Rightarrow> config \<Rightarrow> (string \<rightharpoonup> (frame \<Rightarrow> error + frame)) \<Rightarrow> string list
     \<Rightarrow> database \<Rightarrow> database \<times> event list \<times> (error + unit)" where
  "process_tables ext fs cfg plan [] engine = (engine, [], Inr ())"
| "process_tables ext fs cfg plan (table_name # rest) engine =
     (case plan table_name of
        None \<Rightarrow> (engine, [], Inl (KeyError table_name))
      | Some func \<Rightarrow>
          (case process_csv_to_db ext fs (os_path_join (etl_data_path cfg) (table_name @ ''.csv''))
                  table_name engine (etl_batch_size cfg) func of
             (db, evs, Inl e) \<Rightarrow> (db, evs, Inl e)
           | (db, evs, Inr u) \<Rightarrow>
               (case process_tables ext fs cfg plan rest db of
                  (db', evs', r) \<Rightarrow> (db', evs @ evs', r))))"

definition available_tables :: "filesystem \<Rightarrow> string \<Rightarrow> string list" where
  "available_tables fs data_path =
     filter (\<lambda>table_name. os_path_exists fs (os_path_join data_path (table_name @ ''.csv'')))
       execution_order"

text \<open>\<open>run_full_etl\<close>, lines 222--315. A missing course file ends the run by a return;
  any other exception of the preload leaves the function.\<close>

definition run_full_etl ::
  "externals \<Rightarrow> filesystem \<Rightarrow> database \<Rightarrow> config \<Rightarrow> bool
     \<Rightarrow> database \<times> event list \<times> (error + unit)" where
  "run_full_etl ext fs engine cfg clear_existing_data =
     (let data_path = etl_data_path cfg in
      if \<not> is_valid (get_data_source_summary ext fs data_path)
      then (engine, [SourceInvalid data_path], Inr ())
      else
        (let db1 = (if clear_existing_data then clear_data_tables engine else engine);
             evs1 = (if clear_existing_data then [ResetCall] else []);
             db2 = setup_etl_log_table db1
         in case open_file fs (os_path_join data_path ''courses.csv'') of
              None \<Rightarrow> (db2, evs1 @ [CoursesMissing data_path], Inr ())
            | Some f \<Rightarrow>
                (case read_csv (to_numeric ext) [] f of
                   Inl e \<Rightarrow> (db2, evs1, Inl e)
                 | Inr courses_df \<Rightarrow>
                     (case process_tables ext fs cfg (etl_plan ext courses_df)
                             (available_tables fs data_path) db2 of
                        (db3, evs, Inl e) \<Rightarrow> (db3, evs1 @ evs, Inl e)
                      | (db3, evs, Inr u) \<Rightarrow>
                          (db3, evs1 @ evs @ [SourceDone data_path], Inr ())))))"

text \<open>The loop over \<open>enumerate(data_sources)\<close>, lines 326--340; \<open>n\<close> is
  \<open>len(data_sources)\<close>.\<close>

fun process_sources ::
  "externals \<Rightarrow> filesystem \<Rightarrow> config \<Rightarrow> nat \<Rightarrow> nat \<Rightarrow> string list \<Rightarrow> database
     \<Rightarrow> database \<times> event list \<times> (error + unit)" where
  "process_sources ext fs cfg n i [] engine = (engine, [], Inr ())"
| "process_sources ext fs cfg n i (source # rest) engine =
     (case run_full_etl ext fs engine (cfg\<lparr>etl_data_path := source\<rparr>) (i = 0 \<or> n = 1) of
        (db, evs, Inl e) \<Rightarrow> (db, evs, Inl e)
      | (db, evs, Inr u) \<Rightarrow>
          (case process_sources ext fs (cfg\<lparr>etl_data_path := source\<rparr>) n (i + 1) rest db of
             (db', evs', r) \<Rightarrow> (db', evs @ evs', r)))"

definition run_multi_source_etl ::
  "externals \<Rightarrow> filesystem \<Rightarrow> database \<Rightarrow> config \<Rightarrow> string list
     \<Rightarrow> database \<times> event list \<times> (error + unit)" where
  "run_multi_source_etl ext fs engine cfg data_sources =
     process_sources ext fs cfg (length data_sources) 0 data_sources engine"

section \<open>Validation of a source (main\_etl.py, lines 33--53)\<close>

definition validate_data_source :: "filesystem \<Rightarrow> string \<Rightarrow> bool" where
  "validate_data_source fs data_path =
     (if fs data_path = None then False
      else
        (let essential_files = [''courses.csv'', ''studentInfo.csv''];
             missing_files = filter (\<lambda>file. \<not> os_path_exists fs (os_path_join data_path file))
                               essential_files
         in if missing_files \<noteq> [] then False else True))"

section \<open>Reading a trace\<close>

text \<open>The successful commits, the table loads that were started and the tables of the
  successful commits of a trace, each in the order of the trace.\<close>

fun commit_of :: "event \<Rightarrow> (string \<times> nat) list" where
  "commit_of (Committed t i) = [(t, i)]"
| "commit_of e = []"

definition commits :: "event list \<Rightarrow> (string \<times> nat) list" where
  "commits evs = concat (map commit_of evs)"

definition committed_chunks :: "string \<Rightarrow> event list \<Rightarrow> nat list" where
  "committed_chunks t evs = map snd (filter (\<lambda>c. fst c = t) (commits evs))"

definition committed_tables :: "event list \<Rightarrow> string list" where
  "committed_tables evs = map fst (commits evs)"

fun start_of :: "event \<Rightarrow> string list" where
  "start_of (Started t) = [t]"
| "start_of e = []"

definition started_tables :: "event list \<Rightarrow> string list" where
  "started_tables evs = concat (map start_of evs)"

text \<open>The events of the load of chunk \<open>i\<close> of table \<open>t\<close> when nothing fails.\<close>

definition chunk_events :: "string \<Rightarrow> nat \<Rightarrow> event list" where
  "chunk_events t i = [TransformCall t i, CommitCall t i, Committed t i]"

text \<open>The position of a table in \<open>execution_order\<close> (7 for any other name).\<close>

definition table_rank :: "string \<Rightarrow> nat" where
  "table_rank t = (case index_of execution_order t of Some j \<Rightarrow> j | None \<Rightarrow> length execution_order)"

section \<open>Example inputs\<close>

text \<open>A recogniser of unsigned decimal integers, used as the numeric recognition of
  the examples.\<close>

definition decimal :: "string \<Rightarrow> pyfloat option" where
  "decimal s =
     (if s \<noteq> [] \<and> (\<forall>ch \<in> set s. ch \<in> set ''0123456789'')
      then Some (Fin (of_nat (foldl (\<lambda>n ch. 10 * n + (of_char ch - 48)) (0 :: nat) s)))
      else None)"

definition example_ext :: externals where
  "example_ext = \<lparr>py_float = decimal, to_numeric = decimal, db_fault = (\<lambda>t i. None)\<rparr>"

definition empty_db :: database where
  "empty_db = \<lparr>tables = Map.empty, etl_log = None\<rparr>"

definition example_config :: config where
  "example_config = \<lparr>etl_batch_size = 1000, etl_data_path = ''./data/''\<rparr>"

definition courses_header :: "string list" where
  "courses_header = [''code_module'', ''code_presentation'', ''module_presentation_length'']"

definition example_scores :: frame where
  "example_scores =
     \<lparr>columns = [''id_assessment'', ''id_student'', ''score''],
      rows = [[Num (Fin 1752), Num (Fin 11391), Num (Fin (399 / 10))],
              [Num (Fin 1752), Num (Fin 28400), Num (Fin 40)],
              [Num (Fin 1752), Num (Fin 31604), NoneV]]\<rparr>"

definition example_file :: csv_file where
  "example_file =
     \<lparr>header = [''id_student'', ''score''],
      records = [[''11391'', ''?''], [''28400'', ''''], [''31604'', ''75'']]\<rparr>"

definition example_chunk1 :: frame where
  "example_chunk1 =
     \<lparr>columns = [''id_student'', ''score''],
      rows = [[Num (Fin 11391), NoneV], [Num (Fin 28400), NoneV]]\<rparr>"

definition example_chunk2 :: frame where
  "example_chunk2 =
     \<lparr>columns = [''id_student'', ''score''], rows = [[Num (Fin 31604), Num (Fin 75)]]\<rparr>"

text \<open>The database after the chunks \<open>outs\<close> of table \<open>t\<close> have been committed one
  after the other, the last of them with index \<open>final\<close>.\<close>

definition after_commits :: "string \<Rightarrow> nat \<Rightarrow> frame list \<Rightarrow> database \<Rightarrow> database" where
  "after_commits t final outs db =
     (if outs = [] then db
      else db\<lparr>tables := (tables db)(t \<mapsto> stored_rows db t @ concat (map named_rows outs)),
              etl_log := Some ((log_entries db)(t \<mapsto> final))\<rparr>)"

definition example_out1 :: frame where
  "example_out1 =
     \<lparr>columns = [''id_student'', ''score'', ''assessment_result''],
      rows = [[Num (Fin 11391), NoneV, NoneV], [Num (Fin 28400), NoneV, NoneV]]\<rparr>"

definition example_out2 :: frame where
  "example_out2 =
     \<lparr>columns = [''id_student'', ''score'', ''assessment_result''],
      rows = [[Num (Fin 31604), Num (Fin 75), Str ''Pass'']]\<rparr>"

definition example_fs :: filesystem where
  "example_fs = [''./data/'' \<mapsto> [(''studentAssessment.csv'', example_file)]]"

text \<open>The database after a run that was interrupted when the first chunk of
  \<open>studentAssessment\<close> had been committed.\<close>

definition example_db_resumed :: database where
  "example_db_resumed =
     \<lparr>tables = [''studentAssessment'' \<mapsto> named_rows example_out1],
      etl_log = Some [''studentAssessment'' \<mapsto> 1]\<rparr>"

text \<open>Two data sources, each with a course table and a student table of one record.\<close>

definition source_a :: directory where
  "source_a =
     [(''courses.csv'', \<lparr>header = courses_header, records = [[''AAA'', ''2013J'', ''268'']]\<rparr>),
      (''studentInfo.csv'',
       \<lparr>header = [''code_module'', ''id_student''], records = [[''AAA'', ''11391'']]\<rparr>)]"

definition source_b :: directory where
  "source_b =
     [(''courses.csv'', \<lparr>header = courses_header, records = [[''BBB'', ''2014J'', ''269'']]\<rparr>),
      (''studentInfo.csv'',
       \<lparr>header = [''code_module'', ''id_student''], records = [[''BBB'', ''28400'']]\<rparr>)]"

definition two_sources :: filesystem where
  "two_sources = [''./data/'' \<mapsto> source_a, ''./data_2/'' \<mapsto> source_b]"

definition courses_row_a :: db_row where
  "courses_row_a = [(''code_module'', Str ''AAA''), (''code_presentation'', Str ''2013J''),
                    (''module_presentation_length'', Num (Fin 268))]"

definition courses_row_b :: db_row where
  "courses_row_b = [(''code_module'', Str ''BBB''), (''code_presentation'', Str ''2014J''),
                    (''module_presentation_length'', Num (Fin 269))]"

definition student_row_a :: db_row where
  "student_row_a = [(''code_module'', Str ''AAA''), (''id_student'', Num (Fin 11391))]"

definition student_row_b :: db_row where
  "student_row_b = [(''code_module'', Str ''BBB''), (''id_student'', Num (Fin 28400))]"

text \<open>The database after the load of the first source.\<close>

definition db_after_a :: database where
  "db_after_a =
     \<lparr>tables = [''courses'' \<mapsto> [courses_row_a], ''studentInfo'' \<mapsto> [student_row_a]],
      etl_log = Some [''courses'' \<mapsto> 1, ''studentInfo'' \<mapsto> 1]\<rparr>"

definition table_events :: "string \<Rightarrow> event list" where
  "table_events t = [Started t, CheckpointRead t, TransformCall t 1, CommitCall t 1,
                     Committed t 1, Completed t]"

text \<open>A source that has the course table but lacks the student table, and a source
  that has the student table but lacks the course table.\<close>

definition courses_only :: filesystem where
  "courses_only =
     [''./data/'' \<mapsto>
        [(''courses.csv'',
          \<lparr>header = courses_header, records = [[''AAA'', ''2013J'', ''268'']]\<rparr>)]]"

definition db_courses_only :: database where
  "db_courses_only =
     \<lparr>tables = [''courses'' \<mapsto> [courses_row_a]], etl_log = Some [''courses'' \<mapsto> 1]\<rparr>"

definition students_only :: filesystem where
  "students_only =
     [''./data/'' \<mapsto>
        [(''studentInfo.csv'',
          \<lparr>header = [''code_module'', ''id_student''], records = [[''AAA'', ''11391'']]\<rparr>)]]"

definition db_cleared :: database where
  "db_cleared =
     \<lparr>tables = [''courses'' \<mapsto> [], ''studentInfo'' \<mapsto> []], etl_log = Some Map.empty\<rparr>"

text \<open>A source whose assessment results hold a score that is not a number in their
  second record, loaded one record at a time.\<close>

definition bad_scores_file :: csv_file where
  "bad_scores_file =
     \<lparr>header = [''id_student'', ''score''],
      records = [[''11391'', ''75''], [''28400'', ''abc''], [''31604'', ''80'']]\<rparr>"

definition failing_source :: filesystem where
  "failing_source =
     [''./data/'' \<mapsto>
        [(''courses.csv'',
          \<lparr>header = courses_header, records = [[''AAA'', ''2013J'', ''268'']]\<rparr>),
         (''studentAssessment.csv'', bad_scores_file),
         (''studentVle.csv'',
          \<lparr>header = [''id_student'', ''sum_click''], records = [[''11391'', ''4'']]\<rparr>)]]"

definition one_by_one :: config where
  "one_by_one = \<lparr>etl_batch_size = 1, etl_data_path = ''./data/''\<rparr>"

definition db_after_failure :: database where
  "db_after_failure =
     \<lparr>tables = [''courses'' \<mapsto> [courses_row_a],
                ''studentAssessment'' \<mapsto>
                   [[(''id_student'', Num (Fin 11391)), (''score'', Num (Fin 75)),
                     (''assessment_result'', Str ''Pass'')]],
                ''studentVle'' \<mapsto>
                   [[(''id_student'', Num (Fin 11391)), (''sum_click'', Num (Fin 4))]]],
      etl_log = Some [''courses'' \<mapsto> 1, ''studentAssessment'' \<mapsto> 1, ''studentVle'' \<mapsto> 1]\<rparr>"

text \<open>The presentation lengths that the course table declares for the
  (module, presentation) of an assessment row, in the order of the course table, and
  the first of them (the missing value when there is none).\<close>

definition course_lengths :: "frame \<Rightarrow> frame \<Rightarrow> cell list \<Rightarrow> cell list" where
  "course_lengths df courses_df r =
     map (\<lambda>course. named_cell (columns courses_df) course ''module_presentation_length'')
       (filter (\<lambda>course. merge_key (columns courses_df) merge_keys course
                           = merge_key (columns df) merge_keys r)
          (rows courses_df))"

definition course_length :: "frame \<Rightarrow> frame \<Rightarrow> cell list \<Rightarrow> cell" where
  "course_length df courses_df r =
     (case course_lengths df courses_df r of [] \<Rightarrow> NoneV | len # lens \<Rightarrow> len)"

text \<open>The course table has no (module, presentation) twice.\<close>

definition unique_course_keys :: "frame \<Rightarrow> bool" where
  "unique_course_keys courses_df \<longleftrightarrow>
     distinct (map (merge_key (columns courses_df) merge_keys) (rows courses_df))"

definition example_courses :: frame where
  "example_courses =
     \<lparr>columns = courses_header,
      rows = [[Str ''AAA'', Str ''2013J'', Num (Fin 268)],
              [Str ''BBB'', Str ''2014J'', Num (Fin 269)]]\<rparr>"

definition example_assessments :: frame where
  "example_assessments =
     \<lparr>columns = [''code_module'', ''code_presentation'', ''id_assessment'',
                 ''assessment_type'', ''date'', ''weight''],
      rows = [[Str ''BBB'', Str ''2014J'', Num (Fin 1), Str ''Exam'', NoneV, Num (Fin 100)],
              [Str ''BBB'', Str ''2014J'', Num (Fin 2), Str ''TMA'', NoneV, Num (Fin 10)],
              [Str ''AAA'', Str ''2013J'', Num (Fin 3), Str ''Exam'', Num (Fin 200), Num (Fin 100)],
              [Str ''CCC'', Str ''2014B'', Num (Fin 4), Str ''Exam'', NoneV, Num (Fin 100)]]\<rparr>"


text \<open>A course table that lists one course twice, and a batch of one assessment of
  that course that is not an exam.\<close>

definition repeated_courses :: frame where
  "repeated_courses =
     \<lparr>columns = courses_header,
      rows = [[Str ''AAA'', Str ''2013J'', Num (Fin 268)],
              [Str ''AAA'', Str ''2013J'', Num (Fin 268)]]\<rparr>"

definition tma_batch :: frame where
  "tma_batch =
     \<lparr>columns = [''code_module'', ''code_presentation'', ''id_assessment'',
                 ''assessment_type'', ''date'', ''weight''],
      rows = [[Str ''AAA'', Str ''2013J'', Num (Fin 1), Str ''TMA'', Num (Fin 19), Num (Fin 10)]]\<rparr>"

text \<open>The chunks of \<open>bad_scores_file\<close> read one record at a time, and the first of
  them transformed.\<close>

definition bad_chunk1 :: frame where
  "bad_chunk1 = \<lparr>columns = [''id_student'', ''score''], rows = [[Num (Fin 11391), Num (Fin 75)]]\<rparr>"

definition bad_chunk2 :: frame where
  "bad_chunk2 = \<lparr>columns = [''id_student'', ''score''], rows = [[Num (Fin 28400), Str ''abc'']]\<rparr>"

definition bad_chunk3 :: frame where
  "bad_chunk3 = \<lparr>columns = [''id_student'', ''score''], rows = [[Num (Fin 31604), Num (Fin 80)]]\<rparr>"

definition bad_out1 :: frame where
  "bad_out1 =
     \<lparr>columns = [''id_student'', ''score'', ''assessment_result''],
      rows = [[Num (Fin 11391), Num (Fin 75), Str ''Pass'']]\<rparr>"

text \<open>A source that holds all seven tables, one record each, whose assessment table
  lacks the column \<open>assessment_type\<close>; the database after its load.\<close>

definition all_tables_source :: filesystem where
  "all_tables_source =
     [''./data/'' \<mapsto>
        [(''courses.csv'',
          \<lparr>header = courses_header, records = [[''AAA'', ''2013J'', ''268'']]\<rparr>),
         (''vle.csv'',
          \<lparr>header = [''id_site'', ''code_module''], records = [[''546'', ''AAA'']]\<rparr>),
         (''studentInfo.csv'',
          \<lparr>header = [''code_module'', ''id_student''], records = [[''AAA'', ''11391'']]\<rparr>),
         (''studentRegistration.csv'',
          \<lparr>header = [''code_module'', ''id_student''], records = [[''AAA'', ''11391'']]\<rparr>),
         (''assessments.csv'',
          \<lparr>header = [''code_module'', ''code_presentation'', ''id_assessment'', ''date''],
           records = [[''AAA'', ''2013J'', ''1752'', ''19'']]\<rparr>),
         (''studentAssessment.csv'',
          \<lparr>header = [''id_assessment'', ''id_student'', ''score''],
           records = [[''1752'', ''11391'', ''78'']]\<rparr>),
         (''studentVle.csv'',
          \<lparr>header = [''id_site'', ''id_student'', ''sum_click''],
           records = [[''546'', ''11391'', ''4'']]\<rparr>)]]"

definition db_without_assessments :: database where
  "db_without_assessments =
     \<lparr>tables = [''courses'' \<mapsto> [courses_row_a],
                ''vle'' \<mapsto> [[(''id_site'', Num (Fin 546)), (''code_module'', Str ''AAA'')]],
                ''studentInfo'' \<mapsto> [student_row_a],
                ''studentRegistration'' \<mapsto> [student_row_a],
                ''studentAssessment'' \<mapsto>
                   [[(''id_assessment'', Num (Fin 1752)), (''id_student'', Num (Fin 11391)),
                     (''score'', Num (Fin 78)), (''assessment_result'', Str ''Pass'')]],
                ''studentVle'' \<mapsto>
                   [[(''id_site'', Num (Fin 546)), (''id_student'', Num (Fin 11391)),
                     (''sum_click'', Num (Fin 4))]]],
      etl_log = Some [''courses'' \<mapsto> 1, ''vle'' \<mapsto> 1, ''studentInfo'' \<mapsto> 1,
                      ''studentRegistration'' \<mapsto> 1, ''studentAssessment'' \<mapsto> 1,
                      ''studentVle'' \<mapsto> 1]\<rparr>"

section \<open>Lemmas on lists and frames\<close>

lemma index_of_Some: "index_of xs x = Some j \<Longrightarrow> j < length xs \<and> xs ! j = x"
  by (induction xs arbitrary: j) (auto split: if_splits)

lemma index_of_None: "index_of xs x = None \<longleftrightarrow> x \<notin> set xs"
  by (induction xs) auto

lemma index_of_mem: "x \<in> set xs \<Longrightarrow> \<exists>j. index_of xs x = Some j"
  using index_of_None [of xs x] by (cases "index_of xs x") auto

lemma index_of_append_left: "x \<in> set xs \<Longrightarrow> index_of (xs @ ys) x = index_of xs x"
  by (induction xs) auto

lemma index_of_append_right:
  "x \<notin> set xs \<Longrightarrow> index_of (xs @ ys) x = map_option (\<lambda>k. length xs + k) (index_of ys x)"
proof (induction xs)
  case Nil
  show ?case by (cases "index_of ys x") simp_all
next
  case (Cons a xs)
  then show ?case by (cases "index_of ys x") auto
qed

lemma index_of_distinct: "distinct xs \<Longrightarrow> j < length xs \<Longrightarrow> index_of xs (xs ! j) = Some j"
  by (induction xs arbitrary: j) (auto simp: nth_Cons split: nat.splits)

lemma apply_all_ok:
  "\<forall>x \<in> set xs. \<exists>y. f x = Inr y \<Longrightarrow>
     \<exists>ys. apply_all f xs = Inr ys \<and> length ys = length xs \<and>
          (\<forall>i < length xs. f (xs ! i) = Inr (ys ! i))"
proof (induction xs)
  case Nil
  then show ?case by simp
next
  case (Cons x xs)
  then obtain y where y: "f x = Inr y" by auto
  from Cons obtain ys where ys: "apply_all f xs = Inr ys" "length ys = length xs"
    "\<forall>i < length xs. f (xs ! i) = Inr (ys ! i)" by auto
  show ?case using y ys by (auto simp: nth_Cons split: nat.splits)
qed

lemma classify_score_total:
  "(\<forall>s. c = Str s \<longrightarrow> pf s \<noteq> None) \<Longrightarrow> \<exists>y. classify_score pf c = Inr y"
  by (cases c) (auto simp: classify_score_def split: option.splits)

lemma classify_score_cases:
  assumes "classify_score pf c = Inr y"
  shows "(pd_isna c \<longrightarrow> y = NoneV)
       \<and> (\<forall>q. c = Num (Fin q) \<and> q < 40 \<longrightarrow> y = Str ''Fail'')
       \<and> (\<forall>q. c = Num (Fin q) \<and> 40 \<le> q \<longrightarrow> y = Str ''Pass'')"
  using assms by (auto simp: classify_score_def split: if_splits)

lemma concat_chunks_of: "0 < n \<Longrightarrow> concat (chunks_of n xs) = xs"
proof (induction n xs rule: chunks_of.induct)
  case (1 n xs)
  show ?case
  proof (cases "xs = []")
    case True
    then show ?thesis by (simp add: chunks_of.simps)
  next
    case False
    with 1 have "concat (chunks_of n (drop n xs)) = drop n xs" by simp
    with False 1(2) show ?thesis by (subst chunks_of.simps) simp
  qed
qed

lemma concat_csv_chunks: "0 < n \<Longrightarrow> concat (csv_chunks n f) = records f"
  by (simp add: csv_chunks_def concat_chunks_of)

lemma parse_chunk_shape:
  assumes "parse_chunk tn na hdr lead recs = Inr chunk"
  shows "columns chunk = hdr" and "length (rows chunk) = length recs"
    and "\<forall>r \<in> set (rows chunk). length r = length hdr"
  using assms by (auto simp: parse_chunk_def split: if_splits)

lemma parse_chunk_cell:
  assumes "parse_chunk tn na hdr lead recs = Inr chunk" and "r < length recs"
    and "j < length hdr"
  shows "cell_at (rows chunk ! r) j = parse_field tn na recs (recs ! r) (lead + j)"
  using assms by (auto simp: parse_chunk_def cell_at_def split: if_splits)

lemma parse_field_na: "raw_field rec j \<in> set na \<Longrightarrow> parse_field tn na recs rec j = NoneV"
  by (simp add: parse_field_def is_na_def)

lemma parse_field_no_token: "s \<in> set na \<Longrightarrow> parse_field tn na recs rec j \<noteq> Str s"
  by (auto simp: parse_field_def is_na_def split: option.splits)

lemma parse_chunk_no_token:
  assumes "parse_chunk tn na hdr lead recs = Inr chunk" and "row \<in> set (rows chunk)"
    and "v \<in> set row" and "s \<in> set na"
  shows "v \<noteq> Str s"
proof -
  from assms(1)
  have "rows chunk = map (\<lambda>rec. map (\<lambda>j. parse_field tn na recs rec (lead + j))
                                   [0..<length hdr]) recs"
    by (auto simp: parse_chunk_def split: if_splits)
  with assms(2,3) obtain rec j where "v = parse_field tn na recs rec j" by auto
  with parse_field_no_token [OF assms(4)] show ?thesis by simp
qed

lemma parse_chunk_ok:
  assumes "\<forall>rec \<in> set recs. length rec \<le> lead + length hdr"
  shows "\<exists>chunk. parse_chunk tn na hdr lead recs = Inr chunk"
  using assms by (auto simp: parse_chunk_def)

section \<open>Joins and column selection\<close>

lemma apply_all_list_all2:
  "list_all2 (\<lambda>x y. f x = Inr y) xs ys \<Longrightarrow> apply_all f xs = Inr ys"
  by (induction xs ys rule: list_all2_induct) simp_all

lemma select_prefix_indices:
  assumes "distinct cols"
  shows "apply_all (\<lambda>c. case index_of (cols @ extra) c of
                           None \<Rightarrow> Inl (KeyError c)
                         | Some j \<Rightarrow> Inr j) cols
           = Inr [0..<length cols]"
proof (rule apply_all_list_all2)
  show "list_all2 (\<lambda>x y. (case index_of (cols @ extra) x of
                             None \<Rightarrow> Inl (KeyError x)
                           | Some j \<Rightarrow> Inr j) = Inr y) cols [0..<length cols]"
    using assms
    by (simp add: list_all2_conv_all_nth index_of_append_left index_of_distinct)
qed

lemma cells_of_prefix:
  "map (cell_at (l @ e)) [0..<length l] = l"
  by (rule nth_equalityI) (simp_all add: cell_at_def nth_append)

lemma select_columns_prefix:
  assumes "distinct cols" and "\<forall>m \<in> set ms. \<exists>l e. m = l @ e \<and> length l = length cols"
  shows "select_columns \<lparr>columns = cols @ extra, rows = ms\<rparr> cols
           = Inr \<lparr>columns = cols, rows = map (take (length cols)) ms\<rparr>"
proof -
  have "map (\<lambda>r. map (cell_at r) [0..<length cols]) ms = map (take (length cols)) ms"
  proof (rule map_cong [OF refl])
    fix m assume "m \<in> set ms"
    with assms(2) obtain l e where m: "m = l @ e" "length l = length cols" by blast
    then show "map (cell_at m) [0..<length cols] = take (length cols) m"
      using cells_of_prefix [of l e] by simp
  qed
  then show ?thesis
    by (simp add: select_columns_def select_prefix_indices [OF assms(1)])
qed

lemma pd_merge_left_disjoint:
  assumes keys: "set on \<subseteq> set (columns left)" "set on \<subseteq> set (columns right)"
    and dis: "\<forall>c \<in> set (columns left). c \<in> set (columns right) \<longrightarrow> c \<in> set on"
    and dty: "same_key_dtypes left right on"
  shows "pd_merge_left left right on =
           Inr \<lparr>columns = columns left @ filter (\<lambda>c. c \<notin> set on) (columns right),
                rows = concat (map (\<lambda>l.
                  if filter (\<lambda>r. merge_key (columns right) on r
                                    = merge_key (columns left) on l) (rows right) = []
                  then [l @ map (\<lambda>c. NoneV) (filter (\<lambda>c. c \<notin> set on) (columns right))]
                  else map (\<lambda>r. l @ map (named_cell (columns right) r)
                                        (filter (\<lambda>c. c \<notin> set on) (columns right)))
                         (filter (\<lambda>r. merge_key (columns right) on r
                                    = merge_key (columns left) on l) (rows right)))
                  (rows left))\<rparr>"
proof -
  let ?rcols = "filter (\<lambda>c. c \<notin> set on) (columns right)"
  have nf: "find (\<lambda>k. k \<notin> set (columns left) \<or> k \<notin> set (columns right)) on = None"
    using keys by (auto simp: find_None_iff)
  have l: "map (\<lambda>c. if c \<in> set ?rcols then c @ ''_x'' else c) (columns left) = columns left"
    using dis by (intro map_idI) auto
  have r: "map (\<lambda>c. if c \<in> set (columns left) then c @ ''_y'' else c) ?rcols = ?rcols"
    using dis by (intro map_idI) auto
  have d: "(\<not> same_key_dtypes left right on) = False"
    using dty by simp
  show ?thesis
    unfolding pd_merge_left_def nf Let_def option.case l r d if_False ..
qed

lemma impute_joined_row:
  assumes "length l = n" and "jt < n" and "jd < n" and "jl' < length e"
  shows "take n ((\<lambda>m. if cell_at m jt = Str ''Exam'' \<and> pd_isna (cell_at m jd)
                       then m[jd := cell_at m (n + jl')] else m) (l @ e))
           = (if cell_at l jt = Str ''Exam'' \<and> pd_isna (cell_at l jd)
              then l[jd := e ! jl'] else l)"
  using assms by (simp add: cell_at_def nth_append list_update_append)

section \<open>Lemmas on the database and the chunk loop\<close>

lemma commit_chunk_ok:
  "commit_chunk None t i chunk db = (after_commits t i [chunk] db, Inr ())"
  by (simp add: commit_chunk_def engine_begin_def to_sql_def update_etl_log_def
      log_entries_def after_commits_def)

lemma commit_chunk_fail:
  "commit_chunk (Some fault) t i chunk db = (db, Inl DatabaseError)"
  by (cases fault)
     (simp_all add: commit_chunk_def engine_begin_def to_sql_def update_etl_log_def)

lemma setup_etl_log_table_simps [simp]:
  "tables (setup_etl_log_table db) = tables db"
  "stored_rows (setup_etl_log_table db) t = stored_rows db t"
  "log_entries (setup_etl_log_table db) = log_entries db"
  "last_committed (setup_etl_log_table db) t = last_committed db t"
  by (simp_all add: setup_etl_log_table_def stored_rows_def log_entries_def last_committed_def
      split: option.splits)

lemma after_commits_Nil [simp]: "after_commits t final [] db = db"
  by (simp add: after_commits_def)

lemma after_commits_Cons:
  "after_commits t (i + length outs) outs (after_commits t i [out] db)
     = after_commits t (i + length outs) (out # outs) db"
  by (simp add: after_commits_def stored_rows_def log_entries_def)

lemma stored_rows_after_commits:
  "stored_rows (after_commits t final outs db) t'
     = (if t' = t then stored_rows db t @ concat (map named_rows outs) else stored_rows db t')"
  by (simp add: after_commits_def stored_rows_def)

lemma last_committed_after_commits:
  "last_committed (after_commits t final outs db) t'
     = (if t' = t \<and> outs \<noteq> [] then final else last_committed db t')"
  by (simp add: after_commits_def last_committed_def log_entries_def)

lemma process_chunks_skip:
  "i + length cs \<le> start \<Longrightarrow>
     process_chunks ext t tf start i (map Inr cs @ reader) db
       = process_chunks ext t tf start (i + length cs) reader db"
  by (induction cs arbitrary: i) simp_all

lemma chunk_events_upt:
  "chunk_events t (Suc i) @ concat (map (chunk_events t) [Suc (Suc i) ..< Suc (Suc i) + n])
     = concat (map (chunk_events t) [Suc i ..< Suc i + Suc n])"
  by (subst (2) upt_rec) simp

lemma process_chunks_all:
  assumes "start \<le> i"
    and "list_all2 (\<lambda>c out. tf c = Inr out) cs outs"
    and "\<forall>j < length cs. db_fault ext t (Suc (i + j)) = None"
  shows "process_chunks ext t tf start i (map Inr cs) db
           = (after_commits t (i + length cs) outs db,
              concat (map (chunk_events t) [Suc i ..< Suc i + length cs]), Inr ())"
  using assms
proof (induction cs arbitrary: i db outs)
  case Nil
  then show ?case by simp
next
  case (Cons c cs)
  from Cons.prems(2) obtain out outs' where outs: "outs = out # outs'"
    and out: "tf c = Inr out" and rest: "list_all2 (\<lambda>c out. tf c = Inr out) cs outs'"
    by (auto simp: list_all2_Cons1)
  from rest have len: "length outs' = length cs" by (simp add: list_all2_lengthD)
  from Cons.prems(3) have f0: "db_fault ext t (Suc i) = None" by fastforce
  have fr: "\<forall>j < length cs. db_fault ext t (Suc (Suc i + j)) = None"
    using Cons.prems(3) by fastforce
  have le: "start \<le> Suc i" using Cons.prems(1) by simp
  have ih: "process_chunks ext t tf start (Suc i) (map Inr cs) (after_commits t (Suc i) [out] db)
          = (after_commits t (Suc i + length cs) outs' (after_commits t (Suc i) [out] db),
             concat (map (chunk_events t) [Suc (Suc i) ..< Suc (Suc i) + length cs]), Inr ())"
    by (rule Cons.IH [OF le rest fr])
  have ac: "after_commits t (Suc i + length cs) outs' (after_commits t (Suc i) [out] db)
          = after_commits t (i + length (c # cs)) outs db"
    using after_commits_Cons [of t "Suc i" outs' out db] by (simp add: len outs)
  have step: "process_chunks ext t tf start i (map Inr (c # cs)) db
          = (case process_chunks ext t tf start (Suc i) (map Inr cs)
                    (after_commits t (Suc i) [out] db) of
               (db', evs, r) \<Rightarrow> (db', chunk_events t (Suc i) @ evs, r))"
    using Cons.prems(1) out f0 by (simp add: commit_chunk_ok chunk_events_def)
  show ?case
    unfolding step ih ac by (simp only: prod.case chunk_events_upt list.size(4)) simp
qed

lemma commits_simps [simp]:
  "commits [] = []"
  "commits (e # evs) = commit_of e @ commits evs"
  "commits (evs @ evs') = commits evs @ commits evs'"
  by (simp_all add: commits_def)

lemma started_tables_simps [simp]:
  "started_tables [] = []"
  "started_tables (e # evs) = start_of e @ started_tables evs"
  "started_tables (evs @ evs') = started_tables evs @ started_tables evs'"
  by (simp_all add: started_tables_def)

lemma pair_upt:
  "(t, Suc i) # map (Pair t) [Suc (Suc i) ..< Suc (Suc i) + n]
     = map (Pair t) [Suc i ..< Suc i + Suc n]"
  by (subst (2) upt_rec) simp

lemma process_chunks_general:
  assumes "process_chunks ext t tf start i reader db = (db', evs, r)"
  shows "\<exists>outs. db' = after_commits t (max i start + length outs) outs db
           \<and> commits evs = map (Pair t) [Suc (max i start) ..< Suc (max i start) + length outs]
           \<and> (\<forall>j < length outs. \<exists>c. reader ! (max i start - i + j) = Inr c
                                      \<and> tf c = Inr (outs ! j))
           \<and> started_tables evs = []
           \<and> (\<forall>t' e. Failed t' e \<notin> set evs)"
  using assms
proof (induction reader arbitrary: i db db' evs r)
  case Nil
  then show ?case by (intro exI [of _ "[]"]) simp
next
  case (Cons a reader)
  show ?case
  proof (cases a)
    case (Inl e)
    with Cons.prems show ?thesis by (intro exI [of _ "[]"]) simp
  next
    case (Inr c)
    show ?thesis
    proof (cases "Suc i \<le> start")
      case True
      with Cons.prems Inr
      have "process_chunks ext t tf start (Suc i) reader db = (db', evs, r)" by simp
      from Cons.IH [OF this] obtain outs where
        o: "db' = after_commits t (max (Suc i) start + length outs) outs db"
           "commits evs = map (Pair t)
              [Suc (max (Suc i) start) ..< Suc (max (Suc i) start) + length outs]"
           "\<forall>j < length outs. \<exists>c. reader ! (max (Suc i) start - Suc i + j) = Inr c
                                      \<and> tf c = Inr (outs ! j)"
           "started_tables evs = []" "\<forall>t' e. Failed t' e \<notin> set evs"
        by blast
      from True have m: "max (Suc i) start = max i start" by simp
      note o' = o [unfolded m]
      have idx: "(a # reader) ! (max i start - i + j) = reader ! (max i start - Suc i + j)"
        for j
      proof -
        from True have "max i start - i + j = Suc (max i start - Suc i + j)" by simp
        then show ?thesis by simp
      qed
      have 3: "\<forall>j < length outs. \<exists>c. (a # reader) ! (max i start - i + j) = Inr c
                                      \<and> tf c = Inr (outs ! j)"
        using o'(3) by (simp only: idx)
      show ?thesis
        by (rule exI [of _ outs], intro conjI)
           (rule o'(1), rule o'(2), rule 3, rule o'(4), rule o'(5))
    next
      case False
      then have m: "max i start = i" by simp
      show ?thesis
      proof (cases "tf c")
        case (Inl e)
        with Cons.prems Inr False show ?thesis by (intro exI [of _ "[]"]) auto
      next
        case tc: (Inr out)
        show ?thesis
        proof (cases "db_fault ext t (Suc i)")
          case (Some fault)
          with Cons.prems Inr False tc show ?thesis
            by (intro exI [of _ "[]"]) (auto simp: commit_chunk_fail)
        next
          case None
          obtain db2 evs2 r2 where
            rec: "process_chunks ext t tf start (Suc i) reader (after_commits t (Suc i) [out] db)
                    = (db2, evs2, r2)"
            by (metis prod_cases3)
          with Cons.prems Inr False tc None
          have res: "db' = db2" "evs = chunk_events t (Suc i) @ evs2" "r = r2"
            by (simp_all add: commit_chunk_ok chunk_events_def)
          from False have m2: "max (Suc i) start = Suc i" by simp
          from Cons.IH [OF rec] obtain outs where
            o: "db2 = after_commits t (Suc i + length outs) outs (after_commits t (Suc i) [out] db)"
               "commits evs2 = map (Pair t) [Suc (Suc i) ..< Suc (Suc i) + length outs]"
               "\<forall>j < length outs. \<exists>c. reader ! j = Inr c \<and> tf c = Inr (outs ! j)"
               "started_tables evs2 = []" "\<forall>t' e. Failed t' e \<notin> set evs2"
            unfolding m2 by auto
          have 1: "db' = after_commits t (max i start + length (out # outs)) (out # outs) db"
            using o(1) after_commits_Cons [of t "Suc i" outs out db] by (simp add: res m)
          have 2: "commits evs = map (Pair t)
                     [Suc (max i start) ..< Suc (max i start) + length (out # outs)]"
            using pair_upt [of t i "length outs"] by (simp add: res m o(2) chunk_events_def)
          have 3: "\<forall>j < length (out # outs). \<exists>c'. (a # reader) ! (max i start - i + j) = Inr c'
                                      \<and> tf c' = Inr ((out # outs) ! j)"
          proof (intro allI impI)
            fix j assume "j < length (out # outs)"
            then show "\<exists>c'. (a # reader) ! (max i start - i + j) = Inr c'
                           \<and> tf c' = Inr ((out # outs) ! j)"
              using o(3) Inr tc by (cases j) (simp_all add: m)
          qed
          have 4: "started_tables evs = []"
            by (simp add: res o(4) chunk_events_def)
          have 5: "\<forall>t' e. Failed t' e \<notin> set evs"
            using o(5) by (simp add: res chunk_events_def)
          show ?thesis
            by (rule exI [of _ "out # outs"], intro conjI) (rule 1, rule 2, rule 3, rule 4, rule 5)
        qed
      qed
    qed
  qed
qed

lemma committed_tables_simps [simp]:
  "committed_tables [] = []"
  "committed_tables (evs @ evs') = committed_tables evs @ committed_tables evs'"
  by (simp_all add: committed_tables_def)

lemma process_csv_to_db_general:
  assumes run: "process_csv_to_db ext fs filepath t db n tf = (db', evs, r)"
  shows "r = Inr ()
       \<and> started_tables evs = [t]
       \<and> (\<exists>outs. commits evs = map (Pair t) [Suc (last_committed db t)
                                               ..< Suc (last_committed db t) + length outs]
              \<and> stored_rows db' t = stored_rows db t @ concat (map named_rows outs)
              \<and> last_committed db' t = last_committed db t + length outs
              \<and> (\<forall>f reader. open_file fs filepath = Some f
                    \<and> read_csv_chunks (to_numeric ext) missing_values f n = Inr reader
                    \<longrightarrow> (\<forall>j < length outs. \<exists>c. reader ! (last_committed db t + j) = Inr c
                                               \<and> tf c = Inr (outs ! j))))
       \<and> (\<forall>t'. t' \<noteq> t \<longrightarrow> stored_rows db' t' = stored_rows db t'
                          \<and> last_committed db' t' = last_committed db t')
       \<and> (\<forall>e. Failed t e \<in> set evs \<longrightarrow> last evs = Failed t e)"
proof (cases "open_file fs filepath")
  case None
  with run have res: "db' = db" "evs = [Started t, FileMissing t]" "r = Inr ()"
    by (simp_all add: process_csv_to_db_def)
  have "commits evs = map (Pair t) [Suc (last_committed db t)
                                     ..< Suc (last_committed db t) + length ([] :: frame list)]
      \<and> stored_rows db' t = stored_rows db t @ concat (map named_rows [])
      \<and> last_committed db' t = last_committed db t + length ([] :: frame list)
      \<and> (\<forall>f reader. open_file fs filepath = Some f
            \<and> read_csv_chunks (to_numeric ext) missing_values f n = Inr reader
            \<longrightarrow> (\<forall>j < length ([] :: frame list).
                   \<exists>c. reader ! (last_committed db t + j) = Inr c \<and> tf c = Inr ([] ! j)))"
    by (simp add: res)
  then have "\<exists>outs. commits evs = map (Pair t) [Suc (last_committed db t)
                                               ..< Suc (last_committed db t) + length outs]
              \<and> stored_rows db' t = stored_rows db t @ concat (map named_rows outs)
              \<and> last_committed db' t = last_committed db t + length outs
              \<and> (\<forall>f reader. open_file fs filepath = Some f
                    \<and> read_csv_chunks (to_numeric ext) missing_values f n = Inr reader
                    \<longrightarrow> (\<forall>j < length outs. \<exists>c. reader ! (last_committed db t + j) = Inr c
                                               \<and> tf c = Inr (outs ! j)))"
    by (rule exI)
  then show ?thesis by (simp add: res)
next
  case (Some f)
  let ?k = "last_committed db t"
  let ?db0 = "setup_etl_log_table db"
  show ?thesis
  proof (cases "read_csv_chunks (to_numeric ext) missing_values f n")
    case (Inl e)
    with run Some
    have res: "db' = ?db0" "evs = [Started t, CheckpointRead t, Failed t e]" "r = Inr ()"
      by (simp_all add: process_csv_to_db_def get_last_processed_chunk_def)
    have "commits evs = map (Pair t) [Suc ?k ..< Suc ?k + length ([] :: frame list)]
        \<and> stored_rows db' t = stored_rows db t @ concat (map named_rows [])
        \<and> last_committed db' t = ?k + length ([] :: frame list)
        \<and> (\<forall>f reader. open_file fs filepath = Some f
              \<and> read_csv_chunks (to_numeric ext) missing_values f n = Inr reader
              \<longrightarrow> (\<forall>j < length ([] :: frame list).
                     \<exists>c. reader ! (?k + j) = Inr c \<and> tf c = Inr ([] ! j)))"
      by (simp add: res)
    then have "\<exists>outs. commits evs = map (Pair t) [Suc ?k ..< Suc ?k + length outs]
              \<and> stored_rows db' t = stored_rows db t @ concat (map named_rows outs)
              \<and> last_committed db' t = ?k + length outs
              \<and> (\<forall>f reader. open_file fs filepath = Some f
                    \<and> read_csv_chunks (to_numeric ext) missing_values f n = Inr reader
                    \<longrightarrow> (\<forall>j < length outs. \<exists>c. reader ! (?k + j) = Inr c
                                               \<and> tf c = Inr (outs ! j)))"
      by (rule exI)
    then show ?thesis by (simp add: res)
  next
    case (Inr reader)
    obtain db2 evs2 r2 where
      loop: "process_chunks ext t tf ?k 0 reader ?db0 = (db2, evs2, r2)"
      by (metis prod_cases3)
    from process_chunks_general [OF loop] obtain outs where
      o: "db2 = after_commits t (?k + length outs) outs ?db0"
         "commits evs2 = map (Pair t) [Suc ?k ..< Suc ?k + length outs]"
         "\<forall>j < length outs. \<exists>c. reader ! (?k + j) = Inr c \<and> tf c = Inr (outs ! j)"
         "started_tables evs2 = []" "\<forall>t' e. Failed t' e \<notin> set evs2"
      by auto
    from run Some Inr loop have res: "db' = db2" "r = Inr ()"
      and evs: "evs = Started t # CheckpointRead t # evs2 @ [Completed t]
                \<or> (\<exists>e. evs = Started t # CheckpointRead t # evs2 @ [Failed t e])"
      by (auto simp: process_csv_to_db_def get_last_processed_chunk_def split: sum.splits)
    have 1: "started_tables evs = [t]"
      using evs o(4) by auto
    have c: "commits evs = map (Pair t) [Suc ?k ..< Suc ?k + length outs]"
      using evs o(2) by auto
    have s: "stored_rows db' t = stored_rows db t @ concat (map named_rows outs)"
      by (simp add: res o(1) stored_rows_after_commits)
    have l: "last_committed db' t = ?k + length outs"
      by (simp add: res o(1) last_committed_after_commits)
    have tr: "\<forall>f' reader'. open_file fs filepath = Some f'
                \<and> read_csv_chunks (to_numeric ext) missing_values f' n = Inr reader'
                \<longrightarrow> (\<forall>j < length outs. \<exists>c. reader' ! (?k + j) = Inr c \<and> tf c = Inr (outs ! j))"
      using o(3) Some Inr by simp
    have 3: "\<forall>t'. t' \<noteq> t \<longrightarrow> stored_rows db' t' = stored_rows db t'
                          \<and> last_committed db' t' = last_committed db t'"
      by (simp add: res o(1) stored_rows_after_commits last_committed_after_commits)
    have 4: "\<forall>e. Failed t e \<in> set evs \<longrightarrow> last evs = Failed t e"
      using evs o(5) by auto
    have 2: "\<exists>outs. commits evs = map (Pair t) [Suc ?k ..< Suc ?k + length outs]
              \<and> stored_rows db' t = stored_rows db t @ concat (map named_rows outs)
              \<and> last_committed db' t = ?k + length outs
              \<and> (\<forall>f reader. open_file fs filepath = Some f
                    \<and> read_csv_chunks (to_numeric ext) missing_values f n = Inr reader
                    \<longrightarrow> (\<forall>j < length outs. \<exists>c. reader ! (?k + j) = Inr c
                                               \<and> tf c = Inr (outs ! j)))"
      by (rule exI [of _ outs], intro conjI) (rule c, rule s, rule l, rule tr)
    show ?thesis
      by (intro conjI) (rule res(2), rule 1, rule 2, rule 3, rule 4)
  qed
qed

lemma process_csv_to_db_committed_tables:
  assumes "process_csv_to_db ext fs filepath t db n tf = (db', evs, r)"
  shows "set (committed_tables evs) \<subseteq> {t}"
proof -
  from process_csv_to_db_general [OF assms] obtain outs :: "frame list" where
    "commits evs = map (Pair t) [Suc (last_committed db t)
                                  ..< Suc (last_committed db t) + length outs]"
    by blast
  then show ?thesis by (auto simp: committed_tables_def)
qed

lemma sorted_map_const: "set xs \<subseteq> {t} \<Longrightarrow> sorted (map (f :: 'a \<Rightarrow> nat) xs)"
  by (induction xs) auto

lemma process_tables_general:
  assumes "process_tables ext fs cfg plan ts db = (db', evs, r)"
    and "\<forall>t \<in> set ts. plan t \<noteq> None"
  shows "r = Inr () \<and> started_tables evs = ts \<and> set (committed_tables evs) \<subseteq> set ts
       \<and> (sorted (map table_rank ts) \<longrightarrow> sorted (map table_rank (committed_tables evs)))"
  using assms
proof (induction ts arbitrary: db db' evs r)
  case Nil
  then show ?case by simp
next
  case (Cons t ts)
  from Cons.prems(2) obtain func where func: "plan t = Some func" by auto
  obtain db1 evs1 r1 where
    one: "process_csv_to_db ext fs (os_path_join (etl_data_path cfg) (t @ ''.csv'')) t db
            (etl_batch_size cfg) func = (db1, evs1, r1)"
    by (metis prod_cases3)
  from process_csv_to_db_general [OF one]
  have r1: "r1 = Inr ()" and s1: "started_tables evs1 = [t]" by blast+
  have c1: "set (committed_tables evs1) \<subseteq> {t}"
    by (rule process_csv_to_db_committed_tables [OF one])
  obtain db2 evs2 r2 where
    rest: "process_tables ext fs cfg plan ts db1 = (db2, evs2, r2)"
    by (metis prod_cases3)
  from Cons.prems(2) have "\<forall>t \<in> set ts. plan t \<noteq> None" by simp
  from Cons.IH [OF rest this]
  have ih: "r2 = Inr ()" "started_tables evs2 = ts" "set (committed_tables evs2) \<subseteq> set ts"
    "sorted (map table_rank ts) \<longrightarrow> sorted (map table_rank (committed_tables evs2))"
    by blast+
  from Cons.prems(1) func one r1 rest
  have res: "db' = db2" "evs = evs1 @ evs2" "r = r2" by simp_all
  have srt: "sorted (map table_rank (committed_tables evs))"
    if "sorted (map table_rank (t # ts))"
  proof -
    from that have a: "sorted (map table_rank ts)" and b: "\<forall>x \<in> set ts. table_rank t \<le> table_rank x"
      by simp_all
    have "sorted (map table_rank (committed_tables evs1))"
      using c1 by (rule sorted_map_const)
    moreover have "sorted (map table_rank (committed_tables evs2))" using a ih(4) by simp
    moreover have "\<forall>x \<in> set (committed_tables evs1). \<forall>y \<in> set (committed_tables evs2).
                     table_rank x \<le> table_rank y"
      using c1 ih(3) b by auto
    ultimately show ?thesis by (simp add: res sorted_append)
  qed
  have 1: "r = Inr ()" by (simp add: res ih(1))
  have 2: "started_tables evs = t # ts" by (simp add: res s1 ih(2))
  have 3: "set (committed_tables evs) \<subseteq> set (t # ts)"
    using c1 ih(3) by (auto simp: res)
  have 4: "sorted (map table_rank (t # ts)) \<longrightarrow> sorted (map table_rank (committed_tables evs))"
    using srt by blast
  show ?case
    by (intro conjI) (rule 1, rule 2, rule 3, rule 4)
qed

lemma committed_tables_Cons [simp]:
  "committed_tables (e # evs) = map fst (commit_of e) @ committed_tables evs"
  by (simp add: committed_tables_def)

lemma is_valid_fold:
  "is_valid (fold (\<lambda>(name, f) s.
                  case read_csv tn [] f of
                    Inl e \<Rightarrow> s\<lparr>errors := errors s @ [name]\<rparr>
                  | Inr df \<Rightarrow>
                      s\<lparr>files := files s @ [(name, length (rows df), length (columns df))],
                        total_records := total_records s + length (rows df)\<rparr>) xs s)
     = is_valid s"
proof (induction xs arbitrary: s)
  case Nil
  show ?case by simp
next
  case (Cons x xs)
  obtain name f where x: "x = (name, f)" by (cases x)
  show ?case
    unfolding x by (cases "read_csv tn [] f") (simp_all add: Cons.IH)
qed

lemma is_valid_summary: "is_valid (get_data_source_summary ext fs p) \<longleftrightarrow> fs p \<noteq> None"
  by (cases "fs p") (simp_all add: get_data_source_summary_def is_valid_fold)

lemma etl_plan_defined: "t \<in> set execution_order \<Longrightarrow> etl_plan ext cdf t \<noteq> None"
  by (auto simp: execution_order_def etl_plan_def)

lemma available_tables_subset: "set (available_tables fs p) \<subseteq> set execution_order"
  by (auto simp: available_tables_def)

lemma sorted_execution_order: "sorted (map table_rank execution_order)"
  by (simp add: table_rank_def execution_order_def)

lemma sorted_available_tables: "sorted (map table_rank (available_tables fs p))"
  unfolding available_tables_def by (rule sorted_filter [OF sorted_execution_order])

lemma run_full_etl_cases:
  assumes "run_full_etl ext fs db cfg clear = (db', evs, r)"
  shows "(fs (etl_data_path cfg) = None \<and> db' = db \<and> evs = [SourceInvalid (etl_data_path cfg)]
            \<and> r = Inr ())
       \<or> (fs (etl_data_path cfg) \<noteq> None
            \<and> open_file fs (os_path_join (etl_data_path cfg) ''courses.csv'') = None
            \<and> db' = setup_etl_log_table (if clear then clear_data_tables db else db)
            \<and> evs = (if clear then [ResetCall] else []) @ [CoursesMissing (etl_data_path cfg)]
            \<and> r = Inr ())
       \<or> (\<exists>cf e. open_file fs (os_path_join (etl_data_path cfg) ''courses.csv'') = Some cf
            \<and> read_csv (to_numeric ext) [] cf = Inl e
            \<and> db' = setup_etl_log_table (if clear then clear_data_tables db else db)
            \<and> evs = (if clear then [ResetCall] else []) \<and> r = Inl e)
       \<or> (\<exists>cf cdf evs' r'. open_file fs (os_path_join (etl_data_path cfg) ''courses.csv'') = Some cf
            \<and> read_csv (to_numeric ext) [] cf = Inr cdf
            \<and> process_tables ext fs cfg (etl_plan ext cdf)
                  (available_tables fs (etl_data_path cfg))
                  (setup_etl_log_table (if clear then clear_data_tables db else db))
                = (db', evs', r')
            \<and> r = r'
            \<and> evs = (if clear then [ResetCall] else []) @ evs'
                      @ (case r' of Inl e \<Rightarrow> [] | Inr u \<Rightarrow> [SourceDone (etl_data_path cfg)]))"
proof (cases "fs (etl_data_path cfg)")
  case None
  with assms show ?thesis
    by (simp add: run_full_etl_def is_valid_summary Let_def)
next
  case (Some dir)
  show ?thesis
  proof (cases "open_file fs (os_path_join (etl_data_path cfg) ''courses.csv'')")
    case None
    with assms Some show ?thesis
      by (auto simp: run_full_etl_def is_valid_summary Let_def)
  next
    case cf: (Some cf)
    show ?thesis
    proof (cases "read_csv (to_numeric ext) [] cf")
      case (Inl e)
      with assms Some cf show ?thesis
        by (auto simp: run_full_etl_def is_valid_summary Let_def)
    next
      case (Inr cdf)
      obtain db3 evs3 r3 where
        pt: "process_tables ext fs cfg (etl_plan ext cdf)
               (available_tables fs (etl_data_path cfg))
               (setup_etl_log_table (if clear then clear_data_tables db else db))
             = (db3, evs3, r3)"
        by (metis prod_cases3)
      with assms Some cf Inr
      have "db' = db3 \<and> r = r3
          \<and> evs = (if clear then [ResetCall] else []) @ evs3
                    @ (case r3 of Inl e \<Rightarrow> [] | Inr u \<Rightarrow> [SourceDone (etl_data_path cfg)])"
        by (cases r3) (auto simp: run_full_etl_def is_valid_summary Let_def)
      with cf Inr pt show ?thesis by auto
    qed
  qed
qed


lemma run_full_etl_started:
  assumes cf: "open_file fs (os_path_join (etl_data_path cfg) ''courses.csv'') = Some cf"
    and cdf: "read_csv (to_numeric ext) [] cf = Inr cdf"
  shows "\<exists>db' evs. run_full_etl ext fs db cfg clear = (db', evs, Inr ())
           \<and> started_tables evs = available_tables fs (etl_data_path cfg)"
proof -
  obtain db' evs r where run: "run_full_etl ext fs db cfg clear = (db', evs, r)"
    by (metis prod_cases3)
  have dir: "fs (etl_data_path cfg) \<noteq> None"
    using cf by (auto simp: open_file_def os_path_join_def split: option.splits)
  from run_full_etl_cases [OF run] cf cdf dir obtain evs' r' where
    pt: "process_tables ext fs cfg (etl_plan ext cdf)
           (available_tables fs (etl_data_path cfg))
           (setup_etl_log_table (if clear then clear_data_tables db else db))
         = (db', evs', r')"
    and r: "r = r'"
    and evs: "evs = (if clear then [ResetCall] else []) @ evs'
                @ (case r' of Inl e \<Rightarrow> [] | Inr u \<Rightarrow> [SourceDone (etl_data_path cfg)])"
    by auto
  have "\<forall>t \<in> set (available_tables fs (etl_data_path cfg)). etl_plan ext cdf t \<noteq> None"
    using available_tables_subset etl_plan_defined by blast
  from process_tables_general [OF pt this]
  have r': "r' = Inr ()" and st: "started_tables evs' = available_tables fs (etl_data_path cfg)"
    by blast+
  have "started_tables evs = available_tables fs (etl_data_path cfg)"
    by (simp add: evs r' st)
  with run r r' show ?thesis by simp
qed

section \<open>The chunk loop on a readable prefix\<close>

lemma process_chunks_append:
  assumes "start \<le> i"
    and "list_all2 (\<lambda>c out. tf c = Inr out) cs outs"
    and "\<forall>j < length cs. db_fault ext t (Suc (i + j)) = None"
  shows "process_chunks ext t tf start i (map Inr cs @ rest) db
           = (case process_chunks ext t tf start (i + length cs) rest
                     (after_commits t (i + length cs) outs db) of
                (db', evs, r) \<Rightarrow>
                  (db', concat (map (chunk_events t) [Suc i ..< Suc i + length cs]) @ evs, r))"
  using assms
proof (induction cs arbitrary: i db outs)
  case Nil
  then show ?case by (simp split: prod.splits)
next
  case (Cons c cs)
  from Cons.prems(2) obtain out outs' where outs: "outs = out # outs'"
    and out: "tf c = Inr out" and rest: "list_all2 (\<lambda>c out. tf c = Inr out) cs outs'"
    by (auto simp: list_all2_Cons1)
  from rest have len: "length outs' = length cs" by (simp add: list_all2_lengthD)
  from Cons.prems(3) have f0: "db_fault ext t (Suc i) = None" by fastforce
  have fr: "\<forall>j < length cs. db_fault ext t (Suc (Suc i + j)) = None"
    using Cons.prems(3) by fastforce
  have le: "start \<le> Suc i" using Cons.prems(1) by simp
  let ?db1 = "after_commits t (Suc i) [out] db"
  have ih: "process_chunks ext t tf start (Suc i) (map Inr cs @ rest) ?db1
          = (case process_chunks ext t tf start (Suc i + length cs) rest
                    (after_commits t (Suc i + length cs) outs' ?db1) of
               (db', evs, r) \<Rightarrow>
                 (db', concat (map (chunk_events t) [Suc (Suc i) ..< Suc (Suc i) + length cs])
                         @ evs, r))"
    by (rule Cons.IH [OF le rest fr])
  have ac: "after_commits t (Suc i + length cs) outs' ?db1
          = after_commits t (i + length (c # cs)) outs db"
    using after_commits_Cons [of t "Suc i" outs' out db] by (simp add: len outs)
  have ix: "Suc i + length cs = i + length (c # cs)" by simp
  have ac': "after_commits t (i + length (c # cs)) outs' ?db1
           = after_commits t (i + length (c # cs)) outs db"
    using ac unfolding ix .
  have step: "process_chunks ext t tf start i (map Inr (c # cs) @ rest) db
          = (case process_chunks ext t tf start (Suc i) (map Inr cs @ rest) ?db1 of
               (db', evs, r) \<Rightarrow> (db', chunk_events t (Suc i) @ evs, r))"
    using Cons.prems(1) out f0 by (simp add: commit_chunk_ok chunk_events_def)
  obtain db2 evs2 r2 where p: "process_chunks ext t tf start (i + length (c # cs)) rest
                    (after_commits t (i + length (c # cs)) outs db) = (db2, evs2, r2)"
    by (metis prod_cases3)
  have ev: "chunk_events t (Suc i)
              @ concat (map (chunk_events t) [Suc (Suc i) ..< Suc (Suc i) + length cs]) @ evs2
          = concat (map (chunk_events t) [Suc i ..< Suc i + length (c # cs)]) @ evs2"
    using chunk_events_upt [of t i "length cs"] by simp
  show ?case
    unfolding step ih ix ac' p prod.case ev ..
qed

lemma process_chunks_prefix:
  assumes tf: "list_all2 (\<lambda>c out. tf c = Inr out) (drop k good) outs"
    and nofault: "\<forall>j. k < j \<and> j \<le> length good \<longrightarrow> db_fault ext t j = None"
  shows "process_chunks ext t tf k 0 (map Inr good @ rest) db
           = (case process_chunks ext t tf k (length good) rest
                     (after_commits t (max k (length good)) outs db) of
                (db', evs, r) \<Rightarrow>
                  (db', concat (map (chunk_events t) [Suc k ..< Suc (length good)]) @ evs, r))"
proof (cases "k \<le> length good")
  case True
  have split: "map Inr good @ rest
                 = map Inr (take k good) @ (map Inr (drop k good) @ rest)"
    by (simp flip: map_append)
  have lt: "length (take k good) = k" using True by simp
  have skip: "process_chunks ext t tf k 0 (map Inr good @ rest) db
            = process_chunks ext t tf k k (map Inr (drop k good) @ rest) db"
    unfolding split using process_chunks_skip [of 0 "take k good" k] lt by simp
  have f: "\<forall>j < length (drop k good). db_fault ext t (Suc (k + j)) = None"
    using nofault by simp
  have ix: "k + length (drop k good) = length good" using True by simp
  have mx: "max k (length good) = length good" using True by simp
  have "process_chunks ext t tf k k (map Inr (drop k good) @ rest) db
          = (case process_chunks ext t tf k (k + length (drop k good)) rest
                    (after_commits t (k + length (drop k good)) outs db) of
               (db', evs, r) \<Rightarrow>
                 (db', concat (map (chunk_events t) [Suc k ..< Suc k + length (drop k good)])
                         @ evs, r))"
    by (rule process_chunks_append [OF le_refl tf f])
  then show ?thesis
    unfolding skip ix mx using True by simp
next
  case False
  then have e: "drop k good = []" "outs = []" using tf by simp_all
  have skip: "process_chunks ext t tf k 0 (map Inr good @ rest) db
            = process_chunks ext t tf k (length good) rest db"
    using process_chunks_skip [of 0 good k] False by simp
  show ?thesis
    unfolding skip using False by (simp add: e split: prod.splits)
qed

lemma process_csv_to_db_loads:
  assumes fl: "open_file fs filepath = Some f"
    and rd: "read_csv_chunks (to_numeric ext) missing_values f n = Inr (map Inr chunks)"
    and tf: "list_all2 (\<lambda>c out. tf c = Inr out) (drop (last_committed db t) chunks) outs"
    and nofault: "\<forall>j. last_committed db t < j \<and> j \<le> length chunks
                      \<longrightarrow> db_fault ext t j = None"
  shows "process_csv_to_db ext fs filepath t db n tf
           = (after_commits t (max (last_committed db t) (length chunks)) outs
                (setup_etl_log_table db),
              Started t # CheckpointRead t
                # concat (map (chunk_events t)
                           [Suc (last_committed db t) ..< Suc (length chunks)])
                @ [Completed t],
              Inr ())"
proof -
  have "process_chunks ext t tf (last_committed db t) 0 (map Inr chunks)
          (setup_etl_log_table db)
        = (after_commits t (max (last_committed db t) (length chunks)) outs
             (setup_etl_log_table db),
           concat (map (chunk_events t) [Suc (last_committed db t) ..< Suc (length chunks)]),
           Inr ())"
    using process_chunks_prefix [OF tf nofault, of "[]" "setup_etl_log_table db"] by simp
  then show ?thesis
    by (simp add: process_csv_to_db_def fl get_last_processed_chunk_def rd)
qed

section \<open>A load that fails, and the loads of a run\<close>

lemma process_csv_to_db_failure:
  assumes fl: "open_file fs filepath = Some f"
    and rd: "read_csv_chunks (to_numeric ext) missing_values f n
               = Inr (map Inr good @ x # rest)"
    and tf: "list_all2 (\<lambda>c out. tf c = Inr out) (drop (last_committed db t) good) outs"
    and nofault: "\<forall>j. last_committed db t < j \<and> j \<le> length good
                      \<longrightarrow> db_fault ext t j = None"
    and fails: "(x = Inl e \<and> fevs = [])
       \<or> (last_committed db t \<le> length good \<and> (\<exists>c. x = Inr c \<and> tf c = Inl e)
            \<and> fevs = [TransformCall t (Suc (length good))])
       \<or> (last_committed db t \<le> length good
            \<and> (\<exists>c out fault. x = Inr c \<and> tf c = Inr out
                   \<and> db_fault ext t (Suc (length good)) = Some fault)
            \<and> e = DatabaseError
            \<and> fevs = [TransformCall t (Suc (length good)), CommitCall t (Suc (length good))])"
  shows "\<exists>db'. process_csv_to_db ext fs filepath t db n tf
                 = (db',
                    Started t # CheckpointRead t
                      # concat (map (chunk_events t)
                                 [Suc (last_committed db t) ..< Suc (length good)])
                      @ fevs @ [Failed t e],
                    Inr ())
             \<and> stored_rows db' t = stored_rows db t @ concat (map named_rows outs)
             \<and> last_committed db' t = max (last_committed db t) (length good)
             \<and> (\<forall>t'. t' \<noteq> t \<longrightarrow> stored_rows db' t' = stored_rows db t'
                                \<and> last_committed db' t' = last_committed db t')"
proof -
  let ?k = "last_committed db t"
  let ?db0 = "setup_etl_log_table db"
  let ?db1 = "after_commits t (max ?k (length good)) outs ?db0"
  have at_x: "process_chunks ext t tf ?k (length good) (x # rest) ?db1 = (?db1, fevs, Inl e)"
    using fails
  proof (elim disjE conjE exE)
    assume "x = Inl e" "fevs = []"
    then show ?thesis by simp
  next
    fix c
    assume "?k \<le> length good" "x = Inr c" "tf c = Inl e"
      "fevs = [TransformCall t (Suc (length good))]"
    then show ?thesis by simp
  next
    fix c out fault
    assume "?k \<le> length good" "x = Inr c" "tf c = Inr out"
      "db_fault ext t (Suc (length good)) = Some fault" "e = DatabaseError"
      "fevs = [TransformCall t (Suc (length good)), CommitCall t (Suc (length good))]"
    then show ?thesis by (simp add: commit_chunk_fail)
  qed
  have loop: "process_chunks ext t tf ?k 0 (map Inr good @ x # rest) ?db0
            = (?db1, concat (map (chunk_events t) [Suc ?k ..< Suc (length good)]) @ fevs, Inl e)"
    unfolding process_chunks_prefix [OF tf nofault] at_x by simp
  have run: "process_csv_to_db ext fs filepath t db n tf
               = (?db1,
                  Started t # CheckpointRead t
                    # concat (map (chunk_events t) [Suc ?k ..< Suc (length good)])
                    @ fevs @ [Failed t e],
                  Inr ())"
    by (simp add: process_csv_to_db_def fl get_last_processed_chunk_def rd loop)
  have len: "length outs = length good - ?k"
    using tf by (simp add: list_all2_lengthD [symmetric])
  have rows: "stored_rows ?db1 t = stored_rows db t @ concat (map named_rows outs)"
    by (simp add: stored_rows_after_commits)
  have ck: "last_committed ?db1 t = max ?k (length good)"
    using len by (auto simp: last_committed_after_commits max_def)
  have others: "\<forall>t'. t' \<noteq> t \<longrightarrow> stored_rows ?db1 t' = stored_rows db t'
                                \<and> last_committed ?db1 t' = last_committed db t'"
    by (simp add: stored_rows_after_commits last_committed_after_commits)
  show ?thesis
    by (rule exI [of _ ?db1], intro conjI) (rule run, rule rows, rule ck, rule others)
qed

lemma process_csv_to_db_returns:
  "\<exists>db' evs. process_csv_to_db ext fs filepath t db n tf = (db', evs, Inr ())"
proof -
  obtain db' evs r where run: "process_csv_to_db ext fs filepath t db n tf = (db', evs, r)"
    by (metis prod_cases3)
  from process_csv_to_db_general [OF run] have "r = Inr ()" by (rule conjunct1)
  with run show ?thesis by blast
qed

lemma process_tables_sequence:
  assumes "\<forall>t \<in> set ts. plan t \<noteq> None"
  shows "\<exists>dbs trs. length dbs = Suc (length ts) \<and> length trs = length ts \<and> dbs ! 0 = db
           \<and> (\<forall>p < length ts. \<exists>func. plan (ts ! p) = Some func
                 \<and> process_csv_to_db ext fs (os_path_join (etl_data_path cfg) (ts ! p @ ''.csv''))
                      (ts ! p) (dbs ! p) (etl_batch_size cfg) func
                    = (dbs ! Suc p, trs ! p, Inr ()))
           \<and> process_tables ext fs cfg plan ts db = (dbs ! length ts, concat trs, Inr ())"
  using assms
proof (induction ts arbitrary: db)
  case Nil
  show ?case
    by (rule exI [of _ "[db]"], rule exI [of _ "[]"]) simp
next
  case (Cons t ts)
  from Cons.prems obtain func where func: "plan t = Some func" by auto
  obtain db1 ev1 where
    hd: "process_csv_to_db ext fs (os_path_join (etl_data_path cfg) (t @ ''.csv'')) t db
           (etl_batch_size cfg) func = (db1, ev1, Inr ())"
    using process_csv_to_db_returns by blast
  from Cons.prems have "\<forall>t \<in> set ts. plan t \<noteq> None" by simp
  from Cons.IH [OF this, where db = db1] obtain dbs trs where
    l1: "length dbs = Suc (length ts)" and l2: "length trs = length ts"
    and d0: "dbs ! 0 = db1"
    and each: "\<forall>p < length ts. \<exists>func. plan (ts ! p) = Some func
                 \<and> process_csv_to_db ext fs (os_path_join (etl_data_path cfg) (ts ! p @ ''.csv''))
                      (ts ! p) (dbs ! p) (etl_batch_size cfg) func
                    = (dbs ! Suc p, trs ! p, Inr ())"
    and tl: "process_tables ext fs cfg plan ts db1 = (dbs ! length ts, concat trs, Inr ())"
    by (elim exE conjE)
  have e': "\<forall>p < length (t # ts). \<exists>func. plan ((t # ts) ! p) = Some func
                 \<and> process_csv_to_db ext fs
                      (os_path_join (etl_data_path cfg) ((t # ts) ! p @ ''.csv''))
                      ((t # ts) ! p) ((db # dbs) ! p) (etl_batch_size cfg) func
                    = ((db # dbs) ! Suc p, (ev1 # trs) ! p, Inr ())"
  proof (intro allI impI)
    fix p assume p: "p < length (t # ts)"
    show "\<exists>func. plan ((t # ts) ! p) = Some func
                 \<and> process_csv_to_db ext fs
                      (os_path_join (etl_data_path cfg) ((t # ts) ! p @ ''.csv''))
                      ((t # ts) ! p) ((db # dbs) ! p) (etl_batch_size cfg) func
                    = ((db # dbs) ! Suc p, (ev1 # trs) ! p, Inr ())"
    proof (cases p)
      case 0
      show ?thesis
        unfolding 0 by (rule exI [of _ func]) (simp add: func hd d0)
    next
      case (Suc q)
      with p have "q < length ts" by simp
      with each show ?thesis unfolding Suc by simp
    qed
  qed
  have run: "process_tables ext fs cfg plan (t # ts) db
               = ((db # dbs) ! length (t # ts), concat (ev1 # trs), Inr ())"
    by (simp add: func hd tl)
  show ?case
    by (rule exI [of _ "db # dbs"], rule exI [of _ "ev1 # trs"], intro conjI)
       (simp add: l1, simp add: l2, simp, rule e', rule run)
qed

lemma run_full_etl_sequence:
  assumes cf: "open_file fs (os_path_join (etl_data_path cfg) ''courses.csv'') = Some cf"
    and cdf: "read_csv (to_numeric ext) [] cf = Inr cdf"
  shows "\<exists>dbs trs.
           length dbs = Suc (length (available_tables fs (etl_data_path cfg)))
           \<and> length trs = length (available_tables fs (etl_data_path cfg))
           \<and> dbs ! 0 = setup_etl_log_table (if clear then clear_data_tables db else db)
           \<and> (\<forall>p < length (available_tables fs (etl_data_path cfg)).
                \<exists>func. etl_plan ext cdf (available_tables fs (etl_data_path cfg) ! p) = Some func
                 \<and> process_csv_to_db ext fs
                      (os_path_join (etl_data_path cfg)
                         (available_tables fs (etl_data_path cfg) ! p @ ''.csv''))
                      (available_tables fs (etl_data_path cfg) ! p) (dbs ! p)
                      (etl_batch_size cfg) func
                    = (dbs ! Suc p, trs ! p, Inr ()))
           \<and> run_full_etl ext fs db cfg clear
                = (dbs ! length (available_tables fs (etl_data_path cfg)),
                   (if clear then [ResetCall] else []) @ concat trs
                     @ [SourceDone (etl_data_path cfg)],
                   Inr ())"
proof -
  let ?ts = "available_tables fs (etl_data_path cfg)"
  let ?db0 = "setup_etl_log_table (if clear then clear_data_tables db else db)"
  have pl: "\<forall>t \<in> set ?ts. etl_plan ext cdf t \<noteq> None"
    using available_tables_subset etl_plan_defined by blast
  from process_tables_sequence [OF pl, where db = ?db0 and fs = fs and cfg = cfg and ext = ext]
  obtain dbs trs where
    l1: "length dbs = Suc (length ?ts)" and l2: "length trs = length ?ts"
    and d0: "dbs ! 0 = ?db0"
    and each: "\<forall>p < length ?ts. \<exists>func. etl_plan ext cdf (?ts ! p) = Some func
                 \<and> process_csv_to_db ext fs (os_path_join (etl_data_path cfg) (?ts ! p @ ''.csv''))
                      (?ts ! p) (dbs ! p) (etl_batch_size cfg) func
                    = (dbs ! Suc p, trs ! p, Inr ())"
    and tl: "process_tables ext fs cfg (etl_plan ext cdf) ?ts ?db0
               = (dbs ! length ?ts, concat trs, Inr ())"
    by (elim exE conjE)
  from cf have dir: "fs (etl_data_path cfg) \<noteq> None"
    by (auto simp: open_file_def os_path_join_def split: option.splits)
  have run: "run_full_etl ext fs db cfg clear
                = (dbs ! length ?ts,
                   (if clear then [ResetCall] else []) @ concat trs
                     @ [SourceDone (etl_data_path cfg)],
                   Inr ())"
    using dir by (simp add: run_full_etl_def is_valid_summary Let_def cf cdf tl)
  show ?thesis
    by (rule exI [of _ dbs], rule exI [of _ trs], intro conjI)
       (rule l1, rule l2, rule d0, rule each, rule run)
qed

section \<open>The example inputs, evaluated\<close>

lemma decimal_ex: "decimal ''11391'' = Some (Fin 11391)" "decimal ''?'' = None" "decimal ''75'' = Some (Fin 75)"
  by (simp_all add: decimal_def)

lemma example_csv_chunks:
  "csv_chunks (nat 2) example_file
     = [[[''11391'', ''?''], [''28400'', '''']], [[''31604'', ''75'']]]"
  by (simp add: csv_chunks_def example_file_def chunks_of.simps)

lemma example_parse1:
  "parse_chunk decimal missing_values [''id_student'', ''score''] 0
     [[''11391'', ''?''], [''28400'', '''']] = Inr example_chunk1"
  by (simp add: parse_chunk_def parse_field_def is_na_def numeric_column_def raw_field_def
      missing_values_def default_na_values_def decimal_def example_chunk1_def)

lemma example_parse2:
  "parse_chunk decimal missing_values [''id_student'', ''score''] 0 [[''31604'', ''75'']]
     = Inr example_chunk2"
  by (simp add: parse_chunk_def parse_field_def is_na_def numeric_column_def raw_field_def
      missing_values_def default_na_values_def decimal_def example_chunk2_def)

lemma example_file_chunks:
  "read_csv_chunks decimal missing_values example_file 2
     = Inr [Inr example_chunk1, Inr example_chunk2]"
  using example_csv_chunks example_parse1 example_parse2
  by (simp add: read_csv_chunks_def implicit_index_def example_file_def)

lemma example_file_raw:
  "raw_field (csv_chunks (nat 2) example_file ! 0 ! 0) 1 = ''?''"
  "raw_field (csv_chunks (nat 2) example_file ! 0 ! 1) 1 = []"
  using example_csv_chunks by (simp_all add: raw_field_def)

lemma example_transforms:
  "transform_student_assessment decimal example_chunk1 = Inr example_out1"
  "transform_student_assessment decimal example_chunk2 = Inr example_out2"
  by (simp_all add: transform_student_assessment_def example_chunk1_def example_chunk2_def
      example_out1_def example_out2_def cell_at_def classify_score_def set_column_def)

lemma decimal_fields:
  "decimal ''AAA'' = None" "decimal ''2013J'' = None" "decimal ''268'' = Some (Fin 268)"
  "decimal ''BBB'' = None" "decimal ''2014J'' = None" "decimal ''269'' = Some (Fin 269)"
  "decimal ''28400'' = Some (Fin 28400)"
  by (simp_all add: decimal_def)

lemmas eval_reader =
  read_csv_chunks_def read_csv_def csv_chunks_def chunks_of.simps parse_chunk_def
  implicit_index_def
  parse_field_def is_na_def numeric_column_def raw_field_def missing_values_def
  default_na_values_def decimal_fields decimal_ex

lemmas eval_fs =
  open_file_def os_path_join_def os_path_exists_def two_sources_def source_a_def source_b_def
  courses_header_def

lemma run_source_a:
  "run_full_etl example_ext two_sources empty_db example_config True
     = (db_after_a,
        ResetCall # table_events ''courses'' @ table_events ''studentInfo''
          @ [SourceDone ''./data/''],
        Inr ())"
  by (simp add: run_full_etl_def is_valid_summary example_config_def example_ext_def
      eval_fs eval_reader Let_def clear_data_tables_def data_tables_def table_exists_def
      empty_db_def setup_etl_log_table_def available_tables_def execution_order_def
      etl_plan_def process_csv_to_db_def get_last_processed_chunk_def last_committed_def
      log_entries_def transform_generic_def commit_chunk_ok after_commits_def stored_rows_def
      named_rows_def db_after_a_def table_events_def courses_row_a_def student_row_a_def)

lemmas eval_run =
  run_full_etl_def is_valid_summary example_ext_def
  eval_fs eval_reader Let_def clear_data_tables_def data_tables_def table_exists_def
  empty_db_def setup_etl_log_table_def available_tables_def execution_order_def
  etl_plan_def process_csv_to_db_def get_last_processed_chunk_def last_committed_def
  log_entries_def transform_generic_def commit_chunk_ok after_commits_def stored_rows_def
  named_rows_def db_after_a_def table_events_def courses_row_a_def student_row_a_def

lemma run_source_b:
  "run_full_etl example_ext two_sources db_after_a
       (example_config\<lparr>etl_data_path := ''./data_2/''\<rparr>) False
     = (db_after_a,
        [Started ''courses'', CheckpointRead ''courses'', Completed ''courses'',
         Started ''studentInfo'', CheckpointRead ''studentInfo'', Completed ''studentInfo'',
         SourceDone ''./data_2/''],
        Inr ())"
  by (simp add: eval_run example_config_def)

lemma run_two_sources:
  "run_multi_source_etl example_ext two_sources empty_db example_config
       [''./data/'', ''./data_2/'']
     = (db_after_a,
        ResetCall # table_events ''courses'' @ table_events ''studentInfo''
          @ [SourceDone ''./data/'',
             Started ''courses'', CheckpointRead ''courses'', Completed ''courses'',
             Started ''studentInfo'', CheckpointRead ''studentInfo'', Completed ''studentInfo'',
             SourceDone ''./data_2/''],
        Inr ())"
proof -
  have a: "example_config\<lparr>etl_data_path := ''./data/''\<rparr> = example_config"
    by (simp add: example_config_def)
  have b: "example_config\<lparr>etl_data_path := ''./data/'', etl_data_path := ''./data_2/''\<rparr>
             = example_config\<lparr>etl_data_path := ''./data_2/''\<rparr>"
    by simp
  show ?thesis
    by (simp add: run_multi_source_etl_def a run_source_a run_source_b)
qed

lemma run_failing_source:
  "run_full_etl example_ext failing_source empty_db one_by_one False
     = (db_after_failure,
        table_events ''courses''
          @ [Started ''studentAssessment'', CheckpointRead ''studentAssessment'',
             TransformCall ''studentAssessment'' 1, CommitCall ''studentAssessment'' 1,
             Committed ''studentAssessment'' 1, TransformCall ''studentAssessment'' 2,
             Failed ''studentAssessment'' ValueError]
          @ table_events ''studentVle'' @ [SourceDone ''./data/''],
        Inr ())"
  by (simp add: eval_run one_by_one_def failing_source_def bad_scores_file_def
      db_after_failure_def transform_student_assessment_def classify_score_def
      set_column_def cell_at_def decimal_def)

section \<open>Atomic commit of a chunk\<close>

text \<open>
  Claim C1. For every table, chunk index, transformed chunk and database, the commit of
  the chunk (the transaction of lines 207--211) either succeeds, and then the rows of
  the chunk are appended to the stored rows of the table and the checkpoint of the table
  is the chunk index, or it fails, wherever the failure occurs (after any number of
  inserted rows, or at the update of the checkpoint), and then the database is the same
  as before the attempt: neither the stored rows nor the checkpoint has changed.
\<close>

theorem commit_chunk_atomic:
  "commit_chunk None t i chunk db =
     (db\<lparr>tables := (tables db)(t \<mapsto> stored_rows db t @ named_rows chunk),
         etl_log := Some ((log_entries db)(t \<mapsto> i))\<rparr>, Inr ())
   \<and> commit_chunk (Some fault) t i chunk db = (db, Inl DatabaseError)"
  by (cases fault)
     (simp_all add: commit_chunk_def engine_begin_def to_sql_def update_etl_log_def
        log_entries_def)

lemma commit_chunk_example:
  "commit_chunk (Some (FailAfterRows 1)) ''studentAssessment'' 1 example_scores empty_db
     = (empty_db, Inl DatabaseError)
   \<and> commit_chunk (Some FailLogUpdate) ''studentAssessment'' 1 example_scores empty_db
     = (empty_db, Inl DatabaseError)"
  by (simp add: commit_chunk_def engine_begin_def to_sql_def update_etl_log_def)

section \<open>Resuming a table load\<close>

text \<open>
  Claim C2. Let the file of a table be readable in \<open>n\<close> chunks and let the checkpoint
  of the table be \<open>k\<close> (the chunks \<open>1..k\<close> were committed by a prior run; \<open>k = 0\<close> when
  there is no checkpoint). If the transformation succeeds on the chunks after the
  \<open>k\<close>-th and no database failure occurs on them, \<open>process_csv_to_db\<close> returns normally
  and what happened is exactly: the start message, the read of the checkpoint, then for
  each index \<open>k+1, ..., n\<close> in this order the call of the transformation, the entry into
  the transaction and its commit, then the completion message. No chunk with an index up
  to \<open>k\<close> is transformed or committed; in particular nothing is committed when
  \<open>k \<ge> n\<close>. The rows of the transformed chunks \<open>k+1..n\<close> are appended to the table, its
  checkpoint becomes \<open>n\<close> (it stays \<open>k\<close> when \<open>k \<ge> n\<close>), and the other tables and
  checkpoints are unchanged.
\<close>

theorem process_csv_to_db_resumes:
  assumes fl: "open_file fs filepath = Some f"
    and rd: "read_csv_chunks (to_numeric ext) missing_values f n = Inr (map Inr chunks)"
    and tf: "list_all2 (\<lambda>c out. transform_func c = Inr out)
               (drop (last_committed db t) chunks) outs"
    and nofault: "\<forall>j. last_committed db t < j \<and> j \<le> length chunks
                      \<longrightarrow> db_fault ext t j = None"
  shows "\<exists>db'. process_csv_to_db ext fs filepath t db n transform_func
                 = (db',
                    Started t # CheckpointRead t
                      # concat (map (chunk_events t)
                                 [Suc (last_committed db t) ..< Suc (length chunks)])
                      @ [Completed t],
                    Inr ())
             \<and> stored_rows db' t = stored_rows db t @ concat (map named_rows outs)
             \<and> last_committed db' t = max (last_committed db t) (length chunks)
             \<and> (\<forall>t'. t' \<noteq> t \<longrightarrow> stored_rows db' t' = stored_rows db t'
                                \<and> last_committed db' t' = last_committed db t')"
proof -
  let ?k = "last_committed db t"
  let ?n = "length chunks"
  let ?db0 = "setup_etl_log_table db"
  let ?i = "length (take ?k chunks)"
  have split: "map Inr chunks = map Inr (take ?k chunks) @ map Inr (drop ?k chunks)"
    by (simp flip: map_append)
  have skip: "process_chunks ext t transform_func ?k 0 (map Inr chunks) ?db0
            = process_chunks ext t transform_func ?k ?i (map Inr (drop ?k chunks)) ?db0"
    unfolding split using process_chunks_skip [of 0 "take ?k chunks" ?k] by simp
  have len: "length outs = ?n - ?k"
    using tf by (simp add: list_all2_lengthD [symmetric])
  have loop: "process_chunks ext t transform_func ?k ?i (map Inr (drop ?k chunks)) ?db0
            = (after_commits t (max ?k ?n) outs ?db0,
               concat (map (chunk_events t) [Suc ?k ..< Suc ?n]), Inr ())"
  proof (cases "?k \<le> ?n")
    case True
    then have i: "?i = ?k" by simp
    have f: "\<forall>j < length (drop ?k chunks). db_fault ext t (Suc (?k + j)) = None"
      using nofault by simp
    have "process_chunks ext t transform_func ?k ?k (map Inr (drop ?k chunks)) ?db0
            = (after_commits t (?k + length (drop ?k chunks)) outs ?db0,
               concat (map (chunk_events t) [Suc ?k ..< Suc ?k + length (drop ?k chunks)]),
               Inr ())"
      by (rule process_chunks_all [OF le_refl tf f])
    with True show ?thesis by (simp add: i max_def)
  next
    case False
    then have "drop ?k chunks = []" and "outs = []" using len by simp_all
    with False show ?thesis by simp
  qed
  let ?db' = "after_commits t (max ?k ?n) outs ?db0"
  have run: "process_csv_to_db ext fs filepath t db n transform_func
               = (?db',
                  Started t # CheckpointRead t
                    # concat (map (chunk_events t) [Suc ?k ..< Suc ?n]) @ [Completed t],
                  Inr ())"
  proof -
    have "process_chunks ext t transform_func ?k 0 (map Inr chunks) ?db0
            = (?db', concat (map (chunk_events t) [Suc ?k ..< Suc ?n]), Inr ())"
      by (simp only: skip loop)
    then show ?thesis
      by (simp add: process_csv_to_db_def fl get_last_processed_chunk_def rd)
  qed
  have rows: "stored_rows ?db' t = stored_rows db t @ concat (map named_rows outs)"
    by (simp add: stored_rows_after_commits)
  have ck: "last_committed ?db' t = max ?k ?n"
    using len by (auto simp: last_committed_after_commits max_def)
  have others: "\<forall>t'. t' \<noteq> t \<longrightarrow> stored_rows ?db' t' = stored_rows db t'
                                \<and> last_committed ?db' t' = last_committed db t'"
    by (simp add: stored_rows_after_commits last_committed_after_commits)
  show ?thesis
    by (rule exI [of _ ?db'], intro conjI) (rule run, rule rows, rule ck, rule others)
qed

theorem process_csv_to_db_resumes_witness:
  "open_file example_fs (''./data/'', ''studentAssessment.csv'') = Some example_file
   \<and> read_csv_chunks decimal missing_values example_file 2
        = Inr [Inr example_chunk1, Inr example_chunk2]
   \<and> last_committed example_db_resumed ''studentAssessment'' = 1
   \<and> (\<exists>db'. process_csv_to_db example_ext example_fs (''./data/'', ''studentAssessment.csv'')
                ''studentAssessment'' example_db_resumed 2 (transform_student_assessment decimal)
              = (db',
                 [Started ''studentAssessment'', CheckpointRead ''studentAssessment'',
                  TransformCall ''studentAssessment'' 2, CommitCall ''studentAssessment'' 2,
                  Committed ''studentAssessment'' 2, Completed ''studentAssessment''],
                 Inr ())
            \<and> stored_rows db' ''studentAssessment''
                 = named_rows example_out1 @ named_rows example_out2
            \<and> last_committed db' ''studentAssessment'' = 2)"
proof -
  let ?t = "''studentAssessment''"
  have fl: "open_file example_fs (''./data/'', ?t @ ''.csv'') = Some example_file"
    by (simp add: open_file_def example_fs_def)
  have rd: "read_csv_chunks (to_numeric example_ext) missing_values example_file 2
              = Inr (map Inr [example_chunk1, example_chunk2])"
    using example_file_chunks by (simp add: example_ext_def)
  have k: "last_committed example_db_resumed ?t = 1"
    by (simp add: last_committed_def log_entries_def example_db_resumed_def)
  have tf: "list_all2 (\<lambda>c out. transform_student_assessment decimal c = Inr out)
              (drop (last_committed example_db_resumed ?t) [example_chunk1, example_chunk2])
              [example_out2]"
    by (simp add: k example_transforms)
  have nf: "\<forall>j. last_committed example_db_resumed ?t < j
                 \<and> j \<le> length [example_chunk1, example_chunk2]
              \<longrightarrow> db_fault example_ext ?t j = None"
    by (simp add: example_ext_def)
  have rows: "stored_rows example_db_resumed ?t = named_rows example_out1"
    by (simp add: stored_rows_def example_db_resumed_def)
  from process_csv_to_db_resumes [OF fl rd tf nf]
  obtain db' where
    run: "process_csv_to_db example_ext example_fs (''./data/'', ?t @ ''.csv'') ?t
            example_db_resumed 2 (transform_student_assessment decimal)
          = (db',
             Started ?t # CheckpointRead ?t
               # concat (map (chunk_events ?t)
                   [Suc (last_committed example_db_resumed ?t)
                      ..< Suc (length [example_chunk1, example_chunk2])])
               @ [Completed ?t],
             Inr ())"
    and st: "stored_rows db' ?t
               = stored_rows example_db_resumed ?t @ concat (map named_rows [example_out2])"
    and ck: "last_committed db' ?t
               = max (last_committed example_db_resumed ?t) (length [example_chunk1, example_chunk2])"
    by blast
  have evs: "concat (map (chunk_events ?t)
               [Suc (last_committed example_db_resumed ?t)
                  ..< Suc (length [example_chunk1, example_chunk2])])
             = [TransformCall ?t 2, CommitCall ?t 2, Committed ?t 2]"
    by (simp add: k chunk_events_def)
  show ?thesis
    using fl example_file_chunks k run st ck
    by (simp add: rows chunk_events_def numeral_2_eq_2)
qed

section \<open>Score classification\<close>

text \<open>
  Claim C3. For every rectangular batch that has a \<open>score\<close> column whose cells are
  missing or numeric (or strings that Python's \<open>float\<close> accepts),
  \<open>transform_student_assessment\<close> returns a batch with the same number of rows in which,
  row by row, \<open>assessment_result\<close> is \<open>"Fail"\<close> when the score is present and strictly
  below 40, \<open>"Pass"\<close> when it is present and at least 40, and missing when the score is
  missing; the score and every other original column keep their values.
\<close>

theorem transform_student_assessment_classifies:
  assumes wf: "wf_frame df"
    and col: "''score'' \<in> set (columns df)"
    and num: "\<forall>r \<in> set (rows df). \<forall>s. named_cell (columns df) r ''score'' = Str s \<longrightarrow> pf s \<noteq> None"
  shows "\<exists>df'. transform_student_assessment pf df = Inr df'
           \<and> length (rows df') = length (rows df)
           \<and> (\<forall>i < length (rows df).
                (let r = rows df ! i; r' = rows df' ! i;
                     score = named_cell (columns df) r ''score'';
                     res = named_cell (columns df') r' ''assessment_result''
                 in (\<forall>c \<in> set (columns df). c \<noteq> ''assessment_result'' \<longrightarrow>
                        named_cell (columns df') r' c = named_cell (columns df) r c)
                  \<and> (pd_isna score \<longrightarrow> res = NoneV)
                  \<and> (\<forall>q. score = Num (Fin q) \<and> q < 40 \<longrightarrow> res = Str ''Fail'')
                  \<and> (\<forall>q. score = Num (Fin q) \<and> 40 \<le> q \<longrightarrow> res = Str ''Pass'')))"
proof -
  from col obtain j where j: "index_of (columns df) ''score'' = Some j"
    using index_of_mem by fastforce
  let ?scores = "map (\<lambda>r. cell_at r j) (rows df)"
  have sc: "\<And>r. named_cell (columns df) r ''score'' = cell_at r j"
    by (simp add: named_cell_def j)
  have "\<forall>x \<in> set ?scores. \<exists>y. classify_score pf x = Inr y"
  proof
    fix x assume "x \<in> set ?scores"
    then obtain r where r: "r \<in> set (rows df)" "x = cell_at r j" by auto
    with num have "\<forall>s. x = Str s \<longrightarrow> pf s \<noteq> None" by (simp add: sc)
    then show "\<exists>y. classify_score pf x = Inr y" by (rule classify_score_total)
  qed
  from apply_all_ok [OF this] obtain res where
    res: "apply_all (classify_score pf) ?scores = Inr res"
      "length res = length (rows df)"
      "\<forall>i < length (rows df). classify_score pf (cell_at (rows df ! i) j) = Inr (res ! i)"
    by auto
  let ?df' = "set_column df ''assessment_result'' res"
  have t: "transform_student_assessment pf df = Inr ?df'"
    by (simp add: transform_student_assessment_def j res)
  have len: "length (rows ?df') = length (rows df)"
    using res(2) by (simp add: set_column_def split: option.splits)
  have rowlen: "\<And>i. i < length (rows df) \<Longrightarrow> length (rows df ! i) = length (columns df)"
    using wf by (simp add: wf_frame_def)
  have cells: "named_cell (columns ?df') (rows ?df' ! i) c =
        (if c = ''assessment_result'' then res ! i else named_cell (columns df) (rows df ! i) c)"
    if i: "i < length (rows df)" and c: "c \<in> set (columns df) \<or> c = ''assessment_result''" for i c
  proof (cases "index_of (columns df) ''assessment_result''")
    case None
    then have notin: "''assessment_result'' \<notin> set (columns df)" by (simp add: index_of_None)
    have r': "rows ?df' ! i = rows df ! i @ [res ! i]" and c': "columns ?df' = columns df @ [''assessment_result'']"
      using i res(2) by (simp_all add: set_column_def None)
    show ?thesis
    proof (cases "c = ''assessment_result''")
      case True
      then show ?thesis using notin rowlen [OF i, symmetric]
        by (simp add: r' c' named_cell_def index_of_append_right cell_at_def)
    next
      case False
      with c obtain k where k: "index_of (columns df) c = Some k" using index_of_mem by fastforce
      then have "k < length (columns df)" using index_of_Some by fastforce
      then show ?thesis using False c rowlen [OF i] k
        by (simp add: r' c' named_cell_def index_of_append_left cell_at_def nth_append)
    qed
  next
    case (Some ja)
    then have ja: "ja < length (columns df)" "columns df ! ja = ''assessment_result''"
      using index_of_Some by fastforce+
    have r': "rows ?df' ! i = (rows df ! i)[ja := res ! i]" and c': "columns ?df' = columns df"
      using i res(2) by (simp_all add: set_column_def Some)
    show ?thesis
    proof (cases "c = ''assessment_result''")
      case True
      then show ?thesis using ja rowlen [OF i] Some
        by (simp add: r' c' named_cell_def cell_at_def)
    next
      case False
      with c obtain k where k: "index_of (columns df) c = Some k" using index_of_mem by fastforce
      then have "k < length (columns df)" "columns df ! k = c" using index_of_Some by fastforce+
      then have "k \<noteq> ja" using ja False by auto
      then show ?thesis using False rowlen [OF i] k
        by (simp add: r' c' named_cell_def cell_at_def)
    qed
  qed
  have main: "\<forall>i < length (rows df).
          (let r = rows df ! i; r' = rows ?df' ! i;
               score = named_cell (columns df) r ''score'';
               res = named_cell (columns ?df') r' ''assessment_result''
           in (\<forall>c \<in> set (columns df). c \<noteq> ''assessment_result'' \<longrightarrow>
                  named_cell (columns ?df') r' c = named_cell (columns df) r c)
            \<and> (pd_isna score \<longrightarrow> res = NoneV)
            \<and> (\<forall>q. score = Num (Fin q) \<and> q < 40 \<longrightarrow> res = Str ''Fail'')
            \<and> (\<forall>q. score = Num (Fin q) \<and> 40 \<le> q \<longrightarrow> res = Str ''Pass''))"
  proof (intro allI impI)
    fix i assume i: "i < length (rows df)"
    have cl: "classify_score pf (named_cell (columns df) (rows df ! i) ''score'') = Inr (res ! i)"
      using res(3) i by (simp add: sc)
    show "(let r = rows df ! i; r' = rows ?df' ! i;
               score = named_cell (columns df) r ''score'';
               res = named_cell (columns ?df') r' ''assessment_result''
           in (\<forall>c \<in> set (columns df). c \<noteq> ''assessment_result'' \<longrightarrow>
                  named_cell (columns ?df') r' c = named_cell (columns df) r c)
            \<and> (pd_isna score \<longrightarrow> res = NoneV)
            \<and> (\<forall>q. score = Num (Fin q) \<and> q < 40 \<longrightarrow> res = Str ''Fail'')
            \<and> (\<forall>q. score = Num (Fin q) \<and> 40 \<le> q \<longrightarrow> res = Str ''Pass''))"
      unfolding Let_def using classify_score_cases [OF cl] by (simp add: cells [OF i])
  qed
  show ?thesis
    by (rule exI [of _ ?df'], intro conjI) (rule t, rule len, rule main)
qed


theorem transform_student_assessment_classifies_witness:
  "wf_frame example_scores
   \<and> ''score'' \<in> set (columns example_scores)
   \<and> (\<exists>df'. transform_student_assessment decimal example_scores = Inr df'
           \<and> length (rows df') = 3
           \<and> named_cell (columns df') (rows df' ! 0) ''score'' = Num (Fin (399 / 10))
           \<and> named_cell (columns df') (rows df' ! 0) ''assessment_result'' = Str ''Fail''
           \<and> named_cell (columns df') (rows df' ! 1) ''score'' = Num (Fin 40)
           \<and> named_cell (columns df') (rows df' ! 1) ''assessment_result'' = Str ''Pass''
           \<and> named_cell (columns df') (rows df' ! 2) ''score'' = NoneV
           \<and> named_cell (columns df') (rows df' ! 2) ''assessment_result'' = NoneV)"
proof -
  have h1: "wf_frame example_scores"
    by (simp add: wf_frame_def example_scores_def)
  have h2: "''score'' \<in> set (columns example_scores)"
    by (simp add: example_scores_def)
  have h3: "\<forall>r \<in> set (rows example_scores).
         \<forall>s. named_cell (columns example_scores) r ''score'' = Str s \<longrightarrow> decimal s \<noteq> None"
    by (simp add: example_scores_def named_cell_def cell_at_def)
  from transform_student_assessment_classifies [OF h1 h2 h3]
  obtain df' where t: "transform_student_assessment decimal example_scores = Inr df'"
    and len: "length (rows df') = length (rows example_scores)"
    and all: "\<And>i. i < length (rows example_scores) \<Longrightarrow>
                (let r = rows example_scores ! i; r' = rows df' ! i;
                     score = named_cell (columns example_scores) r ''score'';
                     res = named_cell (columns df') r' ''assessment_result''
                 in (\<forall>c \<in> set (columns example_scores). c \<noteq> ''assessment_result'' \<longrightarrow>
                        named_cell (columns df') r' c = named_cell (columns example_scores) r c)
                  \<and> (pd_isna score \<longrightarrow> res = NoneV)
                  \<and> (\<forall>q. score = Num (Fin q) \<and> q < 40 \<longrightarrow> res = Str ''Fail'')
                  \<and> (\<forall>q. score = Num (Fin q) \<and> 40 \<le> q \<longrightarrow> res = Str ''Pass''))"
    by blast
  have s0: "named_cell (columns example_scores) (rows example_scores ! 0) ''score'' = Num (Fin (399 / 10))"
    and s1: "named_cell (columns example_scores) (rows example_scores ! 1) ''score'' = Num (Fin 40)"
    and s2: "named_cell (columns example_scores) (rows example_scores ! 2) ''score'' = NoneV"
    by (simp_all add: example_scores_def named_cell_def cell_at_def)
  have i0: "0 < length (rows example_scores)" and i1: "1 < length (rows example_scores)"
    and i2: "2 < length (rows example_scores)"
    by (simp_all add: example_scores_def)
  have keep: "named_cell (columns df') (rows df' ! i) ''score''
                = named_cell (columns example_scores) (rows example_scores ! i) ''score''"
    if "i < length (rows example_scores)" for i
    using all [OF that] h2 unfolding Let_def by auto
  have f0: "\<forall>q. Num (Fin (399 / 10)) = Num (Fin q) \<and> q < 40 \<longrightarrow>
              named_cell (columns df') (rows df' ! 0) ''assessment_result'' = Str ''Fail''"
    using all [OF i0] unfolding Let_def s0 by blast
  have f1: "\<forall>q. Num (Fin 40) = Num (Fin q) \<and> 40 \<le> q \<longrightarrow>
              named_cell (columns df') (rows df' ! 1) ''assessment_result'' = Str ''Pass''"
    using all [OF i1] unfolding Let_def s1 by blast
  have f2: "pd_isna NoneV \<longrightarrow>
              named_cell (columns df') (rows df' ! 2) ''assessment_result'' = NoneV"
    using all [OF i2] unfolding Let_def s2 by blast
  have r0: "named_cell (columns df') (rows df' ! 0) ''score'' = Num (Fin (399 / 10))
          \<and> named_cell (columns df') (rows df' ! 0) ''assessment_result'' = Str ''Fail''"
    using keep [OF i0] f0 [THEN spec, of "399 / 10"] s0 by simp
  have r1: "named_cell (columns df') (rows df' ! 1) ''score'' = Num (Fin 40)
          \<and> named_cell (columns df') (rows df' ! 1) ''assessment_result'' = Str ''Pass''"
    using keep [OF i1] f1 [THEN spec, of 40] s1 by simp
  have r2: "named_cell (columns df') (rows df' ! 2) ''score'' = NoneV
          \<and> named_cell (columns df') (rows df' ! 2) ''assessment_result'' = NoneV"
    using keep [OF i2] f2 s2 by simp
  have l3: "length (rows df') = 3"
    using len by (simp add: example_scores_def)
  show ?thesis
    using h1 h2 t l3 r0 r1 r2 by blast
qed

lemma transform_student_assessment_example:
  "transform_student_assessment decimal example_scores =
     Inr \<lparr>columns = [''id_assessment'', ''id_student'', ''score'', ''assessment_result''],
          rows = [[Num (Fin 1752), Num (Fin 11391), Num (Fin (399 / 10)), Str ''Fail''],
                  [Num (Fin 1752), Num (Fin 28400), Num (Fin 40), Str ''Pass''],
                  [Num (Fin 1752), Num (Fin 31604), NoneV, NoneV]]\<rparr>"
  by (simp add: transform_student_assessment_def example_scores_def cell_at_def
      classify_score_def set_column_def)

section \<open>Imputation of exam dates\<close>

text \<open>The result of \<open>transform_assessments\<close> on frames on which the merge and the
  selections are defined: each row of the batch once for every course row with the same
  key, once when there is none.\<close>

lemma transform_assessments_joined:
  assumes wf: "wf_frame df"
    and keys: "set merge_keys \<subseteq> set (columns df)" "set merge_keys \<subseteq> set (columns courses_df)"
    and dis: "\<forall>c \<in> set (columns df). c \<in> set (columns courses_df) \<longrightarrow> c \<in> set merge_keys"
    and ty: "''assessment_type'' \<in> set (columns df)"
    and dt: "index_of (columns df) ''date'' = Some jd"
    and ln: "''module_presentation_length'' \<in> set (columns courses_df)"
    and dty: "same_key_dtypes df courses_df merge_keys"
  shows "transform_assessments df courses_df =
           Inr \<lparr>columns = columns df,
                rows = concat (map (\<lambda>r.
                  map (\<lambda>len. if named_cell (columns df) r ''assessment_type'' = Str ''Exam''
                                  \<and> pd_isna (named_cell (columns df) r ''date'')
                               then r[jd := len] else r)
                      (case course_lengths df courses_df r of [] \<Rightarrow> [NoneV] | ls \<Rightarrow> ls))
                  (rows df))\<rparr>"
proof -
  let ?L = "columns df"
  let ?R = "columns courses_df"
  let ?n = "length ?L"
  let ?rcols = "filter (\<lambda>c. c \<notin> set merge_keys) ?R"
  let ?ms = "\<lambda>l. filter (\<lambda>r. merge_key ?R merge_keys r
                               = merge_key ?L merge_keys l) (rows courses_df)"
  let ?J = "\<lambda>l. if ?ms l = [] then [l @ map (\<lambda>c. NoneV) ?rcols]
                 else map (\<lambda>r. l @ map (named_cell ?R r) ?rcols) (?ms l)"
  from ty obtain jt where jt: "index_of ?L ''assessment_type'' = Some jt"
    using index_of_mem by fastforce
  have jt_lt: "jt < ?n" and jd_lt: "jd < ?n"
    using jt dt index_of_Some by fastforce+
  have ln_key: "''module_presentation_length'' \<notin> set merge_keys"
    by (simp add: merge_keys_def)
  with ln have ln_r: "''module_presentation_length'' \<in> set ?rcols" by simp
  then obtain jl' where jl': "index_of ?rcols ''module_presentation_length'' = Some jl'"
    using index_of_mem by fastforce
  then have jl'_lt: "jl' < length ?rcols"
    and jl'_nth: "?rcols ! jl' = ''module_presentation_length''"
    using index_of_Some by fastforce+
  have ln_l: "''module_presentation_length'' \<notin> set ?L"
    using dis ln ln_key by blast
  let ?M = "?L @ ?rcols"
  have m_jt: "index_of ?M ''assessment_type'' = Some jt"
    using ty jt by (simp add: index_of_append_left)
  have dmem: "''date'' \<in> set ?L"
    using index_of_None [of ?L "''date''"] dt by auto
  have m_jd: "index_of ?M ''date'' = Some jd"
    using dmem dt by (simp add: index_of_append_left)
  have m_jl: "index_of ?M ''module_presentation_length'' = Some (?n + jl')"
    using ln_l jl' by (simp add: index_of_append_right)
  have merged: "pd_merge_left df courses_df merge_keys
                  = Inr \<lparr>columns = ?M, rows = concat (map ?J (rows df))\<rparr>"
    by (rule pd_merge_left_disjoint [OF keys dis dty])
  let ?imp = "\<lambda>m. if cell_at m jt = Str ''Exam'' \<and> pd_isna (cell_at m jd)
                   then m[jd := cell_at m (?n + jl')] else m"
  let ?G = "\<lambda>l len. if named_cell ?L l ''assessment_type'' = Str ''Exam''
                         \<and> pd_isna (named_cell ?L l ''date'')
                      then l[jd := len] else l"
  let ?Ls = "\<lambda>l. case course_lengths df courses_df l of [] \<Rightarrow> [NoneV] | ls \<Rightarrow> ls"
  have rowlen: "length l = ?n" if "l \<in> set (rows df)" for l
    using wf that by (simp add: wf_frame_def)
  have named: "named_cell ?L l ''assessment_type'' = cell_at l jt"
    "named_cell ?L l ''date'' = cell_at l jd" for l
    by (simp_all add: named_cell_def jt dt)
  have joined: "\<forall>m \<in> set (concat (map ?J (rows df))). \<exists>l e. l \<in> set (rows df) \<and> m = l @ e"
    by (auto split: if_splits)
  have shape: "\<forall>m \<in> set (map ?imp (concat (map ?J (rows df)))).
                 \<exists>l e. m = l @ e \<and> length l = ?n"
  proof
    fix m assume a: "m \<in> set (map ?imp (concat (map ?J (rows df))))"
    from a [unfolded set_map] obtain m0 where
      m: "m = ?imp m0" and m0: "m0 \<in> set (concat (map ?J (rows df)))"
      by (rule imageE)
    from joined m0 obtain l e where l: "l \<in> set (rows df)" and le: "m0 = l @ e"
      by blast
    show "\<exists>l e. m = l @ e \<and> length l = ?n"
    proof (cases "cell_at m0 jt = Str ''Exam'' \<and> pd_isna (cell_at m0 jd)")
      case True
      with m have "m = m0[jd := cell_at m0 (?n + jl')]" by simp
      with jd_lt rowlen [OF l]
      have "m = l[jd := cell_at m0 (?n + jl')] @ e"
        by (simp add: le list_update_append)
      moreover have "length (l[jd := cell_at m0 (?n + jl')]) = ?n"
        using rowlen [OF l] by simp
      ultimately show ?thesis by blast
    next
      case False
      with m have "m = l @ e" by (auto simp: le)
      with rowlen [OF l] show ?thesis by blast
    qed
  qed
  have sel: "select_columns \<lparr>columns = ?M, rows = map ?imp (concat (map ?J (rows df)))\<rparr> ?L
               = Inr \<lparr>columns = ?L,
                      rows = map (take ?n) (map ?imp (concat (map ?J (rows df))))\<rparr>"
    using wf shape by (intro select_columns_prefix) (simp_all add: wf_frame_def)
  have per_row: "map (take ?n) (map ?imp (?J l)) = map (?G l) (?Ls l)"
    if l: "l \<in> set (rows df)" for l
  proof (cases "?ms l = []")
    case True
    then have cl: "course_lengths df courses_df l = []"
      by (simp add: course_lengths_def)
    have "take ?n (?imp (l @ map (\<lambda>c. NoneV) ?rcols)) = ?G l NoneV"
      using impute_joined_row [OF rowlen [OF l] jt_lt jd_lt, of jl' "map (\<lambda>c. NoneV) ?rcols"]
        jl'_lt by (simp add: named)
    with True show ?thesis by (simp add: cl)
  next
    case False
    then have cl: "?Ls l = map (\<lambda>r. named_cell ?R r ''module_presentation_length'') (?ms l)"
      by (simp add: course_lengths_def split: list.splits)
    have "take ?n (?imp (l @ map (named_cell ?R r) ?rcols))
            = ?G l (named_cell ?R r ''module_presentation_length'')" for r
      using impute_joined_row [OF rowlen [OF l] jt_lt jd_lt, of jl' "map (named_cell ?R r) ?rcols"]
        jl'_lt jl'_nth by (simp add: named)
    with False show ?thesis by (simp add: cl comp_def)
  qed
  have rows_eq: "map (take ?n) (map ?imp (concat (map ?J (rows df))))
                  = concat (map (\<lambda>l. map (?G l) (?Ls l)) (rows df))"
  proof -
    have "map (take ?n) (map ?imp (concat (map ?J (rows df))))
            = concat (map (\<lambda>l. map (take ?n) (map ?imp (?J l))) (rows df))"
      by (simp add: map_concat comp_def)
    also have "\<dots> = concat (map (\<lambda>l. map (?G l) (?Ls l)) (rows df))"
      using per_row by (intro arg_cong [of _ _ concat] map_cong refl)
    finally show ?thesis .
  qed
  have "transform_assessments df courses_df
          = select_columns \<lparr>columns = ?M, rows = map ?imp (concat (map ?J (rows df)))\<rparr> ?L"
    unfolding transform_assessments_def merged by (simp add: m_jt m_jd m_jl)
  then show ?thesis
    unfolding sel rows_eq .
qed

lemma filter_distinct_key:
  "distinct (map f xs) \<Longrightarrow> length (filter (\<lambda>x. f x = k) xs) \<le> Suc 0"
proof (induction xs)
  case Nil
  then show ?case by simp
next
  case (Cons x xs)
  show ?case
  proof (cases "f x = k")
    case True
    with Cons.prems have "k \<notin> f ` set xs" by auto
    then have "filter (\<lambda>x. f x = k) xs = []" by (auto simp: filter_empty_conv)
    with True show ?thesis by simp
  next
    case False
    with Cons show ?thesis by simp
  qed
qed

lemma course_lengths_unique:
  assumes "unique_course_keys courses_df"
  shows "(case course_lengths df courses_df r of [] \<Rightarrow> [NoneV] | ls \<Rightarrow> ls)
           = [course_length df courses_df r]"
proof -
  have "length (course_lengths df courses_df r) \<le> Suc 0"
    using assms filter_distinct_key [of "merge_key (columns courses_df) merge_keys"
        "rows courses_df" "merge_key (columns df) merge_keys r"]
    by (simp add: course_lengths_def unique_course_keys_def)
  then show ?thesis
    by (cases "course_lengths df courses_df r") (simp_all add: course_length_def)
qed

text \<open>
  Claim C4 fails on the code as it is stated, for every course table: the join is a
  left merge, so a batch row comes back once for every course row with its key. With a
  course listed twice, an assessment that is not an exam comes back twice, and the
  returned batch is not the input batch.
\<close>

theorem transform_assessments_repeats_rows:
  "rows tma_batch
     = [[Str ''AAA'', Str ''2013J'', Num (Fin 1), Str ''TMA'', Num (Fin 19), Num (Fin 10)]]
   \<and> transform_assessments tma_batch repeated_courses =
       Inr \<lparr>columns = [''code_module'', ''code_presentation'', ''id_assessment'',
                       ''assessment_type'', ''date'', ''weight''],
            rows = [[Str ''AAA'', Str ''2013J'', Num (Fin 1), Str ''TMA'', Num (Fin 19), Num (Fin 10)],
                    [Str ''AAA'', Str ''2013J'', Num (Fin 1), Str ''TMA'', Num (Fin 19), Num (Fin 10)]]\<rparr>"
  by (simp add: transform_assessments_def pd_merge_left_def same_key_dtypes_def
      object_dtype_def column_cells_def merge_key_def select_columns_def named_cell_def
      cell_at_def merge_keys_def tma_batch_def repeated_courses_def courses_header_def
      Let_def)

text \<open>
  Claim C4, amended. Let the batch be rectangular with distinct column labels, let the
  batch and the course table both have the key columns \<open>code_module\<close> and
  \<open>code_presentation\<close>, of the same kind on both sides, and no other column in common,
  let the batch have the columns \<open>assessment_type\<close> and \<open>date\<close> and the course table
  the column \<open>module_presentation_length\<close>, and let no (module, presentation) occur
  twice in the course table. Then \<open>transform_assessments\<close> returns a batch with exactly
  the columns of the input, in their order, and exactly its rows, in their order, where
  a row whose type is \<open>"Exam"\<close> and whose date is missing has its date replaced by the
  length of the course with the same (module, presentation), by the missing value when
  there is no such course (the date stays missing), and every other row is unmodified.
\<close>

theorem transform_assessments_imputes:
  assumes wf: "wf_frame df"
    and keys: "set merge_keys \<subseteq> set (columns df)" "set merge_keys \<subseteq> set (columns courses_df)"
    and dis: "\<forall>c \<in> set (columns df). c \<in> set (columns courses_df) \<longrightarrow> c \<in> set merge_keys"
    and ty: "''assessment_type'' \<in> set (columns df)"
    and dt: "index_of (columns df) ''date'' = Some jd"
    and ln: "''module_presentation_length'' \<in> set (columns courses_df)"
    and dty: "same_key_dtypes df courses_df merge_keys"
    and uniq: "unique_course_keys courses_df"
  shows "transform_assessments df courses_df =
           Inr \<lparr>columns = columns df,
                rows = map (\<lambda>r. if named_cell (columns df) r ''assessment_type'' = Str ''Exam''
                                    \<and> pd_isna (named_cell (columns df) r ''date'')
                                 then r[jd := course_length df courses_df r] else r)
                           (rows df)\<rparr>"
  unfolding transform_assessments_joined [OF wf keys dis ty dt ln dty]
    course_lengths_unique [OF uniq]
  by (simp add: map_concat comp_def)

theorem transform_assessments_imputes_witness:
  "transform_assessments example_assessments example_courses =
     Inr \<lparr>columns = [''code_module'', ''code_presentation'', ''id_assessment'',
                     ''assessment_type'', ''date'', ''weight''],
          rows = [[Str ''BBB'', Str ''2014J'', Num (Fin 1), Str ''Exam'', Num (Fin 269), Num (Fin 100)],
                  [Str ''BBB'', Str ''2014J'', Num (Fin 2), Str ''TMA'', NoneV, Num (Fin 10)],
                  [Str ''AAA'', Str ''2013J'', Num (Fin 3), Str ''Exam'', Num (Fin 200), Num (Fin 100)],
                  [Str ''CCC'', Str ''2014B'', Num (Fin 4), Str ''Exam'', NoneV, Num (Fin 100)]]\<rparr>"
proof -
  have wf: "wf_frame example_assessments"
    by (simp add: wf_frame_def example_assessments_def)
  have k1: "set merge_keys \<subseteq> set (columns example_assessments)"
    by (simp add: merge_keys_def example_assessments_def)
  have k2: "set merge_keys \<subseteq> set (columns example_courses)"
    by (simp add: merge_keys_def example_courses_def courses_header_def)
  have dis: "\<forall>c \<in> set (columns example_assessments).
               c \<in> set (columns example_courses) \<longrightarrow> c \<in> set merge_keys"
    by (simp add: merge_keys_def example_assessments_def example_courses_def courses_header_def)
  have ty: "''assessment_type'' \<in> set (columns example_assessments)"
    by (simp add: example_assessments_def)
  have dt: "index_of (columns example_assessments) ''date'' = Some 4"
    by (simp add: example_assessments_def)
  have ln: "''module_presentation_length'' \<in> set (columns example_courses)"
    by (simp add: example_courses_def courses_header_def)
  have dty: "same_key_dtypes example_assessments example_courses merge_keys"
    by (simp add: same_key_dtypes_def object_dtype_def column_cells_def named_cell_def
        cell_at_def merge_keys_def example_assessments_def example_courses_def
        courses_header_def)
  have uniq: "unique_course_keys example_courses"
    by (simp add: unique_course_keys_def merge_key_def named_cell_def cell_at_def
        merge_keys_def example_courses_def courses_header_def)
  show ?thesis
    unfolding transform_assessments_imputes [OF wf k1 k2 dis ty dt ln dty uniq]
    by (simp add: course_length_def course_lengths_def merge_key_def named_cell_def
          cell_at_def merge_keys_def example_assessments_def example_courses_def
          courses_header_def)
qed

section \<open>Missing-value tokens\<close>

text \<open>
  Claim C5. \<open>process_csv_to_db\<close> reads the file with the tokens \<open>"?"\<close> and the empty
  string as missing values. Let the reader deliver the chunks \<open>chunks\<close> of the file, let
  the transformation return \<open>outs\<close> on the chunks after the checkpoint and let no
  database failure occur on them. Then the chunks cover the records of the file in
  order; in every chunk each field of a column whose source text is \<open>"?"\<close> or empty is
  the missing value, and no cell of a chunk is the string \<open>"?"\<close> or the empty string;
  and it is on these chunks that the load calls the transformation: the load completes,
  calls the transformation once for each chunk after the checkpoint, in order, and the
  rows it appends to the table are the rows of \<open>outs\<close>. (The fields of a record that
  pandas takes as row labels are not among the columns.)
\<close>

theorem process_csv_to_db_missing_values:
  assumes fl: "open_file fs filepath = Some f"
    and rd: "read_csv_chunks (to_numeric ext) missing_values f n = Inr (map Inr chunks)"
    and tf: "list_all2 (\<lambda>c out. transform_func c = Inr out)
               (drop (last_committed db t) chunks) outs"
    and nofault: "\<forall>j. last_committed db t < j \<and> j \<le> length chunks
                      \<longrightarrow> db_fault ext t j = None"
  shows "concat (csv_chunks (nat n) f) = records f
       \<and> length chunks = length (csv_chunks (nat n) f)
       \<and> (\<forall>c < length chunks.
             length (rows (chunks ! c)) = length (csv_chunks (nat n) f ! c)
             \<and> (\<forall>r < length (rows (chunks ! c)). \<forall>j < length (header f).
                   raw_field (csv_chunks (nat n) f ! c ! r) (implicit_index f + j) = ''?''
                     \<or> raw_field (csv_chunks (nat n) f ! c ! r) (implicit_index f + j) = ''''
                   \<longrightarrow> cell_at (rows (chunks ! c) ! r) j = NoneV))
       \<and> (\<forall>chunk \<in> set chunks. \<forall>row \<in> set (rows chunk). \<forall>v \<in> set row.
             v \<noteq> Str ''?'' \<and> v \<noteq> Str '''')
       \<and> (\<exists>db'. process_csv_to_db ext fs filepath t db n transform_func
                    = (db',
                       Started t # CheckpointRead t
                         # concat (map (\<lambda>i. [TransformCall t i, CommitCall t i, Committed t i])
                                    [Suc (last_committed db t) ..< Suc (length chunks)])
                         @ [Completed t],
                       Inr ())
                \<and> stored_rows db' t = stored_rows db t @ concat (map named_rows outs))"
proof -
  let ?tn = "to_numeric ext"
  let ?cs = "csv_chunks (nat n) f"
  from rd have n: "1 \<le> n"
    and reader: "map Inr chunks
                   = map (parse_chunk ?tn missing_values (header f) (implicit_index f)) ?cs"
    by (auto simp: read_csv_chunks_def split: if_splits)
  from reader have len: "length chunks = length ?cs"
    using length_map by metis
  have pc: "parse_chunk ?tn missing_values (header f) (implicit_index f) (?cs ! c)
              = Inr (chunks ! c)" if "c < length chunks" for c
  proof -
    have "Inr (chunks ! c) = map Inr chunks ! c"
      using that by simp
    also have "\<dots> = map (parse_chunk ?tn missing_values (header f) (implicit_index f)) ?cs ! c"
      by (simp only: reader)
    also have "\<dots> = parse_chunk ?tn missing_values (header f) (implicit_index f) (?cs ! c)"
      using that len by simp
    finally show ?thesis by simp
  qed
  have 1: "concat ?cs = records f"
    using n by (simp add: concat_csv_chunks)
  have 3: "\<forall>c < length chunks.
             length (rows (chunks ! c)) = length (?cs ! c)
             \<and> (\<forall>r < length (rows (chunks ! c)). \<forall>j < length (header f).
                   raw_field (?cs ! c ! r) (implicit_index f + j) = ''?''
                     \<or> raw_field (?cs ! c ! r) (implicit_index f + j) = ''''
                   \<longrightarrow> cell_at (rows (chunks ! c) ! r) j = NoneV)"
  proof (intro allI impI conjI)
    fix c assume c: "c < length chunks"
    show l: "length (rows (chunks ! c)) = length (?cs ! c)"
      using parse_chunk_shape(2) [OF pc [OF c]] .
    fix r j
    assume r: "r < length (rows (chunks ! c))" and j: "j < length (header f)"
      and tok: "raw_field (?cs ! c ! r) (implicit_index f + j) = ''?''
                  \<or> raw_field (?cs ! c ! r) (implicit_index f + j) = ''''"
    from tok have "raw_field (?cs ! c ! r) (implicit_index f + j) \<in> set missing_values"
      by (auto simp: missing_values_def)
    with parse_chunk_cell [OF pc [OF c] _ j, of r] r l
    show "cell_at (rows (chunks ! c) ! r) j = NoneV" by (simp add: parse_field_na)
  qed
  have 4: "\<forall>chunk \<in> set chunks. \<forall>row \<in> set (rows chunk). \<forall>v \<in> set row.
             v \<noteq> Str ''?'' \<and> v \<noteq> Str ''''"
  proof (intro ballI)
    fix chunk row v
    assume chunk: "chunk \<in> set chunks" and row: "row \<in> set (rows chunk)" and v: "v \<in> set row"
    from chunk obtain c where c: "c < length chunks" and ch: "chunk = chunks ! c"
      by (auto simp: in_set_conv_nth)
    note p = pc [OF c, folded ch]
    show "v \<noteq> Str ''?'' \<and> v \<noteq> Str ''''"
      using parse_chunk_no_token [OF p row v, of "''?''"]
        parse_chunk_no_token [OF p row v, of "''''"]
      by (simp add: missing_values_def)
  qed
  let ?db' = "after_commits t (max (last_committed db t) (length chunks)) outs
                (setup_etl_log_table db)"
  have run: "process_csv_to_db ext fs filepath t db n transform_func
               = (?db',
                  Started t # CheckpointRead t
                    # concat (map (\<lambda>i. [TransformCall t i, CommitCall t i, Committed t i])
                               [Suc (last_committed db t) ..< Suc (length chunks)])
                    @ [Completed t],
                  Inr ())"
    using process_csv_to_db_loads [OF fl rd tf nofault]
    by (simp only: chunk_events_def [abs_def])
  have rows: "stored_rows ?db' t = stored_rows db t @ concat (map named_rows outs)"
    by (simp add: stored_rows_after_commits)
  have 5: "\<exists>db'. process_csv_to_db ext fs filepath t db n transform_func
                    = (db',
                       Started t # CheckpointRead t
                         # concat (map (\<lambda>i. [TransformCall t i, CommitCall t i, Committed t i])
                                    [Suc (last_committed db t) ..< Suc (length chunks)])
                         @ [Completed t],
                       Inr ())
                \<and> stored_rows db' t = stored_rows db t @ concat (map named_rows outs)"
    by (rule exI [of _ ?db'], rule conjI) (rule run, rule rows)
  show ?thesis
    by (intro conjI) (rule 1, rule len, rule 3, rule 4, rule 5)
qed

theorem process_csv_to_db_missing_values_witness:
  "open_file example_fs (''./data/'', ''studentAssessment.csv'') = Some example_file
   \<and> read_csv_chunks decimal missing_values example_file 2
        = Inr [Inr example_chunk1, Inr example_chunk2]
   \<and> raw_field (csv_chunks (nat 2) example_file ! 0 ! 0) 1 = ''?''
   \<and> cell_at (rows example_chunk1 ! 0) 1 = NoneV
   \<and> raw_field (csv_chunks (nat 2) example_file ! 0 ! 1) 1 = ''''
   \<and> cell_at (rows example_chunk1 ! 1) 1 = NoneV
   \<and> (\<exists>db'. process_csv_to_db example_ext example_fs (''./data/'', ''studentAssessment.csv'')
                ''studentAssessment'' empty_db 2 transform_generic
              = (db',
                 [Started ''studentAssessment'', CheckpointRead ''studentAssessment'',
                  TransformCall ''studentAssessment'' 1, CommitCall ''studentAssessment'' 1,
                  Committed ''studentAssessment'' 1,
                  TransformCall ''studentAssessment'' 2, CommitCall ''studentAssessment'' 2,
                  Committed ''studentAssessment'' 2, Completed ''studentAssessment''],
                 Inr ())
            \<and> stored_rows db' ''studentAssessment''
                 = [[(''id_student'', Num (Fin 11391)), (''score'', NoneV)],
                    [(''id_student'', Num (Fin 28400)), (''score'', NoneV)],
                    [(''id_student'', Num (Fin 31604)), (''score'', Num (Fin 75))]])"
proof -
  let ?t = "''studentAssessment''"
  let ?chunks = "[example_chunk1, example_chunk2]"
  have fl: "open_file example_fs (''./data/'', ?t @ ''.csv'') = Some example_file"
    by (simp add: open_file_def example_fs_def)
  have rd: "read_csv_chunks (to_numeric example_ext) missing_values example_file 2
              = Inr (map Inr ?chunks)"
    using example_file_chunks by (simp add: example_ext_def)
  have k: "last_committed empty_db ?t = 0"
    by (simp add: last_committed_def log_entries_def empty_db_def)
  have tf: "list_all2 (\<lambda>c out. transform_generic c = Inr out)
              (drop (last_committed empty_db ?t) ?chunks) ?chunks"
    by (simp add: k transform_generic_def)
  have nf: "\<forall>j. last_committed empty_db ?t < j \<and> j \<le> length ?chunks
              \<longrightarrow> db_fault example_ext ?t j = None"
    by (simp add: example_ext_def)
  note th = process_csv_to_db_missing_values [OF fl rd tf nf]
  from th have cells: "\<forall>c < length ?chunks.
             length (rows (?chunks ! c)) = length (csv_chunks (nat 2) example_file ! c)
             \<and> (\<forall>r < length (rows (?chunks ! c)). \<forall>j < length (header example_file).
                   raw_field (csv_chunks (nat 2) example_file ! c ! r)
                       (implicit_index example_file + j) = ''?''
                     \<or> raw_field (csv_chunks (nat 2) example_file ! c ! r)
                       (implicit_index example_file + j) = ''''
                   \<longrightarrow> cell_at (rows (?chunks ! c) ! r) j = NoneV)"
    by (elim conjE)
  have ix: "implicit_index example_file = 0"
    by (simp add: implicit_index_def example_file_def)
  from cells have all: "\<forall>r < length (rows example_chunk1). \<forall>j < length (header example_file).
             raw_field (csv_chunks (nat 2) example_file ! 0 ! r) j = ''?''
               \<or> raw_field (csv_chunks (nat 2) example_file ! 0 ! r) j = ''''
             \<longrightarrow> cell_at (rows example_chunk1 ! r) j = NoneV"
    unfolding ix by fastforce
  have r0: "0 < length (rows example_chunk1)" and r1: "1 < length (rows example_chunk1)"
    by (simp_all add: example_chunk1_def)
  have j: "1 < length (header example_file)"
    by (simp add: example_file_def)
  have a: "cell_at (rows example_chunk1 ! 0) 1 = NoneV"
    using all r0 j example_file_raw(1) by blast
  have b: "cell_at (rows example_chunk1 ! 1) 1 = NoneV"
    using all r1 j example_file_raw(2) by blast
  from th obtain db' where
    run: "process_csv_to_db example_ext example_fs (''./data/'', ?t @ ''.csv'') ?t empty_db 2
            transform_generic
          = (db',
             Started ?t # CheckpointRead ?t
               # concat (map (\<lambda>i. [TransformCall ?t i, CommitCall ?t i, Committed ?t i])
                          [Suc (last_committed empty_db ?t) ..< Suc (length ?chunks)])
               @ [Completed ?t],
             Inr ())"
    and st: "stored_rows db' ?t
               = stored_rows empty_db ?t @ concat (map named_rows ?chunks)"
    by blast
  have evs: "concat (map (\<lambda>i. [TransformCall ?t i, CommitCall ?t i, Committed ?t i])
                      [Suc (last_committed empty_db ?t) ..< Suc (length ?chunks)])
             = [TransformCall ?t 1, CommitCall ?t 1, Committed ?t 1,
                TransformCall ?t 2, CommitCall ?t 2, Committed ?t 2]"
    by (simp add: k upt_rec numeral_2_eq_2)
  have rows: "stored_rows empty_db ?t @ concat (map named_rows ?chunks)
              = [[(''id_student'', Num (Fin 11391)), (''score'', NoneV)],
                 [(''id_student'', Num (Fin 28400)), (''score'', NoneV)],
                 [(''id_student'', Num (Fin 31604)), (''score'', Num (Fin 75))]]"
    by (simp add: stored_rows_def empty_db_def named_rows_def example_chunk1_def
        example_chunk2_def)
  have last: "\<exists>db'. process_csv_to_db example_ext example_fs (''./data/'', ?t @ ''.csv'') ?t
                empty_db 2 transform_generic
              = (db',
                 [Started ?t, CheckpointRead ?t,
                  TransformCall ?t 1, CommitCall ?t 1, Committed ?t 1,
                  TransformCall ?t 2, CommitCall ?t 2, Committed ?t 2, Completed ?t],
                 Inr ())
            \<and> stored_rows db' ?t
                 = [[(''id_student'', Num (Fin 11391)), (''score'', NoneV)],
                    [(''id_student'', Num (Fin 28400)), (''score'', NoneV)],
                    [(''id_student'', Num (Fin 31604)), (''score'', Num (Fin 75))]]"
    using run [unfolded evs] st [unfolded rows] by (intro exI [of _ db']) simp
  show ?thesis
    using fl example_file_chunks example_file_raw a b last by simp
qed

section \<open>Aborting a run\<close>

text \<open>
  Claim C6 fails on the code as it is stated: \<open>run_full_etl\<close> itself rejects a source
  only when its folder does not exist. The check of the required files
  (\<open>validate_data_source\<close>) belongs to the caller in main\_etl.py. A folder that has
  \<open>courses.csv\<close> but lacks \<open>studentInfo.csv\<close> is invalid for \<open>validate_data_source\<close>,
  and \<open>run_full_etl\<close> loads its course table.
\<close>

theorem run_full_etl_loads_invalid_source:
  "\<not> validate_data_source courses_only ''./data/''
   \<and> run_full_etl example_ext courses_only empty_db example_config False
       = (db_courses_only, table_events ''courses'' @ [SourceDone ''./data/''], Inr ())
   \<and> stored_rows empty_db ''courses'' = []
   \<and> stored_rows db_courses_only ''courses'' = [courses_row_a]
   \<and> last_committed empty_db ''courses'' = 0
   \<and> last_committed db_courses_only ''courses'' = 1"
  by (simp add: validate_data_source_def courses_only_def eval_run example_config_def
      db_courses_only_def)

text \<open>
  Claim C6, amended. If the folder of the source does not exist or \<open>courses.csv\<close> is
  absent from it, \<open>run_full_etl\<close> returns normally before any table is loaded: no table
  load is started and nothing is committed; such a source is also rejected by
  \<open>validate_data_source\<close>. When the folder does not exist the database is unchanged.
  When no reset was requested, no stored row and no checkpoint is changed.
\<close>

theorem run_full_etl_aborts:
  assumes "\<not> os_path_exists fs (os_path_join (etl_data_path cfg) ''courses.csv'')"
  shows "\<exists>db' evs. run_full_etl ext fs db cfg clear = (db', evs, Inr ())
           \<and> started_tables evs = []
           \<and> commits evs = []
           \<and> \<not> validate_data_source fs (etl_data_path cfg)
           \<and> (fs (etl_data_path cfg) = None \<longrightarrow> db' = db)
           \<and> (\<not> clear \<longrightarrow> tables db' = tables db \<and> log_entries db' = log_entries db)"
proof -
  from assms have nc: "open_file fs (os_path_join (etl_data_path cfg) ''courses.csv'') = None"
    by (simp add: os_path_exists_def)
  have nv: "\<not> validate_data_source fs (etl_data_path cfg)"
    using assms by (simp add: validate_data_source_def)
  show ?thesis
  proof (cases "fs (etl_data_path cfg)")
    case None
    then show ?thesis
      using nv by (simp add: run_full_etl_def is_valid_summary Let_def)
  next
    case (Some dir)
    then show ?thesis
      using nv nc by (simp add: run_full_etl_def is_valid_summary Let_def)
  qed
qed

theorem run_full_etl_aborts_witness:
  "\<not> os_path_exists students_only (os_path_join ''./data/'' ''courses.csv'')
   \<and> run_full_etl example_ext students_only db_after_a example_config False
       = (db_after_a, [CoursesMissing ''./data/''], Inr ())"
proof -
  have h: "\<not> os_path_exists students_only
               (os_path_join (etl_data_path example_config) ''courses.csv'')"
    by (simp add: os_path_exists_def open_file_def os_path_join_def students_only_def
        example_config_def)
  from run_full_etl_aborts [OF h, of example_ext db_after_a False]
  obtain db' evs where
    run: "run_full_etl example_ext students_only db_after_a example_config False
            = (db', evs, Inr ())"
    and ev: "started_tables evs = []" and t: "tables db' = tables db_after_a"
    by blast
  have "run_full_etl example_ext students_only db_after_a example_config False
          = (db_after_a, [CoursesMissing ''./data/''], Inr ())"
    by (simp add: run_full_etl_def is_valid_summary Let_def students_only_def
        example_config_def open_file_def os_path_join_def setup_etl_log_table_def
        db_after_a_def)
  with run have eq: "db' = db_after_a" "evs = [CoursesMissing ''./data/'']" by simp_all
  show ?thesis
    using h run unfolding eq by (simp add: example_config_def)
qed

text \<open>With a reset requested, the tables and the checkpoints are cleared before the
  missing course file is noticed.\<close>

lemma run_full_etl_reset_before_abort:
  "run_full_etl example_ext students_only db_after_a example_config True
     = (db_cleared, [ResetCall, CoursesMissing ''./data/''], Inr ())"
  by (simp add: run_full_etl_def is_valid_summary Let_def students_only_def
      example_config_def open_file_def os_path_join_def setup_etl_log_table_def
      db_after_a_def clear_data_tables_def data_tables_def table_exists_def
      clear_etl_logs_def db_cleared_def)

section \<open>Containment of a failure in its table\<close>

text \<open>
  Claim C7. (1) Whatever happens while the chunks of a table are read, transformed or
  committed, \<open>process_csv_to_db\<close> returns normally; the chunks it has committed are
  consecutive from the checkpoint on, their rows are the rows appended to the table and
  the checkpoint is the index of the last of them; the other tables and checkpoints are
  unchanged; a failure message is the last thing that happens in the load.
  (2) Let the chunks \<open>good\<close> before chunk \<open>i\<close> be readable, and those of them after the
  checkpoint be transformed and committed without failure, and let chunk \<open>i\<close> fail with
  the exception \<open>e\<close>: it cannot be read, or it lies after the checkpoint and its
  transformation raises \<open>e\<close>, or its transaction fails. Then the load does what it does
  for the chunks before \<open>i\<close>, reports the failure \<open>e\<close> as its last action and returns
  normally; no chunk from \<open>i\<close> on is committed, the rows appended are those of the
  committed chunks before \<open>i\<close>, and the checkpoint is \<open>i - 1\<close> (or stays where it was
  when it was beyond).
  (3) In a run whose course table could be preloaded, every table of the source is
  loaded by \<open>process_csv_to_db\<close>, in the order of the run, from the database that the
  load before it has left, whatever that load did; each of these loads returns normally,
  the trace of the run is the sequence of their traces, and the run returns normally
  with the database that the last load has left.
  (4) When the reader itself cannot be created (a chunk size below 1), the load reports
  this failure at once and returns normally, with nothing committed.
\<close>

theorem table_failure_is_contained:
  "(\<exists>db' evs. process_csv_to_db ext fs filepath t db n tf = (db', evs, Inr ())
       \<and> (\<exists>cm. commits evs = map (Pair t) [Suc (last_committed db t)
                                               ..< Suc (last_committed db t) + length cm]
              \<and> stored_rows db' t = stored_rows db t @ concat (map named_rows cm)
              \<and> last_committed db' t = last_committed db t + length cm
              \<and> (\<forall>f reader. open_file fs filepath = Some f
                    \<and> read_csv_chunks (to_numeric ext) missing_values f n = Inr reader
                    \<longrightarrow> (\<forall>j < length cm. \<exists>c. reader ! (last_committed db t + j) = Inr c
                                               \<and> tf c = Inr (cm ! j))))
       \<and> (\<forall>t'. t' \<noteq> t \<longrightarrow> stored_rows db' t' = stored_rows db t'
                          \<and> last_committed db' t' = last_committed db t')
       \<and> (\<forall>e. Failed t e \<in> set evs \<longrightarrow> last evs = Failed t e))
   \<and> (open_file fs filepath = Some f
        \<and> read_csv_chunks (to_numeric ext) missing_values f n = Inr (map Inr good @ x # rest)
        \<and> list_all2 (\<lambda>c out. tf c = Inr out) (drop (last_committed db t) good) outs
        \<and> (\<forall>j. last_committed db t < j \<and> j \<le> length good \<longrightarrow> db_fault ext t j = None)
        \<and> ((x = Inl e \<and> fevs = [])
            \<or> (last_committed db t \<le> length good \<and> (\<exists>c. x = Inr c \<and> tf c = Inl e)
                 \<and> fevs = [TransformCall t (Suc (length good))])
            \<or> (last_committed db t \<le> length good
                 \<and> (\<exists>c out fault. x = Inr c \<and> tf c = Inr out
                        \<and> db_fault ext t (Suc (length good)) = Some fault)
                 \<and> e = DatabaseError
                 \<and> fevs = [TransformCall t (Suc (length good)),
                            CommitCall t (Suc (length good))]))
      \<longrightarrow> (\<exists>db'. process_csv_to_db ext fs filepath t db n tf
                    = (db',
                       Started t # CheckpointRead t
                         # concat (map (chunk_events t)
                                    [Suc (last_committed db t) ..< Suc (length good)])
                         @ fevs @ [Failed t e],
                       Inr ())
                \<and> stored_rows db' t = stored_rows db t @ concat (map named_rows outs)
                \<and> last_committed db' t = max (last_committed db t) (length good)
                \<and> (\<forall>t'. t' \<noteq> t \<longrightarrow> stored_rows db' t' = stored_rows db t'
                                   \<and> last_committed db' t' = last_committed db t')))
   \<and> (\<forall>cf cdf. open_file fs (os_path_join (etl_data_path cfg) ''courses.csv'') = Some cf
          \<and> read_csv (to_numeric ext) [] cf = Inr cdf
        \<longrightarrow> (\<exists>dbs trs.
               length dbs = Suc (length (available_tables fs (etl_data_path cfg)))
               \<and> length trs = length (available_tables fs (etl_data_path cfg))
               \<and> dbs ! 0 = setup_etl_log_table (if clear then clear_data_tables db0 else db0)
               \<and> (\<forall>p < length (available_tables fs (etl_data_path cfg)).
                    \<exists>func. etl_plan ext cdf (available_tables fs (etl_data_path cfg) ! p)
                             = Some func
                     \<and> process_csv_to_db ext fs
                          (os_path_join (etl_data_path cfg)
                             (available_tables fs (etl_data_path cfg) ! p @ ''.csv''))
                          (available_tables fs (etl_data_path cfg) ! p) (dbs ! p)
                          (etl_batch_size cfg) func
                        = (dbs ! Suc p, trs ! p, Inr ()))
               \<and> run_full_etl ext fs db0 cfg clear
                    = (dbs ! length (available_tables fs (etl_data_path cfg)),
                       (if clear then [ResetCall] else []) @ concat trs
                         @ [SourceDone (etl_data_path cfg)],
                       Inr ())))
   \<and> (open_file fs filepath = Some f
        \<and> read_csv_chunks (to_numeric ext) missing_values f n = Inl e
      \<longrightarrow> process_csv_to_db ext fs filepath t db n tf
            = (setup_etl_log_table db, [Started t, CheckpointRead t, Failed t e], Inr ()))"
proof (intro conjI)
  obtain db' evs r where run: "process_csv_to_db ext fs filepath t db n tf = (db', evs, r)"
    by (metis prod_cases3)
  from process_csv_to_db_general [OF run] have r: "r = Inr ()" by blast
  show "\<exists>db' evs. process_csv_to_db ext fs filepath t db n tf = (db', evs, Inr ())
       \<and> (\<exists>cm. commits evs = map (Pair t) [Suc (last_committed db t)
                                               ..< Suc (last_committed db t) + length cm]
              \<and> stored_rows db' t = stored_rows db t @ concat (map named_rows cm)
              \<and> last_committed db' t = last_committed db t + length cm
              \<and> (\<forall>f reader. open_file fs filepath = Some f
                    \<and> read_csv_chunks (to_numeric ext) missing_values f n = Inr reader
                    \<longrightarrow> (\<forall>j < length cm. \<exists>c. reader ! (last_committed db t + j) = Inr c
                                               \<and> tf c = Inr (cm ! j))))
       \<and> (\<forall>t'. t' \<noteq> t \<longrightarrow> stored_rows db' t' = stored_rows db t'
                          \<and> last_committed db' t' = last_committed db t')
       \<and> (\<forall>e. Failed t e \<in> set evs \<longrightarrow> last evs = Failed t e)"
    using process_csv_to_db_general [OF run] run unfolding r
    by (intro exI [of _ db'] exI [of _ evs]) simp
next
  show "open_file fs filepath = Some f
        \<and> read_csv_chunks (to_numeric ext) missing_values f n = Inr (map Inr good @ x # rest)
        \<and> list_all2 (\<lambda>c out. tf c = Inr out) (drop (last_committed db t) good) outs
        \<and> (\<forall>j. last_committed db t < j \<and> j \<le> length good \<longrightarrow> db_fault ext t j = None)
        \<and> ((x = Inl e \<and> fevs = [])
            \<or> (last_committed db t \<le> length good \<and> (\<exists>c. x = Inr c \<and> tf c = Inl e)
                 \<and> fevs = [TransformCall t (Suc (length good))])
            \<or> (last_committed db t \<le> length good
                 \<and> (\<exists>c out fault. x = Inr c \<and> tf c = Inr out
                        \<and> db_fault ext t (Suc (length good)) = Some fault)
                 \<and> e = DatabaseError
                 \<and> fevs = [TransformCall t (Suc (length good)),
                            CommitCall t (Suc (length good))]))
      \<longrightarrow> (\<exists>db'. process_csv_to_db ext fs filepath t db n tf
                    = (db',
                       Started t # CheckpointRead t
                         # concat (map (chunk_events t)
                                    [Suc (last_committed db t) ..< Suc (length good)])
                         @ fevs @ [Failed t e],
                       Inr ())
                \<and> stored_rows db' t = stored_rows db t @ concat (map named_rows outs)
                \<and> last_committed db' t = max (last_committed db t) (length good)
                \<and> (\<forall>t'. t' \<noteq> t \<longrightarrow> stored_rows db' t' = stored_rows db t'
                                   \<and> last_committed db' t' = last_committed db t'))"
  proof (rule impI, elim conjE)
    assume fl: "open_file fs filepath = Some f"
      and rd: "read_csv_chunks (to_numeric ext) missing_values f n
                 = Inr (map Inr good @ x # rest)"
      and tf: "list_all2 (\<lambda>c out. tf c = Inr out) (drop (last_committed db t) good) outs"
      and nofault: "\<forall>j. last_committed db t < j \<and> j \<le> length good
                        \<longrightarrow> db_fault ext t j = None"
      and fails: "(x = Inl e \<and> fevs = [])
            \<or> (last_committed db t \<le> length good \<and> (\<exists>c. x = Inr c \<and> tf c = Inl e)
                 \<and> fevs = [TransformCall t (Suc (length good))])
            \<or> (last_committed db t \<le> length good
                 \<and> (\<exists>c out fault. x = Inr c \<and> tf c = Inr out
                        \<and> db_fault ext t (Suc (length good)) = Some fault)
                 \<and> e = DatabaseError
                 \<and> fevs = [TransformCall t (Suc (length good)),
                            CommitCall t (Suc (length good))])"
    show "\<exists>db'. process_csv_to_db ext fs filepath t db n tf
                    = (db',
                       Started t # CheckpointRead t
                         # concat (map (chunk_events t)
                                    [Suc (last_committed db t) ..< Suc (length good)])
                         @ fevs @ [Failed t e],
                       Inr ())
                \<and> stored_rows db' t = stored_rows db t @ concat (map named_rows outs)
                \<and> last_committed db' t = max (last_committed db t) (length good)
                \<and> (\<forall>t'. t' \<noteq> t \<longrightarrow> stored_rows db' t' = stored_rows db t'
                                   \<and> last_committed db' t' = last_committed db t')"
      by (rule process_csv_to_db_failure [OF fl rd tf nofault fails])
  qed
next
  show "\<forall>cf cdf. open_file fs (os_path_join (etl_data_path cfg) ''courses.csv'') = Some cf
          \<and> read_csv (to_numeric ext) [] cf = Inr cdf
        \<longrightarrow> (\<exists>dbs trs.
               length dbs = Suc (length (available_tables fs (etl_data_path cfg)))
               \<and> length trs = length (available_tables fs (etl_data_path cfg))
               \<and> dbs ! 0 = setup_etl_log_table (if clear then clear_data_tables db0 else db0)
               \<and> (\<forall>p < length (available_tables fs (etl_data_path cfg)).
                    \<exists>func. etl_plan ext cdf (available_tables fs (etl_data_path cfg) ! p)
                             = Some func
                     \<and> process_csv_to_db ext fs
                          (os_path_join (etl_data_path cfg)
                             (available_tables fs (etl_data_path cfg) ! p @ ''.csv''))
                          (available_tables fs (etl_data_path cfg) ! p) (dbs ! p)
                          (etl_batch_size cfg) func
                        = (dbs ! Suc p, trs ! p, Inr ()))
               \<and> run_full_etl ext fs db0 cfg clear
                    = (dbs ! length (available_tables fs (etl_data_path cfg)),
                       (if clear then [ResetCall] else []) @ concat trs
                         @ [SourceDone (etl_data_path cfg)],
                       Inr ()))"
  proof (intro allI impI, elim conjE)
    fix cf cdf
    assume cf: "open_file fs (os_path_join (etl_data_path cfg) ''courses.csv'') = Some cf"
      and cdf: "read_csv (to_numeric ext) [] cf = Inr cdf"
    show "\<exists>dbs trs.
               length dbs = Suc (length (available_tables fs (etl_data_path cfg)))
               \<and> length trs = length (available_tables fs (etl_data_path cfg))
               \<and> dbs ! 0 = setup_etl_log_table (if clear then clear_data_tables db0 else db0)
               \<and> (\<forall>p < length (available_tables fs (etl_data_path cfg)).
                    \<exists>func. etl_plan ext cdf (available_tables fs (etl_data_path cfg) ! p)
                             = Some func
                     \<and> process_csv_to_db ext fs
                          (os_path_join (etl_data_path cfg)
                             (available_tables fs (etl_data_path cfg) ! p @ ''.csv''))
                          (available_tables fs (etl_data_path cfg) ! p) (dbs ! p)
                          (etl_batch_size cfg) func
                        = (dbs ! Suc p, trs ! p, Inr ()))
               \<and> run_full_etl ext fs db0 cfg clear
                    = (dbs ! length (available_tables fs (etl_data_path cfg)),
                       (if clear then [ResetCall] else []) @ concat trs
                         @ [SourceDone (etl_data_path cfg)],
                       Inr ())"
      by (rule run_full_etl_sequence [OF cf cdf])
  qed
next
  show "open_file fs filepath = Some f
        \<and> read_csv_chunks (to_numeric ext) missing_values f n = Inl e
      \<longrightarrow> process_csv_to_db ext fs filepath t db n tf
            = (setup_etl_log_table db, [Started t, CheckpointRead t, Failed t e], Inr ())"
    by (simp add: process_csv_to_db_def get_last_processed_chunk_def)
qed

theorem table_failure_is_contained_witness:
  "(\<exists>db'. process_csv_to_db example_ext failing_source (''./data/'', ''studentAssessment.csv'')
            ''studentAssessment'' empty_db 1 (transform_student_assessment decimal)
          = (db',
             [Started ''studentAssessment'', CheckpointRead ''studentAssessment'',
              TransformCall ''studentAssessment'' 1, CommitCall ''studentAssessment'' 1,
              Committed ''studentAssessment'' 1, TransformCall ''studentAssessment'' 2,
              Failed ''studentAssessment'' ValueError],
             Inr ())
        \<and> stored_rows db' ''studentAssessment''
             = [[(''id_student'', Num (Fin 11391)), (''score'', Num (Fin 75)),
                 (''assessment_result'', Str ''Pass'')]]
        \<and> last_committed db' ''studentAssessment'' = 1)
   \<and> (\<exists>dbs trs. length trs = 3
        \<and> run_full_etl example_ext failing_source empty_db one_by_one False
            = (dbs ! 3, concat trs @ [SourceDone ''./data/''], Inr ())
        \<and> process_csv_to_db example_ext failing_source (''./data/'', ''studentVle.csv'')
             ''studentVle'' (dbs ! 2) 1 transform_generic
            = (dbs ! 3, trs ! 2, Inr ()))
   \<and> process_csv_to_db example_ext failing_source (''./data/'', ''studentAssessment.csv'')
        ''studentAssessment'' empty_db 0 (transform_student_assessment decimal)
       = (setup_etl_log_table empty_db,
          [Started ''studentAssessment'', CheckpointRead ''studentAssessment'',
           Failed ''studentAssessment'' ValueError],
          Inr ())"
proof -
  let ?t = "''studentAssessment''"
  let ?tf = "transform_student_assessment decimal"
  note th = table_failure_is_contained [where ext = example_ext and fs = failing_source
      and filepath = "(''./data/'', ''studentAssessment.csv'')" and t = ?t and db = empty_db
      and n = 1 and tf = ?tf and f = bad_scores_file and good = "[bad_chunk1]"
      and x = "Inr bad_chunk2" and rest = "[Inr bad_chunk3]" and outs = "[bad_out1]"
      and e = ValueError and fevs = "[TransformCall ''studentAssessment'' 2]"
      and cfg = one_by_one and clear = False and ?db0.0 = empty_db]
  have fl: "open_file failing_source (''./data/'', ''studentAssessment.csv'')
              = Some bad_scores_file"
    by (simp add: open_file_def failing_source_def)
  have rd: "read_csv_chunks (to_numeric example_ext) missing_values bad_scores_file 1
              = Inr (map Inr [bad_chunk1] @ Inr bad_chunk2 # [Inr bad_chunk3])"
    by (simp add: example_ext_def eval_reader bad_scores_file_def bad_chunk1_def
        bad_chunk2_def bad_chunk3_def decimal_def)
  have k: "last_committed empty_db ?t = 0"
    by (simp add: last_committed_def log_entries_def empty_db_def)
  have tf: "list_all2 (\<lambda>c out. ?tf c = Inr out)
              (drop (last_committed empty_db ?t) [bad_chunk1]) [bad_out1]"
    by (simp add: k transform_student_assessment_def classify_score_def set_column_def
        cell_at_def bad_chunk1_def bad_out1_def)
  have nf: "\<forall>j. last_committed empty_db ?t < j \<and> j \<le> length [bad_chunk1]
              \<longrightarrow> db_fault example_ext ?t j = None"
    by (simp add: example_ext_def)
  have bad: "?tf bad_chunk2 = Inl ValueError"
    by (simp add: transform_student_assessment_def classify_score_def cell_at_def
        bad_chunk2_def decimal_def)
  have fails: "(Inr bad_chunk2 = (Inl ValueError :: error + frame)
                  \<and> [TransformCall ?t 2] = [])
       \<or> (last_committed empty_db ?t \<le> length [bad_chunk1]
            \<and> (\<exists>c. (Inr bad_chunk2 :: error + frame) = Inr c \<and> ?tf c = Inl ValueError)
            \<and> [TransformCall ?t 2] = [TransformCall ?t (Suc (length [bad_chunk1]))])
       \<or> (last_committed empty_db ?t \<le> length [bad_chunk1]
            \<and> (\<exists>c out fault. (Inr bad_chunk2 :: error + frame) = Inr c \<and> ?tf c = Inr out
                   \<and> db_fault example_ext ?t (Suc (length [bad_chunk1])) = Some fault)
            \<and> ValueError = DatabaseError
            \<and> [TransformCall ?t 2]
                = [TransformCall ?t (Suc (length [bad_chunk1])),
                   CommitCall ?t (Suc (length [bad_chunk1]))])"
    by (rule disjI2, rule disjI1) (simp add: k bad)
  from th [THEN conjunct2, THEN conjunct1, rule_format,
      OF conjI [OF fl conjI [OF rd conjI [OF tf conjI [OF nf fails]]]]]
  obtain db1 where
    run1: "process_csv_to_db example_ext failing_source (''./data/'', ''studentAssessment.csv'')
             ?t empty_db 1 ?tf
           = (db1,
              Started ?t # CheckpointRead ?t
                # concat (map (chunk_events ?t)
                           [Suc (last_committed empty_db ?t) ..< Suc (length [bad_chunk1])])
                @ [TransformCall ?t 2] @ [Failed ?t ValueError],
              Inr ())"
    and st1: "stored_rows db1 ?t
                = stored_rows empty_db ?t @ concat (map named_rows [bad_out1])"
    and ck1: "last_committed db1 ?t = max (last_committed empty_db ?t) (length [bad_chunk1])"
    by (elim exE conjE)
  have evs: "Started ?t # CheckpointRead ?t
                # concat (map (chunk_events ?t)
                           [Suc (last_committed empty_db ?t) ..< Suc (length [bad_chunk1])])
                @ [TransformCall ?t 2] @ [Failed ?t ValueError]
             = [Started ?t, CheckpointRead ?t, TransformCall ?t 1, CommitCall ?t 1,
                Committed ?t 1, TransformCall ?t 2, Failed ?t ValueError]"
    by (simp add: k chunk_events_def)
  have rows: "stored_rows empty_db ?t @ concat (map named_rows [bad_out1])
              = [[(''id_student'', Num (Fin 11391)), (''score'', Num (Fin 75)),
                  (''assessment_result'', Str ''Pass'')]]"
    by (simp add: stored_rows_def empty_db_def named_rows_def bad_out1_def)
  have a: "\<exists>db'. process_csv_to_db example_ext failing_source
                  (''./data/'', ''studentAssessment.csv'') ?t empty_db 1 ?tf
                = (db',
                   [Started ?t, CheckpointRead ?t, TransformCall ?t 1, CommitCall ?t 1,
                    Committed ?t 1, TransformCall ?t 2, Failed ?t ValueError],
                   Inr ())
              \<and> stored_rows db' ?t
                   = [[(''id_student'', Num (Fin 11391)), (''score'', Num (Fin 75)),
                       (''assessment_result'', Str ''Pass'')]]
              \<and> last_committed db' ?t = 1"
    using run1 [unfolded evs] st1 [unfolded rows] ck1 [unfolded k]
    by (intro exI [of _ db1]) simp
  have cf: "open_file failing_source (os_path_join (etl_data_path one_by_one) ''courses.csv'')
              = Some \<lparr>header = courses_header, records = [[''AAA'', ''2013J'', ''268'']]\<rparr>"
    by (simp add: open_file_def os_path_join_def one_by_one_def failing_source_def)
  have cdf: "read_csv (to_numeric example_ext) []
               \<lparr>header = courses_header, records = [[''AAA'', ''2013J'', ''268'']]\<rparr>
             = Inr \<lparr>columns = courses_header,
                    rows = [[Str ''AAA'', Str ''2013J'', Num (Fin 268)]]\<rparr>"
    by (simp add: example_ext_def eval_reader courses_header_def)
  have av: "available_tables failing_source (etl_data_path one_by_one)
              = [''courses'', ''studentAssessment'', ''studentVle'']"
    by (simp add: available_tables_def execution_order_def os_path_exists_def open_file_def
        os_path_join_def one_by_one_def failing_source_def)
  let ?cdf = "\<lparr>columns = courses_header, rows = [[Str ''AAA'', Str ''2013J'', Num (Fin 268)]]\<rparr>"
  from th [THEN conjunct2, THEN conjunct2, THEN conjunct1, rule_format, OF conjI [OF cf cdf]]
  obtain dbs trs where
    l2: "length trs = length (available_tables failing_source (etl_data_path one_by_one))"
    and each: "\<forall>p < length (available_tables failing_source (etl_data_path one_by_one)).
                 \<exists>func. etl_plan example_ext ?cdf
                          (available_tables failing_source (etl_data_path one_by_one) ! p)
                          = Some func
                  \<and> process_csv_to_db example_ext failing_source
                       (os_path_join (etl_data_path one_by_one)
                          (available_tables failing_source (etl_data_path one_by_one) ! p
                             @ ''.csv''))
                       (available_tables failing_source (etl_data_path one_by_one) ! p) (dbs ! p)
                       (etl_batch_size one_by_one) func
                     = (dbs ! Suc p, trs ! p, Inr ())"
    and run: "run_full_etl example_ext failing_source empty_db one_by_one False
                = (dbs ! length (available_tables failing_source (etl_data_path one_by_one)),
                   (if False then [ResetCall] else []) @ concat trs
                     @ [SourceDone (etl_data_path one_by_one)],
                   Inr ())"
    by (elim exE conjE)
  have len3: "length trs = 3" using l2 unfolding av by simp
  have run3: "run_full_etl example_ext failing_source empty_db one_by_one False
                = (dbs ! 3, concat trs @ [SourceDone ''./data/''], Inr ())"
    using run unfolding av by (simp add: one_by_one_def numeral_3_eq_3)
  have p2: "(2::nat) < length [''courses'', ''studentAssessment'', ''studentVle'']"
    by simp
  from each [unfolded av, rule_format, OF p2]
  obtain func where
    pf: "etl_plan example_ext ?cdf ([''courses'', ''studentAssessment'', ''studentVle''] ! 2)
           = Some func"
    and ld: "process_csv_to_db example_ext failing_source
              (os_path_join (etl_data_path one_by_one)
                 ([''courses'', ''studentAssessment'', ''studentVle''] ! 2 @ ''.csv''))
              ([''courses'', ''studentAssessment'', ''studentVle''] ! 2) (dbs ! 2)
              (etl_batch_size one_by_one) func
            = (dbs ! Suc 2, trs ! 2, Inr ())"
    by (elim exE conjE)
  from pf have func: "func = transform_generic"
    by (simp add: etl_plan_def)
  have vle: "process_csv_to_db example_ext failing_source (''./data/'', ''studentVle.csv'')
               ''studentVle'' (dbs ! 2) 1 transform_generic
             = (dbs ! 3, trs ! 2, Inr ())"
    using ld unfolding func by (simp add: os_path_join_def one_by_one_def)
  have b: "\<exists>dbs trs. length trs = 3
        \<and> run_full_etl example_ext failing_source empty_db one_by_one False
            = (dbs ! 3, concat trs @ [SourceDone ''./data/''], Inr ())
        \<and> process_csv_to_db example_ext failing_source (''./data/'', ''studentVle.csv'')
             ''studentVle'' (dbs ! 2) 1 transform_generic
            = (dbs ! 3, trs ! 2, Inr ())"
    by (rule exI [of _ dbs], rule exI [of _ trs], intro conjI) (rule len3, rule run3, rule vle)
  have rd0: "read_csv_chunks (to_numeric example_ext) missing_values bad_scores_file 0
               = Inl ValueError"
    by (simp add: read_csv_chunks_def)
  note th0 = table_failure_is_contained [where ext = example_ext and fs = failing_source
      and filepath = "(''./data/'', ''studentAssessment.csv'')" and t = ?t and db = empty_db
      and n = 0 and tf = ?tf and f = bad_scores_file and e = ValueError]
  have c: "process_csv_to_db example_ext failing_source (''./data/'', ''studentAssessment.csv'')
             ?t empty_db 0 ?tf
           = (setup_etl_log_table empty_db,
              [Started ?t, CheckpointRead ?t, Failed ?t ValueError], Inr ())"
    by (rule th0 [THEN conjunct2, THEN conjunct2, THEN conjunct2, rule_format,
          OF conjI [OF fl rd0]])
  show ?thesis
    by (intro conjI) (rule a, rule b, rule c)
qed

section \<open>Order of the tables of a run\<close>

lemma run_full_etl_sorted:
  assumes run: "run_full_etl ext fs db cfg clear = (db', evs, r)"
  shows "sorted (map table_rank (committed_tables evs))"
proof -
  from run_full_etl_cases [OF run]
  consider (plain) "committed_tables evs = []"
    | (tables) cdf evs' r' where
        "process_tables ext fs cfg (etl_plan ext cdf)
           (available_tables fs (etl_data_path cfg))
           (setup_etl_log_table (if clear then clear_data_tables db else db))
         = (db', evs', r')"
        "evs = (if clear then [ResetCall] else []) @ evs'
                 @ (case r' of Inl e \<Rightarrow> [] | Inr u \<Rightarrow> [SourceDone (etl_data_path cfg)])"
    by (elim disjE exE conjE) auto
  then show ?thesis
  proof cases
    case plain
    then show ?thesis by simp
  next
    case tables
    have "\<forall>t \<in> set (available_tables fs (etl_data_path cfg)). etl_plan ext cdf t \<noteq> None"
      using available_tables_subset etl_plan_defined by blast
    from process_tables_general [OF tables(1) this] sorted_available_tables
    have "sorted (map table_rank (committed_tables evs'))" by blast
    moreover have "committed_tables evs = committed_tables evs'"
      by (cases r') (simp_all add: tables(2))
    ultimately show ?thesis by simp
  qed
qed

lemma run_all_tables_source:
  "run_full_etl example_ext all_tables_source empty_db example_config False
     = (db_without_assessments,
        table_events ''courses'' @ table_events ''vle'' @ table_events ''studentInfo''
          @ table_events ''studentRegistration''
          @ [Started ''assessments'', CheckpointRead ''assessments'',
             TransformCall ''assessments'' 1,
             Failed ''assessments'' (KeyError ''assessment_type'')]
          @ table_events ''studentAssessment'' @ table_events ''studentVle''
          @ [SourceDone ''./data/''],
        Inr ())"
  by (simp add: eval_run example_config_def all_tables_source_def db_without_assessments_def
      transform_assessments_def pd_merge_left_def same_key_dtypes_def object_dtype_def
      column_cells_def merge_key_def named_cell_def merge_keys_def
      transform_student_assessment_def classify_score_def set_column_def cell_at_def
      decimal_def)

text \<open>
  Claim C8 fails on the code as it is stated: the load of a table does not depend on
  the success of the loads before it. In a source that holds all seven tables and whose
  assessment table cannot be transformed, no row of \<open>assessments\<close> is committed, and
  the row of \<open>studentAssessment\<close> that refers to assessment 1752 is committed all the
  same.
\<close>

theorem run_full_etl_commits_detail_without_entity:
  "available_tables all_tables_source ''./data/'' = execution_order
   \<and> run_full_etl example_ext all_tables_source empty_db example_config False
       = (db_without_assessments,
          table_events ''courses'' @ table_events ''vle'' @ table_events ''studentInfo''
            @ table_events ''studentRegistration''
            @ [Started ''assessments'', CheckpointRead ''assessments'',
               TransformCall ''assessments'' 1,
               Failed ''assessments'' (KeyError ''assessment_type'')]
            @ table_events ''studentAssessment'' @ table_events ''studentVle''
            @ [SourceDone ''./data/''],
          Inr ())
   \<and> stored_rows db_without_assessments ''assessments'' = []
   \<and> stored_rows db_without_assessments ''studentAssessment''
        = [[(''id_assessment'', Num (Fin 1752)), (''id_student'', Num (Fin 11391)),
            (''score'', Num (Fin 78)), (''assessment_result'', Str ''Pass'')]]"
  using run_all_tables_source
  by (simp add: available_tables_def execution_order_def os_path_exists_def open_file_def
      os_path_join_def all_tables_source_def stored_rows_def db_without_assessments_def)

text \<open>
  Claim C8, amended. In every run the tables whose file is present are loaded in the
  fixed order of \<open>execution_order\<close> (all seven tables, in this order, when the source
  holds them all), and the commits of the run follow this order: a commit to a table
  never comes before a commit to a table that stands earlier in the order.
\<close>

theorem run_full_etl_execution_order:
  assumes run: "run_full_etl ext fs db cfg clear = (db', evs, r)"
  shows "sorted (map table_rank (committed_tables evs))
       \<and> (\<forall>p q. p < q \<and> q < length (committed_tables evs)
              \<longrightarrow> table_rank (committed_tables evs ! p)
                    \<le> table_rank (committed_tables evs ! q))
       \<and> (\<forall>cf cdf. open_file fs (os_path_join (etl_data_path cfg) ''courses.csv'') = Some cf
              \<and> read_csv (to_numeric ext) [] cf = Inr cdf
            \<longrightarrow> started_tables evs = available_tables fs (etl_data_path cfg))
       \<and> ((\<forall>t \<in> set execution_order.
              os_path_exists fs (os_path_join (etl_data_path cfg) (t @ ''.csv'')))
            \<longrightarrow> available_tables fs (etl_data_path cfg) = execution_order)"
proof (intro conjI)
  show srt: "sorted (map table_rank (committed_tables evs))"
    by (rule run_full_etl_sorted [OF run])
  show "\<forall>p q. p < q \<and> q < length (committed_tables evs)
              \<longrightarrow> table_rank (committed_tables evs ! p)
                    \<le> table_rank (committed_tables evs ! q)"
  proof (intro allI impI)
    fix p q
    assume pq: "p < q \<and> q < length (committed_tables evs)"
    with srt show "table_rank (committed_tables evs ! p) \<le> table_rank (committed_tables evs ! q)"
      by (simp add: sorted_iff_nth_mono)
  qed
  show "\<forall>cf cdf. open_file fs (os_path_join (etl_data_path cfg) ''courses.csv'') = Some cf
              \<and> read_csv (to_numeric ext) [] cf = Inr cdf
            \<longrightarrow> started_tables evs = available_tables fs (etl_data_path cfg)"
  proof (intro allI impI)
    fix cf cdf
    assume "open_file fs (os_path_join (etl_data_path cfg) ''courses.csv'') = Some cf
              \<and> read_csv (to_numeric ext) [] cf = Inr cdf"
    then have "\<exists>db' evs. run_full_etl ext fs db cfg clear = (db', evs, Inr ())
           \<and> started_tables evs = available_tables fs (etl_data_path cfg)"
      using run_full_etl_started by blast
    with run show "started_tables evs = available_tables fs (etl_data_path cfg)" by simp
  qed
  show "(\<forall>t \<in> set execution_order.
              os_path_exists fs (os_path_join (etl_data_path cfg) (t @ ''.csv'')))
            \<longrightarrow> available_tables fs (etl_data_path cfg) = execution_order"
    by (simp add: available_tables_def)
qed

theorem run_full_etl_execution_order_witness:
  "committed_tables
     (table_events ''courses'' @ table_events ''vle'' @ table_events ''studentInfo''
        @ table_events ''studentRegistration''
        @ [Started ''assessments'', CheckpointRead ''assessments'',
           TransformCall ''assessments'' 1,
           Failed ''assessments'' (KeyError ''assessment_type'')]
        @ table_events ''studentAssessment'' @ table_events ''studentVle''
        @ [SourceDone ''./data/''])
     = [''courses'', ''vle'', ''studentInfo'', ''studentRegistration'',
        ''studentAssessment'', ''studentVle'']
   \<and> sorted (map table_rank [''courses'', ''vle'', ''studentInfo'', ''studentRegistration'',
                              ''studentAssessment'', ''studentVle''])
   \<and> map table_rank [''courses'', ''vle'', ''studentInfo'', ''studentRegistration'',
                      ''studentAssessment'', ''studentVle''] = [0, 1, 2, 3, 5, 6]
   \<and> started_tables
        (table_events ''courses'' @ table_events ''vle'' @ table_events ''studentInfo''
           @ table_events ''studentRegistration''
           @ [Started ''assessments'', CheckpointRead ''assessments'',
              TransformCall ''assessments'' 1,
              Failed ''assessments'' (KeyError ''assessment_type'')]
           @ table_events ''studentAssessment'' @ table_events ''studentVle''
           @ [SourceDone ''./data/''])
      = [''courses'', ''vle'', ''studentInfo'', ''studentRegistration'', ''assessments'',
         ''studentAssessment'', ''studentVle'']"
proof -
  let ?evs = "table_events ''courses'' @ table_events ''vle'' @ table_events ''studentInfo''
        @ table_events ''studentRegistration''
        @ [Started ''assessments'', CheckpointRead ''assessments'',
           TransformCall ''assessments'' 1,
           Failed ''assessments'' (KeyError ''assessment_type'')]
        @ table_events ''studentAssessment'' @ table_events ''studentVle''
        @ [SourceDone ''./data/'']"
  note th = run_full_etl_execution_order [OF run_all_tables_source]
  have ct: "committed_tables ?evs
              = [''courses'', ''vle'', ''studentInfo'', ''studentRegistration'',
                 ''studentAssessment'', ''studentVle'']"
    by (simp add: committed_tables_def commits_def table_events_def)
  from th have s: "sorted (map table_rank (committed_tables ?evs))" by (rule conjunct1)
  have ranks: "map table_rank [''courses'', ''vle'', ''studentInfo'', ''studentRegistration'',
                               ''studentAssessment'', ''studentVle''] = [0, 1, 2, 3, 5, 6]"
    by (simp add: table_rank_def execution_order_def)
  have cf: "open_file all_tables_source (os_path_join (etl_data_path example_config) ''courses.csv'')
              = Some \<lparr>header = courses_header, records = [[''AAA'', ''2013J'', ''268'']]\<rparr>"
    by (simp add: open_file_def os_path_join_def example_config_def all_tables_source_def)
  have cdf: "read_csv (to_numeric example_ext) []
               \<lparr>header = courses_header, records = [[''AAA'', ''2013J'', ''268'']]\<rparr>
             = Inr \<lparr>columns = courses_header,
                    rows = [[Str ''AAA'', Str ''2013J'', Num (Fin 268)]]\<rparr>"
    by (simp add: example_ext_def eval_reader courses_header_def)
  have av: "available_tables all_tables_source (etl_data_path example_config)
              = [''courses'', ''vle'', ''studentInfo'', ''studentRegistration'', ''assessments'',
                 ''studentAssessment'', ''studentVle'']"
    by (simp add: available_tables_def execution_order_def os_path_exists_def open_file_def
        os_path_join_def example_config_def all_tables_source_def)
  from th [THEN conjunct2, THEN conjunct2, THEN conjunct1, rule_format, OF conjI [OF cf cdf]]
  have st: "started_tables ?evs
              = available_tables all_tables_source (etl_data_path example_config)" .
  show ?thesis
    using ct s [unfolded ct] ranks st [unfolded av] by (intro conjI)
qed

section \<open>Several sources\<close>

text \<open>
  Claim C9 fails on the code. The reset is indeed requested only for the first source
  (\<open>i = 0\<close>, or a single source), and a run without reset deletes nothing; but the
  checkpoint of a table is kept under the table name alone, so the checkpoints written
  while the first source was loaded make the load of the second source skip its first
  chunks as already committed. With two sources of one chunk per table, the second
  source is read and nothing of it is transformed or committed: the tables end up with
  the rows of the first source only, not with the union.
\<close>

theorem run_multi_source_etl_skips_second_source:
  "run_multi_source_etl example_ext two_sources empty_db example_config
       [''./data/'', ''./data_2/'']
     = (db_after_a,
        ResetCall # table_events ''courses'' @ table_events ''studentInfo''
          @ [SourceDone ''./data/'',
             Started ''courses'', CheckpointRead ''courses'', Completed ''courses'',
             Started ''studentInfo'', CheckpointRead ''studentInfo'', Completed ''studentInfo'',
             SourceDone ''./data_2/''],
        Inr ())
   \<and> stored_rows db_after_a ''courses'' = [courses_row_a]
   \<and> stored_rows db_after_a ''studentInfo'' = [student_row_a]
   \<and> courses_row_b \<notin> set (stored_rows db_after_a ''courses'')
   \<and> student_row_b \<notin> set (stored_rows db_after_a ''studentInfo'')"
  by (simp add: run_two_sources stored_rows_def db_after_a_def courses_row_a_def
      courses_row_b_def student_row_a_def student_row_b_def)

section \<open>Missing source file\<close>

text \<open>
  Claim C10. If the file path given to \<open>process_csv_to_db\<close> does not exist, the function
  returns normally, the database (the stored rows and the checkpoints) is the one it
  was given, and the only things that happened are the start message and the message
  for the missing file: the checkpoint was not read.
\<close>

theorem process_csv_to_db_missing_file:
  assumes "\<not> os_path_exists fs filepath"
  shows "process_csv_to_db ext fs filepath t db n transform_func
           = (db, [Started t, FileMissing t], Inr ())"
  using assms by (simp add: process_csv_to_db_def os_path_exists_def)

theorem process_csv_to_db_missing_file_witness:
  "\<not> os_path_exists Map.empty (''./data/'', ''vle.csv'')
   \<and> process_csv_to_db example_ext Map.empty (''./data/'', ''vle.csv'') ''vle'' empty_db 1000
        transform_generic = (empty_db, [Started ''vle'', FileMissing ''vle''], Inr ())"
proof -
  have h: "\<not> os_path_exists Map.empty (''./data/'', ''vle.csv'')"
    by (simp add: os_path_exists_def open_file_def)
  show ?thesis
    by (intro conjI h process_csv_to_db_missing_file [OF h])
qed

end
